theory Spec2Isabelle
  imports Main "HOL-Library.Word" "HOL-Library.Finite_Map"
begin

unbundle bit_operations_syntax

section \<open>Data model\<close>

text \<open>
  A shallow embedding of the chain-state cache of \<^verbatim>\<open>src/coins.cpp\<close> and of the block-undo
  format of \<^verbatim>\<open>src/undo.h\<close>.  C++ \<^verbatim>\<open>int\<close> is a 32-bit word, \<^verbatim>\<open>CAmount\<close> and
  \<^verbatim>\<open>int64_t\<close> are 64-bit words (signed comparisons are \<open><s\<close> and \<open>\<le>s\<close>), \<^verbatim>\<open>uint256\<close> is a
  256-bit word whose null value is 0.  A failed \<^verbatim>\<open>assert\<close> aborts the process: every
  operation that can reach one returns \<open>Inl AssertionFailed\<close> there.
\<close>

type_synonym uint256 = "256 word"
type_synonym CAmount = "64 word"
type_synonym cint = "32 word"
type_synonym bytes = "8 word list"

datatype error = AssertionFailed

definition IsNull256 :: "uint256 \<Rightarrow> bool" where
  "IsNull256 h = (h = 0)"

subsection \<open>Outputs and coin entries\<close>

text \<open>
  Modelled from the spec: \<^verbatim>\<open>CTxOut\<close> is declared in \<^verbatim>\<open>primitives/transaction.h\<close>, which is not
  among the sources.  An output is a value and a script; the canonical null output has
  value \<open>-1\<close> and an empty script, and \<^verbatim>\<open>IsNull\<close> tests the value.
\<close>

record CTxOut =
  nValue :: CAmount
  scriptPubKey :: bytes

definition IsNull :: "CTxOut \<Rightarrow> bool" where
  "IsNull out = (nValue out = - 1)"

definition SetNull :: "CTxOut \<Rightarrow> CTxOut" where
  "SetNull out = out\<lparr>nValue := - 1, scriptPubKey := []\<rparr>"

text \<open>
  Modelled from the spec: the class \<^verbatim>\<open>CCoins\<close> and \<^verbatim>\<open>BWT_POS_UNSET\<close> are declared in
  \<^verbatim>\<open>coins.h\<close>, which is not among the sources.  The record has the fields that
  \<^verbatim>\<open>coins.cpp\<close> reads and writes (the spec's CoinEntry); \<^verbatim>\<open>BWT_POS_UNSET\<close>, the spec's
  sentinel \<open>UNSET\<close>, is \<open>-1\<close>.  The member functions below are those of \<^verbatim>\<open>coins.cpp\<close>.
\<close>

record CCoins =
  fCoinBase :: bool
  vout :: "CTxOut list"
  nHeight :: cint
  nVersion :: cint
  nFirstBwtPos :: cint
  nBwtMaturityHeight :: cint

definition BWT_POS_UNSET :: cint where
  "BWT_POS_UNSET = - 1"

definition CCoins_init :: CCoins where
  "CCoins_init = \<lparr>fCoinBase = False, vout = [], nHeight = 0, nVersion = 0,
     nFirstBwtPos = BWT_POS_UNSET, nBwtMaturityHeight = 0\<rparr>"

definition Clear :: "CCoins \<Rightarrow> CCoins" where
  "Clear c = c\<lparr>fCoinBase := False, vout := [], nHeight := 0, nVersion := 0,
     nFirstBwtPos := BWT_POS_UNSET, nBwtMaturityHeight := 0\<rparr>"

text \<open>\<^verbatim>\<open>while (vout.size() > 0 && vout.back().IsNull()) vout.pop_back();\<close>\<close>

function pop_null_back :: "CTxOut list \<Rightarrow> CTxOut list" where
  "pop_null_back vs =
     (if vs \<noteq> [] \<and> IsNull (last vs) then pop_null_back (butlast vs) else vs)"
  by pat_completeness auto
termination
  by (relation "measure length") auto

declare pop_null_back.simps [simp del]

definition Cleanup :: "CCoins \<Rightarrow> CCoins" where
  "Cleanup c = c\<lparr>vout := pop_null_back (vout c)\<rparr>"

definition IsPruned :: "CCoins \<Rightarrow> bool" where
  "IsPruned c = list_all IsNull (vout c)"

definition IsAvailable :: "CCoins \<Rightarrow> nat \<Rightarrow> bool" where
  "IsAvailable c nPos = (nPos < length (vout c) \<and> \<not> IsNull (vout c ! nPos))"

text \<open>
  \<^verbatim>\<open>Spend\<close> returns whether the position was available, and the entry, which is changed
  (output nulled, trailing nulls trimmed) only on success.
\<close>

definition Spend :: "nat \<Rightarrow> CCoins \<Rightarrow> bool \<times> CCoins" where
  "Spend nPos c =
     (if nPos \<ge> length (vout c) \<or> IsNull (vout c ! nPos) then (False, c)
      else (True, Cleanup (c\<lparr>vout := (vout c)[nPos := SetNull (vout c ! nPos)]\<rparr>)))"

subsection \<open>Sidechain records and events\<close>

text \<open>
  Modelled from the spec: \<^verbatim>\<open>CSidechain\<close> and \<^verbatim>\<open>CSidechainEvents\<close> are declared in
  \<^verbatim>\<open>sc/sidechain.h\<close>, which is not among the sources.  The records hold the fields that
  \<^verbatim>\<open>coins.cpp\<close> reads and writes (the spec's Sidechain and SidechainEvents).
  \<^verbatim>\<open>std::map<int, CAmount>\<close> is a map; a \<^verbatim>\<open>std::set<uint256>\<close> is the ascending list of its
  elements, with \<open>insort_insert\<close> for \<^verbatim>\<open>insert\<close> and \<open>removeAll\<close> for \<^verbatim>\<open>erase\<close>.  The null
  epoch and quality are \<open>-1\<close> (a certificate for epoch 0 follows the null epoch).  A
  default-constructed sidechain has null digests, null epoch and quality, no amounts and
  state \<^verbatim>\<open>NOT_APPLICABLE\<close>; an event entry is null when both of its sets are empty.
\<close>

record ScCreationParameters =
  withdrawalEpochLength :: cint
  customData :: bytes
  scConstant :: bytes
  wCertVk :: bytes
  wMbtrVk :: "bytes option"

datatype State = UNCONFIRMED | ALIVE | CEASED | NOT_APPLICABLE

record CSidechain =
  creationBlockHash :: uint256
  creationBlockHeight :: cint
  creationTxHash :: uint256
  lastTopQualityCertReferencedEpoch :: cint
  lastTopQualityCertHash :: uint256
  lastTopQualityCertQuality :: "64 word"
  lastTopQualityCertBwtAmount :: CAmount
  lastTopQualityCertDataHash :: bytes
  pastEpochTopQualityCertDataHash :: bytes
  balance :: CAmount
  creationData :: ScCreationParameters
  mImmatureAmounts :: "cint \<rightharpoonup> CAmount"
  currentState :: State

definition EPOCH_NULL :: cint where
  "EPOCH_NULL = - 1"

definition QUALITY_NULL :: "64 word" where
  "QUALITY_NULL = - 1"

definition CSidechain_init :: CSidechain where
  "CSidechain_init = \<lparr>creationBlockHash = 0, creationBlockHeight = - 1, creationTxHash = 0,
     lastTopQualityCertReferencedEpoch = EPOCH_NULL, lastTopQualityCertHash = 0,
     lastTopQualityCertQuality = QUALITY_NULL, lastTopQualityCertBwtAmount = 0,
     lastTopQualityCertDataHash = [], pastEpochTopQualityCertDataHash = [], balance = 0,
     creationData = \<lparr>withdrawalEpochLength = - 1, customData = [], scConstant = [],
       wCertVk = [], wMbtrVk = None\<rparr>,
     mImmatureAmounts = Map.empty, currentState = NOT_APPLICABLE\<rparr>"

record CSidechainEvents =
  maturingScs :: "uint256 list"
  ceasingScs :: "uint256 list"

definition CSidechainEvents_init :: CSidechainEvents where
  "CSidechainEvents_init = \<lparr>maturingScs = [], ceasingScs = []\<rparr>"

definition EventsIsNull :: "CSidechainEvents \<Rightarrow> bool" where
  "EventsIsNull ev = (ceasingScs ev = [] \<and> maturingScs ev = [])"

subsection \<open>Cache entries\<close>

text \<open>
  Modelled from the spec: the cache-entry classes are declared in \<^verbatim>\<open>coins.h\<close>.  Coin,
  anchor and nullifier entries carry \<^verbatim>\<open>unsigned char flags\<close> with the independent bits
  \<^verbatim>\<open>DIRTY\<close> (\<^verbatim>\<open>1 << 0\<close>) and \<^verbatim>\<open>FRESH\<close> (\<^verbatim>\<open>1 << 1\<close>), tested with \<^verbatim>\<open>&\<close> and set with
  \<^verbatim>\<open>|=\<close>; sidechain and event entries carry one value \<^verbatim>\<open>flag\<close> of the enumeration
  \<^verbatim>\<open>Flags\<close>, whose \<^verbatim>\<open>FRESH\<close> and \<^verbatim>\<open>DIRTY\<close> are \<open>FRESH_ENTRY\<close> and \<open>DIRTY_ENTRY\<close> here.  The
  fields of the anchor, nullifier and event entries that would share a name with another
  record's are \<open>aflags\<close>, \<open>nentered\<close>, \<open>nflags\<close> and \<open>evflag\<close>.  The anchor tree
  (\<^verbatim>\<open>ZCIncrementalMerkleTree\<close>) is opaque apart from its root.
\<close>

definition DIRTY :: "8 word" where
  "DIRTY = 1"

definition FRESH :: "8 word" where
  "FRESH = 2"

record CCoinsCacheEntry =
  coins :: CCoins
  flags :: "8 word"

definition CCoinsCacheEntry_init :: CCoinsCacheEntry where
  "CCoinsCacheEntry_init = \<lparr>coins = CCoins_init, flags = 0\<rparr>"

datatype ZCIncrementalMerkleTree = Tree (root: uint256) (leaves: "uint256 list")

record CAnchorsCacheEntry =
  entered :: bool
  tree :: ZCIncrementalMerkleTree
  aflags :: "8 word"

record CNullifiersCacheEntry =
  nentered :: bool
  nflags :: "8 word"

datatype Flags = DEFAULT | FRESH_ENTRY | DIRTY_ENTRY | ERASED

record CSidechainsCacheEntry =
  sidechain :: CSidechain
  flag :: Flags

record CSidechainEventsCacheEntry =
  scEvents :: CSidechainEvents
  evflag :: Flags

subsection \<open>Views\<close>

text \<open>
  The backing view (\<^verbatim>\<open>CCoinsView *base\<close>) is consumed through its read interface only;
  a lookup that returns \<^verbatim>\<open>false\<close> is \<open>None\<close>.  The cache holds the five maps, the two
  lazily fetched digests and the Modifier latch.  \<^verbatim>\<open>cachedCoinsUsage\<close>, a counter of
  allocator sizes (\<^verbatim>\<open>DynamicMemoryUsage\<close>), is not modelled.  The lookups of the class
  are \<^verbatim>\<open>const\<close> but fill the \<^verbatim>\<open>mutable\<close> maps, so they return the cache as well.
\<close>

record CCoinsView =
  baseGetCoins :: "uint256 \<rightharpoonup> CCoins"
  baseGetAnchorAt :: "uint256 \<rightharpoonup> ZCIncrementalMerkleTree"
  baseGetNullifier :: "uint256 \<Rightarrow> bool"
  baseGetSidechain :: "uint256 \<rightharpoonup> CSidechain"
  baseGetSidechainEvents :: "cint \<rightharpoonup> CSidechainEvents"
  baseGetScIds :: "uint256 set"
  baseGetBestBlock :: uint256
  baseGetBestAnchor :: uint256

record CCoinsViewCache =
  base :: CCoinsView
  hasModifier :: bool
  hashBlock :: uint256
  hashAnchor :: uint256
  cacheCoins :: "uint256 \<rightharpoonup> CCoinsCacheEntry"
  cacheAnchors :: "uint256 \<rightharpoonup> CAnchorsCacheEntry"
  cacheNullifiers :: "uint256 \<rightharpoonup> CNullifiersCacheEntry"
  cacheSidechains :: "uint256 \<rightharpoonup> CSidechainsCacheEntry"
  cacheSidechainEvents :: "cint \<rightharpoonup> CSidechainEventsCacheEntry"

section \<open>Lazy hydration and the read interface\<close>

definition FetchCoins :: "uint256 \<Rightarrow> CCoinsViewCache \<Rightarrow> CCoinsCacheEntry option \<times> CCoinsViewCache" where
  "FetchCoins txid c =
     (case cacheCoins c txid of
        Some e \<Rightarrow> (Some e, c)
      | None \<Rightarrow>
          (case baseGetCoins (base c) txid of
             None \<Rightarrow> (None, c)
           | Some tmp \<Rightarrow>
               (let e = \<lparr>coins = tmp, flags = (if IsPruned tmp then FRESH else 0)\<rparr>
                in (Some e, c\<lparr>cacheCoins := (cacheCoins c)(txid \<mapsto> e)\<rparr>))))"

definition GetCoins :: "uint256 \<Rightarrow> CCoinsViewCache \<Rightarrow> CCoins option \<times> CCoinsViewCache" where
  "GetCoins txid c = (case FetchCoins txid c of (it, c') \<Rightarrow> (map_option coins it, c'))"

definition HaveCoins :: "uint256 \<Rightarrow> CCoinsViewCache \<Rightarrow> bool \<times> CCoinsViewCache" where
  "HaveCoins txid c =
     (case FetchCoins txid c of
        (it, c') \<Rightarrow> ((case it of None \<Rightarrow> False | Some e \<Rightarrow> vout (coins e) \<noteq> []), c'))"

definition FetchSidechains :: "uint256 \<Rightarrow> CCoinsViewCache \<Rightarrow> CSidechainsCacheEntry option \<times> CCoinsViewCache" where
  "FetchSidechains scId c =
     (case cacheSidechains c scId of
        Some e \<Rightarrow> (Some e, c)
      | None \<Rightarrow>
          (case baseGetSidechain (base c) scId of
             None \<Rightarrow> (None, c)
           | Some tmp \<Rightarrow>
               (let e = \<lparr>sidechain = tmp, flag = DEFAULT\<rparr>
                in (Some e, c\<lparr>cacheSidechains := (cacheSidechains c)(scId \<mapsto> e)\<rparr>))))"

text \<open>
  \<^verbatim>\<open>ModifySidechain\<close> returns an iterator to the slot, which it creates when missing
  (\<^verbatim>\<open>FRESH\<close> with a default record when the base has none): the result is the slot's
  entry and the cache that holds it.  A caller that writes through the iterator stores the
  changed entry with \<open>setSidechainEntry\<close>.
\<close>

definition setSidechainEntry :: "uint256 \<Rightarrow> CSidechainsCacheEntry \<Rightarrow> CCoinsViewCache \<Rightarrow> CCoinsViewCache" where
  "setSidechainEntry scId e c = c\<lparr>cacheSidechains := (cacheSidechains c)(scId \<mapsto> e)\<rparr>"

definition ModifySidechain :: "uint256 \<Rightarrow> CCoinsViewCache \<Rightarrow> CSidechainsCacheEntry \<times> CCoinsViewCache" where
  "ModifySidechain scId c =
     (case cacheSidechains c scId of
        Some e \<Rightarrow> (e, c)
      | None \<Rightarrow>
          (let e = (case baseGetSidechain (base c) scId of
                      Some tmp \<Rightarrow> \<lparr>sidechain = tmp, flag = DEFAULT\<rparr>
                    | None \<Rightarrow> \<lparr>sidechain = CSidechain_init, flag = FRESH_ENTRY\<rparr>)
           in (e, setSidechainEntry scId e c)))"

definition AccessSidechain :: "uint256 \<Rightarrow> CCoinsViewCache \<Rightarrow> CSidechain option \<times> CCoinsViewCache" where
  "AccessSidechain scId c = (case FetchSidechains scId c of (it, c') \<Rightarrow> (map_option sidechain it, c'))"

definition FetchSidechainEvents :: "cint \<Rightarrow> CCoinsViewCache \<Rightarrow> CSidechainEventsCacheEntry option \<times> CCoinsViewCache" where
  "FetchSidechainEvents height c =
     (case cacheSidechainEvents c height of
        Some e \<Rightarrow> (Some e, c)
      | None \<Rightarrow>
          (case baseGetSidechainEvents (base c) height of
             None \<Rightarrow> (None, c)
           | Some tmp \<Rightarrow>
               (let e = \<lparr>scEvents = tmp, evflag = DEFAULT\<rparr>
                in (Some e, c\<lparr>cacheSidechainEvents := (cacheSidechainEvents c)(height \<mapsto> e)\<rparr>))))"

definition setEventsEntry :: "cint \<Rightarrow> CSidechainEventsCacheEntry \<Rightarrow> CCoinsViewCache \<Rightarrow> CCoinsViewCache" where
  "setEventsEntry height e c = c\<lparr>cacheSidechainEvents := (cacheSidechainEvents c)(height \<mapsto> e)\<rparr>"

definition ModifySidechainEvents :: "cint \<Rightarrow> CCoinsViewCache \<Rightarrow> CSidechainEventsCacheEntry \<times> CCoinsViewCache" where
  "ModifySidechainEvents height c =
     (case cacheSidechainEvents c height of
        Some e \<Rightarrow> (e, c)
      | None \<Rightarrow>
          (let e = (case baseGetSidechainEvents (base c) height of
                      None \<Rightarrow> \<lparr>scEvents = CSidechainEvents_init, evflag = FRESH_ENTRY\<rparr>
                    | Some tmp \<Rightarrow> \<lparr>scEvents = tmp, evflag = DEFAULT\<rparr>)
           in (e, setEventsEntry height e c)))"

definition HaveSidechain :: "uint256 \<Rightarrow> CCoinsViewCache \<Rightarrow> bool \<times> CCoinsViewCache" where
  "HaveSidechain scId c =
     (case FetchSidechains scId c of
        (it, c') \<Rightarrow> ((case it of None \<Rightarrow> False | Some e \<Rightarrow> flag e \<noteq> ERASED), c'))"

text \<open>
  \<^verbatim>\<open>GetSidechain\<close> fills the out-parameter only when it returns \<^verbatim>\<open>true\<close>: the result is
  \<open>Some\<close> of the record then, and \<open>None\<close> for \<^verbatim>\<open>false\<close>.
\<close>

definition GetSidechain :: "uint256 \<Rightarrow> CCoinsViewCache \<Rightarrow> CSidechain option \<times> CCoinsViewCache" where
  "GetSidechain scId c =
     (case FetchSidechains scId c of
        (it, c') \<Rightarrow>
          ((case it of None \<Rightarrow> None
            | Some e \<Rightarrow> if flag e \<noteq> ERASED then Some (sidechain e) else None), c'))"

text \<open>
  \<^verbatim>\<open>GetScIds\<close> starts from the base's ids, then erases the id of every \<^verbatim>\<open>ERASED\<close> cache
  entry and inserts the id of every other cache entry.
\<close>

definition GetScIds :: "CCoinsViewCache \<Rightarrow> uint256 set" where
  "GetScIds c =
     (baseGetScIds (base c)
        - {k. \<exists>e. cacheSidechains c k = Some e \<and> flag e = ERASED})
        \<union> {k. \<exists>e. cacheSidechains c k = Some e \<and> flag e \<noteq> ERASED}"

definition HaveSidechainEvents :: "cint \<Rightarrow> CCoinsViewCache \<Rightarrow> bool \<times> CCoinsViewCache" where
  "HaveSidechainEvents height c =
     (case FetchSidechainEvents height c of
        (it, c') \<Rightarrow> ((case it of None \<Rightarrow> False | Some e \<Rightarrow> evflag e \<noteq> ERASED), c'))"

definition GetSidechainEvents :: "cint \<Rightarrow> CCoinsViewCache \<Rightarrow> CSidechainEvents option \<times> CCoinsViewCache" where
  "GetSidechainEvents height c =
     (case FetchSidechainEvents height c of
        (it, c') \<Rightarrow>
          ((case it of None \<Rightarrow> None
            | Some e \<Rightarrow> if evflag e \<noteq> ERASED then Some (scEvents e) else None), c'))"

definition GetBestBlock :: "CCoinsViewCache \<Rightarrow> uint256 \<times> CCoinsViewCache" where
  "GetBestBlock c =
     (let c' = (if IsNull256 (hashBlock c) then c\<lparr>hashBlock := baseGetBestBlock (base c)\<rparr> else c)
      in (hashBlock c', c'))"

definition GetBestAnchor :: "CCoinsViewCache \<Rightarrow> uint256 \<times> CCoinsViewCache" where
  "GetBestAnchor c =
     (let c' = (if IsNull256 (hashAnchor c) then c\<lparr>hashAnchor := baseGetBestAnchor (base c)\<rparr> else c)
      in (hashAnchor c', c'))"

section \<open>Anchors\<close>

text \<open>
  Modelled from the spec: the constructor of \<^verbatim>\<open>CAnchorsCacheEntry\<close> is in \<^verbatim>\<open>coins.h\<close>.  A
  default-constructed entry is not entered, has no flags and holds the empty tree (whose
  root is a fixed digest, 0 here).  The operations below are those of \<^verbatim>\<open>coins.cpp\<close>.
\<close>

definition CAnchorsCacheEntry_init :: CAnchorsCacheEntry where
  "CAnchorsCacheEntry_init = \<lparr>entered = False, tree = Tree 0 [], aflags = 0\<rparr>"

definition GetAnchorAt :: "uint256 \<Rightarrow> CCoinsViewCache \<Rightarrow> ZCIncrementalMerkleTree option \<times> CCoinsViewCache" where
  "GetAnchorAt rt c =
     (case cacheAnchors c rt of
        Some e \<Rightarrow> (if entered e then Some (tree e) else None, c)
      | None \<Rightarrow>
          (case baseGetAnchorAt (base c) rt of
             None \<Rightarrow> (None, c)
           | Some t \<Rightarrow>
               (Some t, c\<lparr>cacheAnchors := (cacheAnchors c)(rt \<mapsto>
                   CAnchorsCacheEntry_init\<lparr>entered := True, tree := t\<rparr>)\<rparr>)))"

definition PushAnchor :: "ZCIncrementalMerkleTree \<Rightarrow> CCoinsViewCache \<Rightarrow> CCoinsViewCache" where
  "PushAnchor t c =
     (let newrt = root t in
      case GetBestAnchor c of
        (currentRoot, c1) \<Rightarrow>
          if currentRoot \<noteq> newrt then
            (let ret = (case cacheAnchors c1 newrt of Some e \<Rightarrow> e | None \<Rightarrow> CAnchorsCacheEntry_init)
             in c1\<lparr>cacheAnchors := (cacheAnchors c1)(newrt \<mapsto>
                     ret\<lparr>entered := True, tree := t, aflags := DIRTY\<rparr>),
                   hashAnchor := newrt\<rparr>)
          else c1)"

text \<open>
  \<^verbatim>\<open>cacheAnchors[currentRoot]\<close> designates the slot that the asserted \<^verbatim>\<open>GetAnchorAt\<close> has
  found or created; \<^verbatim>\<open>operator[]\<close> would create a default slot otherwise.
\<close>

definition PopAnchor :: "uint256 \<Rightarrow> CCoinsViewCache \<Rightarrow> error + CCoinsViewCache" where
  "PopAnchor newrt c =
     (case GetBestAnchor c of
        (currentRoot, c1) \<Rightarrow>
          if currentRoot \<noteq> newrt then
            (case GetAnchorAt currentRoot c1 of
               (None, c2) \<Rightarrow> Inl AssertionFailed
             | (Some t, c2) \<Rightarrow>
                 (let slot = (case cacheAnchors c2 currentRoot of
                                Some e \<Rightarrow> e | None \<Rightarrow> CAnchorsCacheEntry_init)
                  in Inr (c2\<lparr>cacheAnchors := (cacheAnchors c2)(currentRoot \<mapsto>
                            slot\<lparr>entered := False, aflags := DIRTY\<rparr>),
                          hashAnchor := newrt\<rparr>)))
          else Inr c1)"

section \<open>The Modifier\<close>

text \<open>
  \<^verbatim>\<open>ModifyCoins\<close> finds or creates the slot, marks it \<^verbatim>\<open>DIRTY\<close> and latches
  \<^verbatim>\<open>hasModifier\<close>; the handle it returns is the key of the slot.  Writes through the
  handle (\<^verbatim>\<open>coins->...\<close>) change the coins of the slot (\<open>modifyEntry\<close>); dropping the
  handle runs \<^verbatim>\<open>~CCoinsModifier\<close>.
\<close>

definition setCoinsEntry :: "uint256 \<Rightarrow> CCoinsCacheEntry \<Rightarrow> CCoinsViewCache \<Rightarrow> CCoinsViewCache" where
  "setCoinsEntry txid e c = c\<lparr>cacheCoins := (cacheCoins c)(txid \<mapsto> e)\<rparr>"

definition ModifyCoins :: "uint256 \<Rightarrow> CCoinsViewCache \<Rightarrow> error + (CCoinsCacheEntry \<times> CCoinsViewCache)" where
  "ModifyCoins txid c =
     (if hasModifier c then Inl AssertionFailed
      else
        (let ret = (case cacheCoins c txid of
                      Some e \<Rightarrow> e
                    | None \<Rightarrow>
                        (case baseGetCoins (base c) txid of
                           None \<Rightarrow> CCoinsCacheEntry_init\<lparr>coins := Clear CCoins_init, flags := FRESH\<rparr>
                         | Some tmp \<Rightarrow>
                             if IsPruned tmp then CCoinsCacheEntry_init\<lparr>coins := tmp, flags := FRESH\<rparr>
                             else CCoinsCacheEntry_init\<lparr>coins := tmp\<rparr>));
             e = ret\<lparr>flags := flags ret OR DIRTY\<rparr>
         in Inr (e, (setCoinsEntry txid e c)\<lparr>hasModifier := True\<rparr>)))"

definition modifyEntry :: "uint256 \<Rightarrow> (CCoins \<Rightarrow> CCoins) \<Rightarrow> CCoinsViewCache \<Rightarrow> CCoinsViewCache" where
  "modifyEntry txid f c =
     (case cacheCoins c txid of
        None \<Rightarrow> c
      | Some e \<Rightarrow> setCoinsEntry txid (e\<lparr>coins := f (coins e)\<rparr>) c)"

definition CCoinsModifier_drop :: "uint256 \<Rightarrow> CCoinsViewCache \<Rightarrow> error + CCoinsViewCache" where
  "CCoinsModifier_drop txid c =
     (if \<not> hasModifier c then Inl AssertionFailed
      else
        (let c1 = c\<lparr>hasModifier := False\<rparr> in
         case cacheCoins c1 txid of
           None \<Rightarrow> Inr c1
         | Some it \<Rightarrow>
             (let e = it\<lparr>coins := Cleanup (coins it)\<rparr> in
              if flags e AND FRESH \<noteq> 0 \<and> IsPruned (coins e)
              then Inr (c1\<lparr>cacheCoins := (cacheCoins c1)(txid := None)\<rparr>)
              else Inr (setCoinsEntry txid e c1))))"

section \<open>Upward flush\<close>

text \<open>
  A loop whose body can abort: the fold stops at the first failed assertion.
\<close>

fun foldE :: "('a \<Rightarrow> 's \<Rightarrow> error + 's) \<Rightarrow> 'a list \<Rightarrow> 's \<Rightarrow> error + 's" where
  "foldE f [] s = Inr s"
| "foldE f (x # xs) s = (case f x s of Inl e \<Rightarrow> Inl e | Inr s' \<Rightarrow> foldE f xs s')"

text \<open>
  The child's maps are hash maps: each is the list of its entries in iteration order, with
  pairwise distinct keys.  \<^verbatim>\<open>BatchWrite\<close> erases every child entry it has visited; the
  child's maps are empty when it returns, and only the receiving cache is returned here.
  The body of the first loop, for one child coin entry:
\<close>

definition BatchWrite_coin :: "uint256 \<times> CCoinsCacheEntry \<Rightarrow> CCoinsViewCache \<Rightarrow> error + CCoinsViewCache" where
  "BatchWrite_coin it c =
     (if flags (snd it) AND DIRTY \<noteq> 0 then
        (case cacheCoins c (fst it) of
           None \<Rightarrow>
             if \<not> IsPruned (coins (snd it)) then
               (if flags (snd it) AND FRESH = 0 then Inl AssertionFailed
                else Inr (setCoinsEntry (fst it)
                       (CCoinsCacheEntry_init\<lparr>coins := coins (snd it), flags := DIRTY OR FRESH\<rparr>) c))
             else Inr c
         | Some itUs \<Rightarrow>
             if flags itUs AND FRESH \<noteq> 0 \<and> IsPruned (coins (snd it))
             then Inr (c\<lparr>cacheCoins := (cacheCoins c)(fst it := None)\<rparr>)
             else Inr (setCoinsEntry (fst it)
                    (itUs\<lparr>coins := coins (snd it), flags := flags itUs OR DIRTY\<rparr>) c))
      else Inr c)"

definition BatchWrite_anchor :: "uint256 \<times> CAnchorsCacheEntry \<Rightarrow> CCoinsViewCache \<Rightarrow> CCoinsViewCache" where
  "BatchWrite_anchor child_it c =
     (if aflags (snd child_it) AND DIRTY \<noteq> 0 then
        (case cacheAnchors c (fst child_it) of
           None \<Rightarrow>
             c\<lparr>cacheAnchors := (cacheAnchors c)(fst child_it \<mapsto>
                 CAnchorsCacheEntry_init\<lparr>entered := entered (snd child_it),
                   tree := tree (snd child_it), aflags := DIRTY\<rparr>)\<rparr>
         | Some parent_it \<Rightarrow>
             if entered parent_it \<noteq> entered (snd child_it)
             then c\<lparr>cacheAnchors := (cacheAnchors c)(fst child_it \<mapsto>
                      parent_it\<lparr>entered := entered (snd child_it),
                        aflags := aflags parent_it OR DIRTY\<rparr>)\<rparr>
             else c)
      else c)"

definition BatchWrite_nullifier :: "uint256 \<times> CNullifiersCacheEntry \<Rightarrow> CCoinsViewCache \<Rightarrow> CCoinsViewCache" where
  "BatchWrite_nullifier child_it c =
     (if nflags (snd child_it) AND DIRTY \<noteq> 0 then
        (case cacheNullifiers c (fst child_it) of
           None \<Rightarrow>
             c\<lparr>cacheNullifiers := (cacheNullifiers c)(fst child_it \<mapsto>
                 \<lparr>nentered = nentered (snd child_it), nflags = DIRTY\<rparr>)\<rparr>
         | Some parent_it \<Rightarrow>
             if nentered parent_it \<noteq> nentered (snd child_it)
             then c\<lparr>cacheNullifiers := (cacheNullifiers c)(fst child_it \<mapsto>
                      parent_it\<lparr>nentered := nentered (snd child_it),
                        nflags := nflags parent_it OR DIRTY\<rparr>)\<rparr>
             else c)
      else c)"

text \<open>
  \<^verbatim>\<open>WriteMutableEntry\<close>, which merges one sidechain or event entry of the child into the
  receiving map, is defined in \<^verbatim>\<open>coins.h\<close>; \<^verbatim>\<open>BatchWrite\<close> takes its two instances as the
  parameters \<open>wSc\<close> and \<open>wEv\<close>.
\<close>

definition BatchWrite ::
  "(uint256 \<times> CSidechainsCacheEntry \<Rightarrow> (uint256 \<rightharpoonup> CSidechainsCacheEntry) \<Rightarrow> error + (uint256 \<rightharpoonup> CSidechainsCacheEntry)) \<Rightarrow>
   (cint \<times> CSidechainEventsCacheEntry \<Rightarrow> (cint \<rightharpoonup> CSidechainEventsCacheEntry) \<Rightarrow> error + (cint \<rightharpoonup> CSidechainEventsCacheEntry)) \<Rightarrow>
   (uint256 \<times> CCoinsCacheEntry) list \<Rightarrow> uint256 \<Rightarrow> uint256 \<Rightarrow>
   (uint256 \<times> CAnchorsCacheEntry) list \<Rightarrow> (uint256 \<times> CNullifiersCacheEntry) list \<Rightarrow>
   (uint256 \<times> CSidechainsCacheEntry) list \<Rightarrow> (cint \<times> CSidechainEventsCacheEntry) list \<Rightarrow>
   CCoinsViewCache \<Rightarrow> error + CCoinsViewCache" where
  "BatchWrite wSc wEv mapCoins hashBlockIn hashAnchorIn mapAnchors mapNullifiers
       mapSidechains mapSidechainEvents c =
     (if hasModifier c then Inl AssertionFailed
      else
        case foldE BatchWrite_coin mapCoins c of
          Inl e \<Rightarrow> Inl e
        | Inr c1 \<Rightarrow>
            (let c2 = fold BatchWrite_anchor mapAnchors c1;
                 c3 = fold BatchWrite_nullifier mapNullifiers c2
             in case foldE wSc mapSidechains (cacheSidechains c3) of
                  Inl e \<Rightarrow> Inl e
                | Inr scs \<Rightarrow>
                    (case foldE wEv mapSidechainEvents (cacheSidechainEvents c3) of
                       Inl e \<Rightarrow> Inl e
                     | Inr evs \<Rightarrow>
                         Inr (c3\<lparr>cacheSidechains := scs, cacheSidechainEvents := evs,
                                hashAnchor := hashAnchorIn, hashBlock := hashBlockIn\<rparr>))))"

section \<open>Undo data\<close>

text \<open>
  \<^verbatim>\<open>CTxInUndo\<close> as in \<^verbatim>\<open>undo.h\<close>, its fields with the prefix \<open>u_\<close> where \<^verbatim>\<open>CCoins\<close> has a
  field of the same name.  The constructor from an output leaves the metadata at its
  defaults.
\<close>

record CTxInUndo =
  txout :: CTxOut
  u_fCoinBase :: bool
  u_nHeight :: "32 word"
  u_nVersion :: cint
  u_nFirstBwtPos :: cint
  u_nBwtMaturityHeight :: cint

definition CTxInUndo_of :: "CTxOut \<Rightarrow> CTxInUndo" where
  "CTxInUndo_of txoutIn = \<lparr>txout = txoutIn, u_fCoinBase = False, u_nHeight = 0, u_nVersion = 0,
     u_nFirstBwtPos = BWT_POS_UNSET, u_nBwtMaturityHeight = 0\<rparr>"

text \<open>
  Modelled from the spec: \<^verbatim>\<open>coins.cpp\<close> uses a per-sidechain undo record with the sections
  and fields below, which the \<^verbatim>\<open>CSidechainUndoData\<close> of the \<^verbatim>\<open>undo.h\<close> at hand does not
  declare under these names.  The record has the fields that \<^verbatim>\<open>coins.cpp\<close> reads and
  writes, with the defaults of the constructor in \<^verbatim>\<open>undo.h\<close>; the fields that would share
  a name with a field of \<^verbatim>\<open>CSidechain\<close> carry the prefix \<open>undo_\<close>.  Each section is one bit
  of \<^verbatim>\<open>contentBitMask\<close>; the mask is the set of the sections whose bit is set, so that
  \<^verbatim>\<open>mask |= S\<close> inserts \<open>S\<close> and \<^verbatim>\<open>mask & S\<close> tests membership.  The record that \<^verbatim>\<open>undo.h\<close>
  declares and serializes is \<open>CSidechainUndoData_h\<close>, with the block-undo format below.
\<close>

datatype AvailableSections =
  MATURED_AMOUNTS | CROSS_EPOCH_CERT_DATA | ANY_EPOCH_CERT_DATA | CEASED_CERT_DATA

record CSidechainUndoData =
  contentBitMask :: "AvailableSections set"
  prevTopCommittedCertReferencedEpoch :: cint
  prevTopCommittedCertHash :: uint256
  prevTopCommittedCertQuality :: "64 word"
  prevTopCommittedCertBwtAmount :: CAmount
  undo_lastTopQualityCertDataHash :: bytes
  undo_pastEpochTopQualityCertDataHash :: bytes
  appliedMaturedAmount :: CAmount
  ceasedBwts :: "CTxInUndo list"

definition CSidechainUndoData_init :: CSidechainUndoData where
  "CSidechainUndoData_init = \<lparr>contentBitMask = {},
     prevTopCommittedCertReferencedEpoch = EPOCH_NULL, prevTopCommittedCertHash = 0,
     prevTopCommittedCertQuality = QUALITY_NULL, prevTopCommittedCertBwtAmount = 0,
     undo_lastTopQualityCertDataHash = [], undo_pastEpochTopQualityCertDataHash = [],
     appliedMaturedAmount = 0, ceasedBwts = []\<rparr>"

text \<open>
  The part of \<^verbatim>\<open>CBlockUndo\<close> that the cache writes is \<^verbatim>\<open>scUndoDatabyScId\<close>;
  \<^verbatim>\<open>scUndoDatabyScId[scId]\<close> creates a default record when the key is missing.
\<close>

type_synonym ScUndoMap = "uint256 \<rightharpoonup> CSidechainUndoData"

definition undoAt :: "ScUndoMap \<Rightarrow> uint256 \<Rightarrow> CSidechainUndoData" where
  "undoAt m scId = (case m scId of None \<Rightarrow> CSidechainUndoData_init | Some u \<Rightarrow> u)"

section \<open>Certificates\<close>

text \<open>
  Modelled from the spec: \<^verbatim>\<open>CScCertificate\<close> is declared in \<^verbatim>\<open>primitives/certificate.h\<close>,
  which is not among the sources.  The record holds the values that the cache reads from
  a certificate: \<^verbatim>\<open>GetHash()\<close>, \<^verbatim>\<open>GetScId()\<close>, \<^verbatim>\<open>epochNumber\<close>, \<^verbatim>\<open>quality\<close>,
  \<^verbatim>\<open>GetValueOfBackwardTransfers()\<close> (the spec's \<open>bwt_total\<close>) and \<^verbatim>\<open>GetDataHash()\<close>.
\<close>

record CScCertificate =
  certHash :: uint256
  certScId :: uint256
  epochNumber :: cint
  quality :: "64 word"
  bwtTotalAmount :: CAmount
  certDataHash :: bytes

text \<open>
  \<^verbatim>\<open>UpdateSidechain(cert, blockUndo)\<close>.  The sidechain and the undo record are changed in
  place, also on the paths that then return \<^verbatim>\<open>false\<close>; the result is the returned
  boolean with the undo map and the cache as they are left.  \<open>UpdateSidechain_debit\<close> is the
  part of the function after the epoch handling, entered with the sidechain and the undo
  record as the epoch handling has left them.
\<close>

definition UpdateSidechain_debit ::
  "CScCertificate \<Rightarrow> CSidechainsCacheEntry \<Rightarrow> CSidechain \<Rightarrow> CSidechainUndoData \<Rightarrow> ScUndoMap \<Rightarrow>
   CCoinsViewCache \<Rightarrow> bool \<times> ScUndoMap \<times> CCoinsViewCache" where
  "UpdateSidechain_debit cert scIt currentSc scUndoData blockUndo c =
     (let scId = certScId cert in
      if balance currentSc <s bwtTotalAmount cert
      then (False, blockUndo(scId \<mapsto> scUndoData),
            setSidechainEntry scId (scIt\<lparr>sidechain := currentSc\<rparr>) c)
      else
        (let currentSc1 = currentSc\<lparr>balance := balance currentSc - bwtTotalAmount cert\<rparr>;
             scUndoData1 = scUndoData\<lparr>
               prevTopCommittedCertHash := lastTopQualityCertHash currentSc1,
               prevTopCommittedCertReferencedEpoch := lastTopQualityCertReferencedEpoch currentSc1,
               prevTopCommittedCertQuality := lastTopQualityCertQuality currentSc1,
               prevTopCommittedCertBwtAmount := lastTopQualityCertBwtAmount currentSc1,
               undo_lastTopQualityCertDataHash := lastTopQualityCertDataHash currentSc1,
               contentBitMask := insert ANY_EPOCH_CERT_DATA (contentBitMask scUndoData)\<rparr>;
             currentSc2 = currentSc1\<lparr>
               lastTopQualityCertHash := certHash cert,
               lastTopQualityCertReferencedEpoch := epochNumber cert,
               lastTopQualityCertQuality := quality cert,
               lastTopQualityCertBwtAmount := bwtTotalAmount cert,
               lastTopQualityCertDataHash := certDataHash cert\<rparr>
         in (True, blockUndo(scId \<mapsto> scUndoData1),
             setSidechainEntry scId \<lparr>sidechain = currentSc2, flag = DIRTY_ENTRY\<rparr> c)))"

definition UpdateSidechain_cert ::
  "CScCertificate \<Rightarrow> ScUndoMap \<Rightarrow> CCoinsViewCache \<Rightarrow> error + (bool \<times> ScUndoMap \<times> CCoinsViewCache)" where
  "UpdateSidechain_cert cert blockUndo c =
     (let scId = certScId cert;
          blockUndo0 = blockUndo(scId \<mapsto> undoAt blockUndo scId)
      in if \<not> IsNull256 (prevTopCommittedCertHash (undoAt blockUndo0 scId)) then Inl AssertionFailed
         else
           case HaveSidechain scId c of
             (False, c0) \<Rightarrow> Inr (False, blockUndo0, c0)
           | (True, c0) \<Rightarrow>
               (case ModifySidechain scId c0 of
                  (scIt, c1) \<Rightarrow>
                    (let currentSc = sidechain scIt;
                         scUndoData = undoAt blockUndo0 scId
                     in if epochNumber cert = lastTopQualityCertReferencedEpoch currentSc + 1 then
                          Inr (UpdateSidechain_debit cert scIt
                                 (currentSc\<lparr>pastEpochTopQualityCertDataHash := lastTopQualityCertDataHash currentSc\<rparr>)
                                 (scUndoData\<lparr>undo_pastEpochTopQualityCertDataHash := pastEpochTopQualityCertDataHash currentSc,
                                    contentBitMask := insert CROSS_EPOCH_CERT_DATA (contentBitMask scUndoData)\<rparr>)
                                 blockUndo0 c1)
                        else if epochNumber cert = lastTopQualityCertReferencedEpoch currentSc then
                          (if quality cert \<le>s lastTopQualityCertQuality currentSc
                           then Inr (False, blockUndo0, c1)
                           else Inr (UpdateSidechain_debit cert scIt
                                       (currentSc\<lparr>balance := balance currentSc + lastTopQualityCertBwtAmount currentSc\<rparr>)
                                       scUndoData blockUndo0 c1))
                        else Inr (False, blockUndo0, c1))))"

text \<open>\<^verbatim>\<open>RestoreSidechain(certToRevert, sidechainUndo)\<close>.\<close>

definition RestoreSidechain ::
  "CScCertificate \<Rightarrow> CSidechainUndoData \<Rightarrow> CCoinsViewCache \<Rightarrow> error + (bool \<times> CCoinsViewCache)" where
  "RestoreSidechain certToRevert sidechainUndo c =
     (let scId = certScId certToRevert in
      case HaveSidechain scId c of
        (False, c0) \<Rightarrow> Inr (False, c0)
      | (True, c0) \<Rightarrow>
          (case ModifySidechain scId c0 of
             (scIt, c1) \<Rightarrow>
               (let currentSc = sidechain scIt in
                if certHash certToRevert \<noteq> lastTopQualityCertHash currentSc then Inl AssertionFailed
                else
                  (let currentSc1 = currentSc\<lparr>balance := balance currentSc + bwtTotalAmount certToRevert\<rparr>;
                       restoreTop = (\<lambda>sc. sc\<lparr>
                         lastTopQualityCertHash := prevTopCommittedCertHash sidechainUndo,
                         lastTopQualityCertReferencedEpoch := prevTopCommittedCertReferencedEpoch sidechainUndo,
                         lastTopQualityCertQuality := prevTopCommittedCertQuality sidechainUndo,
                         lastTopQualityCertBwtAmount := prevTopCommittedCertBwtAmount sidechainUndo,
                         lastTopQualityCertDataHash := undo_lastTopQualityCertDataHash sidechainUndo\<rparr>)
                   in if epochNumber certToRevert = prevTopCommittedCertReferencedEpoch sidechainUndo + 1 then
                        (if CROSS_EPOCH_CERT_DATA \<notin> contentBitMask sidechainUndo then Inl AssertionFailed
                         else
                           (let currentSc2 = currentSc1\<lparr>
                                  lastTopQualityCertDataHash := pastEpochTopQualityCertDataHash currentSc1,
                                  pastEpochTopQualityCertDataHash := undo_pastEpochTopQualityCertDataHash sidechainUndo\<rparr>
                            in if ANY_EPOCH_CERT_DATA \<notin> contentBitMask sidechainUndo then Inl AssertionFailed
                               else Inr (True, setSidechainEntry scId
                                           \<lparr>sidechain = restoreTop currentSc2, flag = DIRTY_ENTRY\<rparr> c1)))
                      else if epochNumber certToRevert = prevTopCommittedCertReferencedEpoch sidechainUndo then
                        (if \<not> (prevTopCommittedCertQuality sidechainUndo <s quality certToRevert) then Inl AssertionFailed
                         else
                           (let currentSc2 = currentSc1\<lparr>
                                  balance := balance currentSc1 - prevTopCommittedCertBwtAmount sidechainUndo\<rparr>
                            in if ANY_EPOCH_CERT_DATA \<notin> contentBitMask sidechainUndo then Inl AssertionFailed
                               else Inr (True, setSidechainEntry scId
                                           \<lparr>sidechain = restoreTop currentSc2, flag = DIRTY_ENTRY\<rparr> c1)))
                      else Inr (False, setSidechainEntry scId (scIt\<lparr>sidechain := currentSc1\<rparr>) c1)))))"

section \<open>Scheduling the ceasing of a sidechain\<close>

text \<open>
  \<^verbatim>\<open>CSidechain::StartHeightForEpoch\<close> and \<^verbatim>\<open>CSidechain::SafeguardMargin\<close> are defined in
  \<^verbatim>\<open>sc/sidechain.cpp\<close>; \<^verbatim>\<open>ScheduleSidechainEvent(cert)\<close> takes them as the parameters
  \<open>startHeightForEpoch\<close> and \<open>safeguardMargin\<close>.
\<close>

definition ScheduleSidechainEvent_cert ::
  "(CSidechain \<Rightarrow> cint \<Rightarrow> cint) \<Rightarrow> (CSidechain \<Rightarrow> cint) \<Rightarrow> CScCertificate \<Rightarrow> CCoinsViewCache \<Rightarrow>
   bool \<times> CCoinsViewCache" where
  "ScheduleSidechainEvent_cert startHeightForEpoch safeguardMargin cert c =
     (case AccessSidechain (certScId cert) c of
        (None, c0) \<Rightarrow> (False, c0)
      | (Some pSidechain, c0) \<Rightarrow>
          (let curCeasingHeight = startHeightForEpoch pSidechain (epochNumber cert + 1) + safeguardMargin pSidechain;
               nextCeasingHeight = curCeasingHeight + withdrawalEpochLength (creationData pSidechain);
               addNext = (\<lambda>c3.
                 case ModifySidechainEvents nextCeasingHeight c3 of
                   (scNextCeasingEventIt, c4) \<Rightarrow>
                     (let ev = (scEvents scNextCeasingEventIt)\<lparr>ceasingScs :=
                                 insort_insert (certScId cert) (ceasingScs (scEvents scNextCeasingEventIt))\<rparr>
                      in if evflag scNextCeasingEventIt = FRESH_ENTRY
                         then (True, setEventsEntry nextCeasingHeight (scNextCeasingEventIt\<lparr>scEvents := ev\<rparr>) c4)
                         else (True, setEventsEntry nextCeasingHeight \<lparr>scEvents = ev, evflag = DIRTY_ENTRY\<rparr> c4)))
           in case HaveSidechainEvents curCeasingHeight c0 of
                (True, c1) \<Rightarrow>
                  (case ModifySidechainEvents curCeasingHeight c1 of
                     (scCurCeasingEventIt, c2) \<Rightarrow>
                       (let ev = (scEvents scCurCeasingEventIt)\<lparr>ceasingScs :=
                                   removeAll (certScId cert) (ceasingScs (scEvents scCurCeasingEventIt))\<rparr>
                        in if \<not> EventsIsNull ev
                           then addNext (setEventsEntry curCeasingHeight \<lparr>scEvents = ev, evflag = DIRTY_ENTRY\<rparr> c2)
                           else addNext (setEventsEntry curCeasingHeight \<lparr>scEvents = ev, evflag = ERASED\<rparr> c2)))
              | (False, c1) \<Rightarrow>
                  (case HaveSidechainEvents nextCeasingHeight c1 of
                     (False, c2) \<Rightarrow> (False, c2)
                   | (True, c2) \<Rightarrow> (True, c2))))"

section \<open>Handling the events of a height\<close>

text \<open>
  The loop of \<^verbatim>\<open>NullifyBackwardTransfers\<close>.  The loop variable is an \<^verbatim>\<open>int\<close> that starts at
  \<^verbatim>\<open>nFirstBwtPos\<close> and is compared with \<^verbatim>\<open>vout.size()\<close> as an unsigned value: a negative
  start runs no iteration, and below the bound the variable is the natural number \<open>pos\<close>.
  \<^verbatim>\<open>vout.size()\<close> is read again in every iteration, after \<^verbatim>\<open>Spend\<close> has trimmed the
  vector.
\<close>

function nullify_loop :: "nat \<Rightarrow> CCoins \<Rightarrow> CTxInUndo list \<Rightarrow> CCoins \<times> CTxInUndo list" where
  "nullify_loop pos cs nullifiedOuts =
     (if pos < length (vout cs) then
        (let pushed = nullifiedOuts @ [CTxInUndo_of (vout cs ! pos)];
             cs1 = snd (Spend pos cs);
             outs1 = (if length (vout cs1) = 0
                      then butlast pushed @ [(last pushed)\<lparr>
                             u_nHeight := nHeight cs1,
                             u_fCoinBase := fCoinBase cs1,
                             u_nVersion := nVersion cs1,
                             u_nFirstBwtPos := nFirstBwtPos cs1,
                             u_nBwtMaturityHeight := nBwtMaturityHeight cs1\<rparr>]
                      else pushed)
         in nullify_loop (pos + 1) cs1 outs1)
      else (cs, nullifiedOuts))"
  by pat_completeness auto
termination
proof (relation "measure (\<lambda>(pos, cs, outs). length (vout cs) - pos)")
  show "wf (measure (\<lambda>(pos, cs, outs). length (vout cs) - pos))" by simp
next
  fix pos :: nat and cs :: CCoins and nullifiedOuts pushed :: "CTxInUndo list"
    and cs1 :: CCoins and outs1 :: "CTxInUndo list"
  assume lt: "pos < length (vout cs)" and cs1: "cs1 = snd (Spend pos cs)"
  have len: "length (pop_null_back vs) \<le> length vs" for vs
  proof (induction vs rule: rev_induct)
    case Nil
    show ?case by (simp add: pop_null_back.simps)
  next
    case (snoc x xs)
    show ?case using snoc
      by (subst pop_null_back.simps) simp
  qed
  have "length (vout cs1) \<le> length (vout cs)"
    using len [of "(vout cs)[pos := SetNull (vout cs ! pos)]"]
    by (simp add: cs1 Spend_def Cleanup_def)
  with lt show "((pos + 1, cs1, outs1), (pos, cs, nullifiedOuts))
      \<in> measure (\<lambda>(pos, cs, outs). length (vout cs) - pos)"
    by simp
qed

declare nullify_loop.simps [simp del]

definition NullifyBackwardTransfers ::
  "uint256 \<Rightarrow> CTxInUndo list \<Rightarrow> CCoinsViewCache \<Rightarrow> error + (CTxInUndo list \<times> CCoinsViewCache)" where
  "NullifyBackwardTransfers cHash nullifiedOuts c =
     (if IsNull256 cHash then Inr (nullifiedOuts, c)
      else
        case HaveCoins cHash c of
          (False, c0) \<Rightarrow> Inr (nullifiedOuts, c0)
        | (True, c0) \<Rightarrow>
            (case ModifyCoins cHash c0 of
               Inl e \<Rightarrow> Inl e
             | Inr (it, c1) \<Rightarrow>
                 if nBwtMaturityHeight (coins it) = 0 then Inl AssertionFailed
                 else
                   (case (if sint (nFirstBwtPos (coins it)) < 0 then (coins it, nullifiedOuts)
                          else nullify_loop (nat (sint (nFirstBwtPos (coins it)))) (coins it) nullifiedOuts) of
                      (cs1, outs1) \<Rightarrow>
                        (case CCoinsModifier_drop cHash (setCoinsEntry cHash (it\<lparr>coins := cs1\<rparr>) c1) of
                           Inl e \<Rightarrow> Inl e
                         | Inr c2 \<Rightarrow> Inr (outs1, c2)))))"

datatype BwtState = BWT_NA | BWT_ON | BWT_OFF

record CScCertificateStatusUpdateInfo =
  info_scId :: uint256
  info_certHash :: uint256
  info_certEpoch :: cint
  info_certQuality :: "64 word"
  info_bwtState :: BwtState

text \<open>The body of the loop over \<^verbatim>\<open>scEvents.maturingScs\<close>.\<close>

definition HandleMaturing ::
  "cint \<Rightarrow> uint256 \<Rightarrow> ScUndoMap \<times> CCoinsViewCache \<Rightarrow> error + (ScUndoMap \<times> CCoinsViewCache)" where
  "HandleMaturing height maturingScId st =
     (case st of
        (blockUndo, c) \<Rightarrow>
          (case HaveSidechain maturingScId c of
             (False, c0) \<Rightarrow> Inl AssertionFailed
           | (True, c0) \<Rightarrow>
               (case ModifySidechain maturingScId c0 of
                  (scMaturingIt, c1) \<Rightarrow>
                    (case mImmatureAmounts (sidechain scMaturingIt) height of
                       None \<Rightarrow> Inl AssertionFailed
                     | Some amount \<Rightarrow>
                         (let sc1 = (sidechain scMaturingIt)\<lparr>balance := balance (sidechain scMaturingIt) + amount\<rparr>;
                              blockUndo1 = blockUndo(maturingScId \<mapsto>
                                (undoAt blockUndo maturingScId)\<lparr>appliedMaturedAmount := amount\<rparr>);
                              blockUndo2 = blockUndo1(maturingScId \<mapsto>
                                (undoAt blockUndo1 maturingScId)\<lparr>contentBitMask :=
                                   insert MATURED_AMOUNTS (contentBitMask (undoAt blockUndo1 maturingScId))\<rparr>);
                              sc2 = sc1\<lparr>mImmatureAmounts := (mImmatureAmounts sc1)(height := None)\<rparr>
                          in Inr (blockUndo2,
                                  setSidechainEntry maturingScId \<lparr>sidechain = sc2, flag = DIRTY_ENTRY\<rparr> c1))))))"

text \<open>
  The body of the loop over \<^verbatim>\<open>scEvents.ceasingScs\<close>; \<open>pCertsStateInfo\<close> is \<open>None\<close> for a
  null pointer.
\<close>

definition HandleCeasing ::
  "uint256 \<Rightarrow> ScUndoMap \<times> CScCertificateStatusUpdateInfo list option \<times> CCoinsViewCache \<Rightarrow>
   error + (ScUndoMap \<times> CScCertificateStatusUpdateInfo list option \<times> CCoinsViewCache)" where
  "HandleCeasing ceasingScId st =
     (case st of
        (blockUndo, pCertsStateInfo, c) \<Rightarrow>
          (case GetSidechain ceasingScId c of
             (None, c0) \<Rightarrow> Inl AssertionFailed
           | (Some sc, c0) \<Rightarrow>
               (case ModifySidechain ceasingScId c0 of
                  (scIt, c1) \<Rightarrow>
                    (let c2 = setSidechainEntry ceasingScId
                                \<lparr>sidechain = (sidechain scIt)\<lparr>currentState := CEASED\<rparr>, flag = DIRTY_ENTRY\<rparr> c1;
                         blockUndo1 = blockUndo(ceasingScId \<mapsto>
                           (undoAt blockUndo ceasingScId)\<lparr>contentBitMask :=
                              insert CEASED_CERT_DATA (contentBitMask (undoAt blockUndo ceasingScId))\<rparr>)
                     in if lastTopQualityCertReferencedEpoch sc = EPOCH_NULL then
                          (if \<not> IsNull256 (lastTopQualityCertHash sc) then Inl AssertionFailed
                           else Inr (blockUndo1, pCertsStateInfo, c2))
                        else
                          (case NullifyBackwardTransfers (lastTopQualityCertHash sc)
                                  (ceasedBwts (undoAt blockUndo1 ceasingScId)) c2 of
                             Inl e \<Rightarrow> Inl e
                           | Inr (outs, c3) \<Rightarrow>
                               Inr (blockUndo1(ceasingScId \<mapsto> (undoAt blockUndo1 ceasingScId)\<lparr>ceasedBwts := outs\<rparr>),
                                    map_option (\<lambda>infos. infos @
                                      [\<lparr>info_scId = ceasingScId, info_certHash = lastTopQualityCertHash sc,
                                        info_certEpoch = lastTopQualityCertReferencedEpoch sc,
                                        info_certQuality = lastTopQualityCertQuality sc,
                                        info_bwtState = BWT_OFF\<rparr>]) pCertsStateInfo,
                                    c3))))))"

definition HandleSidechainEvents ::
  "cint \<Rightarrow> ScUndoMap \<Rightarrow> CScCertificateStatusUpdateInfo list option \<Rightarrow> CCoinsViewCache \<Rightarrow>
   error + (bool \<times> ScUndoMap \<times> CScCertificateStatusUpdateInfo list option \<times> CCoinsViewCache)" where
  "HandleSidechainEvents height blockUndo pCertsStateInfo c =
     (case HaveSidechainEvents height c of
        (False, c0) \<Rightarrow> Inr (True, blockUndo, pCertsStateInfo, c0)
      | (True, c0) \<Rightarrow>
          (case GetSidechainEvents height c0 of
             (got, c1) \<Rightarrow>
               (let scEvents0 = (case got of Some ev \<Rightarrow> ev | None \<Rightarrow> CSidechainEvents_init) in
                case foldE (HandleMaturing height) (maturingScs scEvents0) (blockUndo, c1) of
                  Inl e \<Rightarrow> Inl e
                | Inr (blockUndo1, c2) \<Rightarrow>
                    (case foldE HandleCeasing (ceasingScs scEvents0) (blockUndo1, pCertsStateInfo, c2) of
                       Inl e \<Rightarrow> Inl e
                     | Inr (blockUndo2, pCertsStateInfo2, c3) \<Rightarrow>
                         (case ModifySidechainEvents height c3 of
                            (scCeasingIt, c4) \<Rightarrow>
                              Inr (True, blockUndo2, pCertsStateInfo2,
                                   setEventsEntry height (scCeasingIt\<lparr>evflag := ERASED\<rparr>) c4))))))"

section \<open>The block-undo format\<close>

text \<open>
  The serialization of \<^verbatim>\<open>undo.h\<close>.  The stream is a list of bytes: a writer returns the
  bytes it appends, a reader returns the value read with the rest of the stream, or \<open>None\<close>
  where the C++ reader throws.  \<^verbatim>\<open>undo.h\<close> builds on the primitive encodings of
  \<^verbatim>\<open>serialize.h\<close> and \<^verbatim>\<open>compressor.h\<close> and on the constant \<^verbatim>\<open>SC_CERT_VERSION\<close> of
  \<^verbatim>\<open>primitives/certificate.h\<close>, which are not among the sources: they are the fields of the
  parameter \<open>cd\<close>.  \<^verbatim>\<open>VARINT\<close> is used at \<^verbatim>\<open>unsigned int\<close> and at \<^verbatim>\<open>int\<close>; \<^verbatim>\<open>::Serialize\<close> at
  \<^verbatim>\<open>int\<close>, \<^verbatim>\<open>uint32_t\<close>, \<^verbatim>\<open>uint8_t\<close>, \<^verbatim>\<open>int64_t\<close> (also \<^verbatim>\<open>CAmount\<close>), \<^verbatim>\<open>uint256\<close> and
  \<^verbatim>\<open>ScFieldElement\<close>.
\<close>

record 'a Enc =
  ser :: "'a \<Rightarrow> bytes"
  unser :: "bytes \<Rightarrow> ('a \<times> bytes) option"

record Codec =
  WriteCompactSize :: "nat \<Rightarrow> bytes"
  ReadCompactSize :: "bytes \<Rightarrow> (nat \<times> bytes) option"
  VARINT_uint :: "32 word Enc"
  VARINT_int :: "cint Enc"
  CTxOutCompressor :: "CTxOut Enc"
  Ser_int :: "cint Enc"
  Ser_uint32 :: "32 word Enc"
  Ser_uint8 :: "8 word Enc"
  Ser_int64 :: "64 word Enc"
  Ser_uint256 :: "uint256 Enc"
  Ser_ScFieldElement :: "bytes Enc"
  SC_CERT_VERSION :: cint

subsection \<open>The undo of an input\<close>

text \<open>
  The default constructor \<^verbatim>\<open>CTxInUndo()\<close>: a null output and default metadata.
\<close>

definition CTxInUndo_init :: CTxInUndo where
  "CTxInUndo_init = CTxInUndo_of \<lparr>nValue = - 1, scriptPubKey = []\<rparr>"

text \<open>
  \<^verbatim>\<open>CTxInUndo::Serialize\<close>.  The code \<^verbatim>\<open>nHeight*2+(fCoinBase ? 1 : 0)\<close> is computed in
  \<^verbatim>\<open>unsigned int\<close>.  The version is written only when the height is positive, and the two
  backward-transfer fields only when, moreover, the version has the low seven bits of
  \<^verbatim>\<open>SC_CERT_VERSION\<close>.
\<close>

definition CTxInUndo_Serialize :: "Codec \<Rightarrow> CTxInUndo \<Rightarrow> bytes" where
  "CTxInUndo_Serialize cd u =
     ser (VARINT_uint cd) (u_nHeight u * 2 + (if u_fCoinBase u then 1 else 0))
     @ (if 0 < u_nHeight u then ser (VARINT_int cd) (u_nVersion u) else [])
     @ ser (CTxOutCompressor cd) (txout u)
     @ (if 0 < u_nHeight u \<and> u_nVersion u AND 0x7f = SC_CERT_VERSION cd AND 0x7f
        then ser (Ser_int cd) (u_nFirstBwtPos u) @ ser (Ser_int cd) (u_nBwtMaturityHeight u)
        else [])"

text \<open>
  \<^verbatim>\<open>CTxInUndo::Unserialize\<close> reads into an existing object \<open>u\<close>: a field that is not read
  keeps the value it has in \<open>u\<close>.
\<close>

definition CTxInUndo_Unserialize :: "Codec \<Rightarrow> bytes \<Rightarrow> CTxInUndo \<Rightarrow> (CTxInUndo \<times> bytes) option" where
  "CTxInUndo_Unserialize cd s u =
     Option.bind (unser (VARINT_uint cd) s) (\<lambda>(nCode, s1).
       let u1 = u\<lparr>u_nHeight := nCode div 2, u_fCoinBase := (nCode AND 1 \<noteq> 0)\<rparr> in
       Option.bind (if 0 < u_nHeight u1
                    then map_option (\<lambda>(v, s2). (u1\<lparr>u_nVersion := v\<rparr>, s2)) (unser (VARINT_int cd) s1)
                    else Some (u1, s1)) (\<lambda>(u2, s2).
       Option.bind (unser (CTxOutCompressor cd) s2) (\<lambda>(t, s3).
         let u3 = u2\<lparr>txout := t\<rparr> in
         if 0 < u_nHeight u3 \<and> u_nVersion u3 AND 0x7f = SC_CERT_VERSION cd AND 0x7f
         then Option.bind (unser (Ser_int cd) s3) (\<lambda>(p, s4).
              Option.bind (unser (Ser_int cd) s4) (\<lambda>(h, s5).
                Some (u3\<lparr>u_nFirstBwtPos := p, u_nBwtMaturityHeight := h\<rparr>, s5)))
         else Some (u3, s3))))"

subsection \<open>Vectors and maps\<close>

text \<open>
  Modelled from the spec: the container functions of \<^verbatim>\<open>serialize.h\<close> are missing.  A vector
  is written as the compact size of its length followed by its elements (``any other
  compact size is the count of legacy \<^verbatim>\<open>TxUndo\<close> entries''); \<^verbatim>\<open>AddEntriesInVector\<close> reads
  the given number of elements, each into a default-constructed element (which the
  element reader \<open>rd\<close> starts from), and appends them.  A \<^verbatim>\<open>std::map\<close> is written as the
  compact size of its number of entries followed by the entries, key then value, in the
  order of the keys; reading starts from the empty map and inserts the entries one by
  one, where an insertion at a key already present changes nothing.
\<close>

definition SerializeVector :: "Codec \<Rightarrow> ('a \<Rightarrow> bytes) \<Rightarrow> 'a list \<Rightarrow> bytes" where
  "SerializeVector cd wr v = WriteCompactSize cd (length v) @ concat (map wr v)"

fun AddEntriesInVector ::
  "(bytes \<Rightarrow> ('a \<times> bytes) option) \<Rightarrow> nat \<Rightarrow> 'a list \<Rightarrow> bytes \<Rightarrow> ('a list \<times> bytes) option" where
  "AddEntriesInVector rd 0 v s = Some (v, s)"
| "AddEntriesInVector rd (Suc n) v s =
     (case rd s of
        None \<Rightarrow> None
      | Some (x, s') \<Rightarrow> AddEntriesInVector rd n (v @ [x]) s')"

definition UnserializeVector ::
  "Codec \<Rightarrow> (bytes \<Rightarrow> ('a \<times> bytes) option) \<Rightarrow> bytes \<Rightarrow> ('a list \<times> bytes) option" where
  "UnserializeVector cd rd s =
     (case ReadCompactSize cd s of
        None \<Rightarrow> None
      | Some (n, s') \<Rightarrow> AddEntriesInVector rd n [] s')"

definition map_entries :: "('k::linorder, 'v) fmap \<Rightarrow> ('k \<times> 'v) list" where
  "map_entries m = map (\<lambda>k. (k, the (fmlookup m k))) (sorted_list_of_fset (fmdom m))"

definition SerializeMap ::
  "Codec \<Rightarrow> ('k::linorder \<Rightarrow> bytes) \<Rightarrow> ('v \<Rightarrow> bytes) \<Rightarrow> ('k, 'v) fmap \<Rightarrow> bytes" where
  "SerializeMap cd wrK wrV m =
     WriteCompactSize cd (length (map_entries m))
     @ concat (map (\<lambda>(k, v). wrK k @ wrV v) (map_entries m))"

fun AddEntriesInMap ::
  "(bytes \<Rightarrow> ('k \<times> bytes) option) \<Rightarrow> (bytes \<Rightarrow> ('v \<times> bytes) option) \<Rightarrow> nat \<Rightarrow> ('k, 'v) fmap \<Rightarrow> bytes
     \<Rightarrow> (('k, 'v) fmap \<times> bytes) option" where
  "AddEntriesInMap rdK rdV 0 m s = Some (m, s)"
| "AddEntriesInMap rdK rdV (Suc n) m s =
     (case rdK s of
        None \<Rightarrow> None
      | Some (k, s1) \<Rightarrow>
          (case rdV s1 of
             None \<Rightarrow> None
           | Some (v, s2) \<Rightarrow>
               AddEntriesInMap rdK rdV n (if k |\<in>| fmdom m then m else fmupd k v m) s2))"

definition UnserializeMap ::
  "Codec \<Rightarrow> (bytes \<Rightarrow> ('k \<times> bytes) option) \<Rightarrow> (bytes \<Rightarrow> ('v \<times> bytes) option) \<Rightarrow> bytes
     \<Rightarrow> (('k, 'v) fmap \<times> bytes) option" where
  "UnserializeMap cd rdK rdV s =
     (case ReadCompactSize cd s of
        None \<Rightarrow> None
      | Some (n, s') \<Rightarrow> AddEntriesInMap rdK rdV n fmempty s')"

subsection \<open>The undo of a transaction\<close>

record CTxUndo =
  vprevout :: "CTxInUndo list"

definition CTxUndo_init :: CTxUndo where
  "CTxUndo_init = \<lparr>vprevout = []\<rparr>"

definition CTxUndo_Serialize :: "Codec \<Rightarrow> CTxUndo \<Rightarrow> bytes" where
  "CTxUndo_Serialize cd t = SerializeVector cd (CTxInUndo_Serialize cd) (vprevout t)"

definition CTxUndo_Unserialize :: "Codec \<Rightarrow> bytes \<Rightarrow> CTxUndo \<Rightarrow> (CTxUndo \<times> bytes) option" where
  "CTxUndo_Unserialize cd s t =
     (case UnserializeVector cd (\<lambda>s'. CTxInUndo_Unserialize cd s' CTxInUndo_init) s of
        None \<Rightarrow> None
      | Some (v, s') \<Rightarrow> Some (t\<lparr>vprevout := v\<rparr>, s'))"

subsection \<open>The undo of a sidechain, as serialized\<close>

text \<open>
  The \<^verbatim>\<open>CSidechainUndoData\<close> that \<^verbatim>\<open>undo.h\<close> declares and serializes; its sections and fields
  are those of \<^verbatim>\<open>undo.h\<close>, which differ from the ones \<^verbatim>\<open>coins.cpp\<close> uses (above).  The names
  carry the prefix \<open>h_\<close> to keep the two apart.  An \<^verbatim>\<open>ScFieldElement\<close> is a sequence of bytes.
\<close>

definition h_UNDEFINED :: "8 word" where
  "h_UNDEFINED = 0"

definition h_SIDECHAIN_STATE :: "8 word" where
  "h_SIDECHAIN_STATE = 1"

definition h_MATURED_AMOUNTS :: "8 word" where
  "h_MATURED_AMOUNTS = 2"

definition h_SUPERSEDED_CERT_DATA :: "8 word" where
  "h_SUPERSEDED_CERT_DATA = 4"

definition h_CEASED_CERTIFICATE_DATA :: "8 word" where
  "h_CEASED_CERTIFICATE_DATA = 8"

record CSidechainUndoData_h =
  h_sidechainUndoDataVersion :: "32 word"
  h_contentBitMask :: "8 word"
  h_prevTopCommittedCertReferencedEpoch :: cint
  h_prevTopCommittedCertHash :: uint256
  h_prevTopCommittedCertQuality :: "64 word"
  h_prevTopCommittedCertBwtAmount :: CAmount
  h_prevTopCommittedCertDataHash :: bytes
  h_appliedMaturedAmount :: CAmount
  h_lowQualityBwts :: "CTxInUndo list"
  h_ceasedBwts :: "CTxInUndo list"

definition CSidechainUndoData_h_init :: CSidechainUndoData_h where
  "CSidechainUndoData_h_init = \<lparr>h_sidechainUndoDataVersion = 0, h_contentBitMask = h_UNDEFINED,
     h_prevTopCommittedCertReferencedEpoch = EPOCH_NULL, h_prevTopCommittedCertHash = 0,
     h_prevTopCommittedCertQuality = QUALITY_NULL, h_prevTopCommittedCertBwtAmount = 0,
     h_prevTopCommittedCertDataHash = [], h_appliedMaturedAmount = 0,
     h_lowQualityBwts = [], h_ceasedBwts = []\<rparr>"

definition CSidechainUndoData_Serialize :: "Codec \<Rightarrow> CSidechainUndoData_h \<Rightarrow> bytes" where
  "CSidechainUndoData_Serialize cd u =
     ser (Ser_uint32 cd) (h_sidechainUndoDataVersion u)
     @ ser (Ser_uint8 cd) (h_contentBitMask u)
     @ (if h_contentBitMask u AND h_SIDECHAIN_STATE \<noteq> 0
        then ser (Ser_int cd) (h_prevTopCommittedCertReferencedEpoch u)
             @ ser (Ser_uint256 cd) (h_prevTopCommittedCertHash u)
             @ ser (Ser_int64 cd) (h_prevTopCommittedCertQuality u)
             @ ser (Ser_int64 cd) (h_prevTopCommittedCertBwtAmount u)
             @ ser (Ser_ScFieldElement cd) (h_prevTopCommittedCertDataHash u)
        else [])
     @ (if h_contentBitMask u AND h_MATURED_AMOUNTS \<noteq> 0
        then ser (Ser_int64 cd) (h_appliedMaturedAmount u)
        else [])
     @ (if h_contentBitMask u AND h_SUPERSEDED_CERT_DATA \<noteq> 0
        then SerializeVector cd (CTxInUndo_Serialize cd) (h_lowQualityBwts u)
        else [])
     @ (if h_contentBitMask u AND h_CEASED_CERTIFICATE_DATA \<noteq> 0
        then SerializeVector cd (CTxInUndo_Serialize cd) (h_ceasedBwts u)
        else [])"

text \<open>
  \<^verbatim>\<open>CSidechainUndoData::Unserialize\<close>, one function for each of its four sections: each
  reads its section into the object when the bit of the section is set in the mask just
  read, and leaves the object as it is otherwise.
\<close>

definition Unserialize_SIDECHAIN_STATE ::
  "Codec \<Rightarrow> bytes \<Rightarrow> CSidechainUndoData_h \<Rightarrow> (CSidechainUndoData_h \<times> bytes) option" where
  "Unserialize_SIDECHAIN_STATE cd s u =
     (if h_contentBitMask u AND h_SIDECHAIN_STATE \<noteq> 0
      then Option.bind (unser (Ser_int cd) s) (\<lambda>(e, s1).
           Option.bind (unser (Ser_uint256 cd) s1) (\<lambda>(h, s2).
           Option.bind (unser (Ser_int64 cd) s2) (\<lambda>(q, s3).
           Option.bind (unser (Ser_int64 cd) s3) (\<lambda>(a, s4).
           Option.bind (unser (Ser_ScFieldElement cd) s4) (\<lambda>(d, s5).
             Some (u\<lparr>h_prevTopCommittedCertReferencedEpoch := e, h_prevTopCommittedCertHash := h,
                      h_prevTopCommittedCertQuality := q, h_prevTopCommittedCertBwtAmount := a,
                      h_prevTopCommittedCertDataHash := d\<rparr>, s5))))))
      else Some (u, s))"

definition Unserialize_MATURED_AMOUNTS ::
  "Codec \<Rightarrow> bytes \<Rightarrow> CSidechainUndoData_h \<Rightarrow> (CSidechainUndoData_h \<times> bytes) option" where
  "Unserialize_MATURED_AMOUNTS cd s u =
     (if h_contentBitMask u AND h_MATURED_AMOUNTS \<noteq> 0
      then Option.bind (unser (Ser_int64 cd) s) (\<lambda>(a, s1). Some (u\<lparr>h_appliedMaturedAmount := a\<rparr>, s1))
      else Some (u, s))"

definition Unserialize_SUPERSEDED_CERT_DATA ::
  "Codec \<Rightarrow> bytes \<Rightarrow> CSidechainUndoData_h \<Rightarrow> (CSidechainUndoData_h \<times> bytes) option" where
  "Unserialize_SUPERSEDED_CERT_DATA cd s u =
     (if h_contentBitMask u AND h_SUPERSEDED_CERT_DATA \<noteq> 0
      then Option.bind (UnserializeVector cd (\<lambda>s'. CTxInUndo_Unserialize cd s' CTxInUndo_init) s)
             (\<lambda>(v, s1). Some (u\<lparr>h_lowQualityBwts := v\<rparr>, s1))
      else Some (u, s))"

definition Unserialize_CEASED_CERTIFICATE_DATA ::
  "Codec \<Rightarrow> bytes \<Rightarrow> CSidechainUndoData_h \<Rightarrow> (CSidechainUndoData_h \<times> bytes) option" where
  "Unserialize_CEASED_CERTIFICATE_DATA cd s u =
     (if h_contentBitMask u AND h_CEASED_CERTIFICATE_DATA \<noteq> 0
      then Option.bind (UnserializeVector cd (\<lambda>s'. CTxInUndo_Unserialize cd s' CTxInUndo_init) s)
             (\<lambda>(v, s1). Some (u\<lparr>h_ceasedBwts := v\<rparr>, s1))
      else Some (u, s))"

definition CSidechainUndoData_Unserialize ::
  "Codec \<Rightarrow> bytes \<Rightarrow> CSidechainUndoData_h \<Rightarrow> (CSidechainUndoData_h \<times> bytes) option" where
  "CSidechainUndoData_Unserialize cd s u =
     Option.bind (unser (Ser_uint32 cd) s) (\<lambda>(ver, s1).
     Option.bind (unser (Ser_uint8 cd) s1) (\<lambda>(mask, s2).
     Option.bind (Unserialize_SIDECHAIN_STATE cd s2
                    (u\<lparr>h_sidechainUndoDataVersion := ver, h_contentBitMask := mask\<rparr>)) (\<lambda>(u3, s3).
     Option.bind (Unserialize_MATURED_AMOUNTS cd s3 u3) (\<lambda>(u4, s4).
     Option.bind (Unserialize_SUPERSEDED_CERT_DATA cd s4 u4) (\<lambda>(u5, s5).
       Unserialize_CEASED_CERTIFICATE_DATA cd s5 u5)))))"

subsection \<open>The undo of a block\<close>

text \<open>
  \<^verbatim>\<open>CBlockUndo\<close> of \<^verbatim>\<open>undo.h\<close>; a new one includes the sidechain attributes.
\<close>

record CBlockUndo =
  includesSidechainAttributes :: bool
  vtxundo :: "CTxUndo list"
  old_tree_root :: uint256
  scUndoDatabyScId :: "(uint256, CSidechainUndoData_h) fmap"

definition CBlockUndo_init :: CBlockUndo where
  "CBlockUndo_init = \<lparr>includesSidechainAttributes = True, vtxundo = [], old_tree_root = 0,
     scUndoDatabyScId = fmempty\<rparr>"

definition marker :: "16 word" where
  "marker = 0xffff"

text \<open>
  \<^verbatim>\<open>MAX_BLOCK_SIZE\<close> and \<^verbatim>\<open>MIN_TX_SIZE\<close> are declared outside the sources; their values are
  those of the comment on \<^verbatim>\<open>_marker\<close> (\<^verbatim>\<open>2M / 61bytes =~ 33K = 0x8012\<close>).
\<close>

definition MAX_BLOCK_SIZE :: nat where
  "MAX_BLOCK_SIZE = 2000000"

definition MIN_TX_SIZE :: nat where
  "MIN_TX_SIZE = 61"

definition Serialize :: "Codec \<Rightarrow> CBlockUndo \<Rightarrow> bytes" where
  "Serialize cd b =
     (if includesSidechainAttributes b
      then WriteCompactSize cd (unat marker)
             @ SerializeVector cd (CTxUndo_Serialize cd) (vtxundo b)
             @ ser (Ser_uint256 cd) (old_tree_root b)
             @ SerializeMap cd (ser (Ser_uint256 cd)) (CSidechainUndoData_Serialize cd)
                 (scUndoDatabyScId b)
      else SerializeVector cd (CTxUndo_Serialize cd) (vtxundo b)
             @ ser (Ser_uint256 cd) (old_tree_root b))"

text \<open>
  \<^verbatim>\<open>CBlockUndo::Unserialize\<close> reads into an existing object \<open>b\<close>, whose fields keep their
  value where nothing is read into them.  \<^verbatim>\<open>unsigned int nSize = ReadCompactSize(s)\<close> keeps
  the low 32 bits of the size.
\<close>

definition Unserialize :: "Codec \<Rightarrow> bytes \<Rightarrow> CBlockUndo \<Rightarrow> (CBlockUndo \<times> bytes) option" where
  "Unserialize cd s b =
     (let b0 = b\<lparr>vtxundo := [], includesSidechainAttributes := False\<rparr> in
      case ReadCompactSize cd s of
        None \<Rightarrow> None
      | Some (n, s0) \<Rightarrow>
          (let nSize = n mod 2 ^ 32 in
           if nSize = unat marker then
             (case UnserializeVector cd (\<lambda>s'. CTxUndo_Unserialize cd s' CTxUndo_init) s0 of
                None \<Rightarrow> None
              | Some (v, s1) \<Rightarrow>
                  (case unser (Ser_uint256 cd) s1 of
                     None \<Rightarrow> None
                   | Some (r, s2) \<Rightarrow>
                       (case UnserializeMap cd (unser (Ser_uint256 cd))
                               (\<lambda>s'. CSidechainUndoData_Unserialize cd s' CSidechainUndoData_h_init) s2 of
                          None \<Rightarrow> None
                        | Some (m, s3) \<Rightarrow>
                            Some (b0\<lparr>vtxundo := v, old_tree_root := r, scUndoDatabyScId := m,
                                    includesSidechainAttributes := True\<rparr>, s3))))
           else
             (case AddEntriesInVector (\<lambda>s'. CTxUndo_Unserialize cd s' CTxUndo_init) nSize
                     (vtxundo b0) s0 of
                None \<Rightarrow> None
              | Some (v, s1) \<Rightarrow>
                  (case unser (Ser_uint256 cd) s1 of
                     None \<Rightarrow> None
                   | Some (r, s2) \<Rightarrow> Some (b0\<lparr>vtxundo := v, old_tree_root := r\<rparr>, s2)))))"

subsection \<open>What the round trip needs\<close>

text \<open>
  What reading back needs.  A primitive encoding reads back a value when its reader,
  applied to what its writer wrote for the value followed by any stream, returns the
  value and that stream.
\<close>

definition readsBack :: "'a Enc \<Rightarrow> 'a \<Rightarrow> bool" where
  "readsBack e x \<longleftrightarrow> (\<forall>s. unser e (ser e x @ s) = Some (x, s))"

definition sizeReadsBack :: "Codec \<Rightarrow> nat \<Rightarrow> bool" where
  "sizeReadsBack cd n \<longleftrightarrow> (\<forall>s. ReadCompactSize cd (WriteCompactSize cd n @ s) = Some (n, s))"

text \<open>
  An input undo is recoverable when its height is below \<open>2^31\<close> (so that the code
  \<^verbatim>\<open>nHeight*2+fCoinBase\<close> does not wrap), each field that \<^verbatim>\<open>CTxInUndo::Serialize\<close> writes is
  read back by its primitive encoding, and each field that it leaves out holds the value of
  the default constructor.
\<close>

definition CTxInUndo_recoverable :: "Codec \<Rightarrow> CTxInUndo \<Rightarrow> bool" where
  "CTxInUndo_recoverable cd u \<longleftrightarrow>
     unat (u_nHeight u) < 2 ^ 31 \<and>
     readsBack (VARINT_uint cd) (u_nHeight u * 2 + (if u_fCoinBase u then 1 else 0)) \<and>
     (if 0 < u_nHeight u then readsBack (VARINT_int cd) (u_nVersion u) else u_nVersion u = 0) \<and>
     readsBack (CTxOutCompressor cd) (txout u) \<and>
     (if 0 < u_nHeight u \<and> u_nVersion u AND 0x7f = SC_CERT_VERSION cd AND 0x7f
      then readsBack (Ser_int cd) (u_nFirstBwtPos u) \<and> readsBack (Ser_int cd) (u_nBwtMaturityHeight u)
      else u_nFirstBwtPos u = BWT_POS_UNSET \<and> u_nBwtMaturityHeight u = 0)"

definition vector_recoverable :: "Codec \<Rightarrow> ('a \<Rightarrow> bool) \<Rightarrow> 'a list \<Rightarrow> bool" where
  "vector_recoverable cd P v \<longleftrightarrow> sizeReadsBack cd (length v) \<and> list_all P v"

definition CTxUndo_recoverable :: "Codec \<Rightarrow> CTxUndo \<Rightarrow> bool" where
  "CTxUndo_recoverable cd t \<longleftrightarrow> vector_recoverable cd (CTxInUndo_recoverable cd) (vprevout t)"

text \<open>
  A sidechain undo record is recoverable when its version, its mask and the fields of the
  sections that the mask flags are read back, and the fields of the other sections hold
  the values of the default constructor.
\<close>

definition CSidechainUndoData_recoverable :: "Codec \<Rightarrow> CSidechainUndoData_h \<Rightarrow> bool" where
  "CSidechainUndoData_recoverable cd u \<longleftrightarrow>
     readsBack (Ser_uint32 cd) (h_sidechainUndoDataVersion u) \<and>
     readsBack (Ser_uint8 cd) (h_contentBitMask u) \<and>
     (if h_contentBitMask u AND h_SIDECHAIN_STATE \<noteq> 0
      then readsBack (Ser_int cd) (h_prevTopCommittedCertReferencedEpoch u) \<and>
           readsBack (Ser_uint256 cd) (h_prevTopCommittedCertHash u) \<and>
           readsBack (Ser_int64 cd) (h_prevTopCommittedCertQuality u) \<and>
           readsBack (Ser_int64 cd) (h_prevTopCommittedCertBwtAmount u) \<and>
           readsBack (Ser_ScFieldElement cd) (h_prevTopCommittedCertDataHash u)
      else h_prevTopCommittedCertReferencedEpoch u = EPOCH_NULL \<and>
           h_prevTopCommittedCertHash u = 0 \<and>
           h_prevTopCommittedCertQuality u = QUALITY_NULL \<and>
           h_prevTopCommittedCertBwtAmount u = 0 \<and>
           h_prevTopCommittedCertDataHash u = []) \<and>
     (if h_contentBitMask u AND h_MATURED_AMOUNTS \<noteq> 0
      then readsBack (Ser_int64 cd) (h_appliedMaturedAmount u)
      else h_appliedMaturedAmount u = 0) \<and>
     (if h_contentBitMask u AND h_SUPERSEDED_CERT_DATA \<noteq> 0
      then vector_recoverable cd (CTxInUndo_recoverable cd) (h_lowQualityBwts u)
      else h_lowQualityBwts u = []) \<and>
     (if h_contentBitMask u AND h_CEASED_CERTIFICATE_DATA \<noteq> 0
      then vector_recoverable cd (CTxInUndo_recoverable cd) (h_ceasedBwts u)
      else h_ceasedBwts u = [])"

text \<open>
  A block undo is recoverable when its transaction undos and its tree root are and, in
  the new format, so are the marker and the map of sidechain undo records, which the
  legacy format does not write.
\<close>

definition CBlockUndo_recoverable :: "Codec \<Rightarrow> CBlockUndo \<Rightarrow> bool" where
  "CBlockUndo_recoverable cd b \<longleftrightarrow>
     vector_recoverable cd (CTxUndo_recoverable cd) (vtxundo b) \<and>
     readsBack (Ser_uint256 cd) (old_tree_root b) \<and>
     (if includesSidechainAttributes b
      then sizeReadsBack cd (unat marker) \<and>
           sizeReadsBack cd (length (map_entries (scUndoDatabyScId b))) \<and>
           list_all (\<lambda>(k, v). readsBack (Ser_uint256 cd) k \<and> CSidechainUndoData_recoverable cd v)
             (map_entries (scUndoDatabyScId b))
      else True)"

text \<open>
  The part of these conditions that does not depend on the primitive encodings: the
  height is below \<open>2^31\<close> and the fields that the encoding leaves out hold their defaults.
\<close>

definition CTxInUndo_canonical :: "Codec \<Rightarrow> CTxInUndo \<Rightarrow> bool" where
  "CTxInUndo_canonical cd u \<longleftrightarrow>
     unat (u_nHeight u) < 2 ^ 31 \<and>
     (if 0 < u_nHeight u then True else u_nVersion u = 0) \<and>
     (if 0 < u_nHeight u \<and> u_nVersion u AND 0x7f = SC_CERT_VERSION cd AND 0x7f then True
      else u_nFirstBwtPos u = BWT_POS_UNSET \<and> u_nBwtMaturityHeight u = 0)"

definition CSidechainUndoData_canonical :: "Codec \<Rightarrow> CSidechainUndoData_h \<Rightarrow> bool" where
  "CSidechainUndoData_canonical cd u \<longleftrightarrow>
     (if h_contentBitMask u AND h_SIDECHAIN_STATE \<noteq> 0 then True
      else h_prevTopCommittedCertReferencedEpoch u = EPOCH_NULL \<and>
           h_prevTopCommittedCertHash u = 0 \<and>
           h_prevTopCommittedCertQuality u = QUALITY_NULL \<and>
           h_prevTopCommittedCertBwtAmount u = 0 \<and>
           h_prevTopCommittedCertDataHash u = []) \<and>
     (if h_contentBitMask u AND h_MATURED_AMOUNTS \<noteq> 0 then True
      else h_appliedMaturedAmount u = 0) \<and>
     (if h_contentBitMask u AND h_SUPERSEDED_CERT_DATA \<noteq> 0
      then list_all (CTxInUndo_canonical cd) (h_lowQualityBwts u)
      else h_lowQualityBwts u = []) \<and>
     (if h_contentBitMask u AND h_CEASED_CERTIFICATE_DATA \<noteq> 0
      then list_all (CTxInUndo_canonical cd) (h_ceasedBwts u)
      else h_ceasedBwts u = [])"

definition CBlockUndo_canonical :: "Codec \<Rightarrow> CBlockUndo \<Rightarrow> bool" where
  "CBlockUndo_canonical cd b \<longleftrightarrow>
     list_all (\<lambda>t. list_all (CTxInUndo_canonical cd) (vprevout t)) (vtxundo b) \<and>
     list_all (\<lambda>(k, v). CSidechainUndoData_canonical cd v) (map_entries (scUndoDatabyScId b))"

section \<open>Example states\<close>

text \<open>
  The base class \<^verbatim>\<open>CCoinsView\<close>, whose lookups all return \<^verbatim>\<open>false\<close>, and a cache as its
  constructor leaves it.
\<close>

definition CCoinsView_init :: CCoinsView where
  "CCoinsView_init = \<lparr>baseGetCoins = Map.empty, baseGetAnchorAt = Map.empty,
     baseGetNullifier = (\<lambda>n. False), baseGetSidechain = Map.empty,
     baseGetSidechainEvents = Map.empty, baseGetScIds = {}, baseGetBestBlock = 0,
     baseGetBestAnchor = 0\<rparr>"

definition CCoinsViewCache_init :: "CCoinsView \<Rightarrow> CCoinsViewCache" where
  "CCoinsViewCache_init baseIn = \<lparr>base = baseIn, hasModifier = False, hashBlock = 0,
     hashAnchor = 0, cacheCoins = Map.empty, cacheAnchors = Map.empty,
     cacheNullifiers = Map.empty, cacheSidechains = Map.empty,
     cacheSidechainEvents = Map.empty\<rparr>"

text \<open>
  A base that reports sidechain 1 and an event at height 5, under a cache that has erased
  both.
\<close>

definition exErasedCache :: CCoinsViewCache where
  "exErasedCache = (CCoinsViewCache_init
      (CCoinsView_init\<lparr>baseGetSidechain := [1 \<mapsto> CSidechain_init],
         baseGetSidechainEvents := [5 \<mapsto> \<lparr>maturingScs = [1], ceasingScs = []\<rparr>],
         baseGetScIds := {1}\<rparr>))
     \<lparr>cacheSidechains := [1 \<mapsto> \<lparr>sidechain = CSidechain_init, flag = ERASED\<rparr>],
       cacheSidechainEvents := [5 \<mapsto> \<lparr>scEvents = \<lparr>maturingScs = [1], ceasingScs = []\<rparr>, evflag = ERASED\<rparr>]\<rparr>"

text \<open>A coin entry with one unspent output of value 50, and a cache that holds it \<^verbatim>\<open>FRESH\<close>.\<close>

definition exCoins :: CCoins where
  "exCoins = CCoins_init\<lparr>vout := [\<lparr>nValue = 50, scriptPubKey = [1]\<rparr>], nHeight := 10\<rparr>"

definition exFreshCache :: CCoinsViewCache where
  "exFreshCache = (CCoinsViewCache_init CCoinsView_init)
     \<lparr>cacheCoins := [7 \<mapsto> \<lparr>coins = exCoins, flags = FRESH\<rparr>]\<rparr>"

text \<open>A cache whose best anchor 9 is held with its tree.\<close>

definition exAnchorCache :: CCoinsViewCache where
  "exAnchorCache = (CCoinsViewCache_init CCoinsView_init)
     \<lparr>hashAnchor := 9,
       cacheAnchors := [9 \<mapsto> \<lparr>entered = True, tree = Tree 9 [4], aflags = DIRTY\<rparr>]\<rparr>"

text \<open>
  The coin map of a child layer: a pruned \<^verbatim>\<open>DIRTY\<close> entry under key 7 and a \<^verbatim>\<open>FRESH\<close>,
  \<^verbatim>\<open>DIRTY\<close> entry with an unspent output under key 8.
\<close>

definition exChildCoins :: "(uint256 \<times> CCoinsCacheEntry) list" where
  "exChildCoins = [(7, \<lparr>coins = CCoins_init, flags = DIRTY\<rparr>),
                   (8, \<lparr>coins = exCoins, flags = DIRTY OR FRESH\<rparr>)]"

text \<open>
  Sidechain 1 with balance 100 and no certificate yet, known to the base only; a
  certificate for its epoch 0 that transfers back 30, and one that would transfer back 130.
\<close>

definition exSidechain :: CSidechain where
  "exSidechain = CSidechain_init\<lparr>creationBlockHeight := 200, balance := 100,
     creationData := \<lparr>withdrawalEpochLength = 10, customData = [], scConstant = [],
       wCertVk = [], wMbtrVk = None\<rparr>,
     currentState := ALIVE\<rparr>"

definition exScCache :: CCoinsViewCache where
  "exScCache = CCoinsViewCache_init
     (CCoinsView_init\<lparr>baseGetSidechain := [1 \<mapsto> exSidechain], baseGetScIds := {1}\<rparr>)"

definition exCert :: CScCertificate where
  "exCert = \<lparr>certHash = 193, certScId = 1, epochNumber = 0, quality = 5,
     bwtTotalAmount = 30, certDataHash = [1, 2]\<rparr>"

definition exCertBig :: CScCertificate where
  "exCertBig = exCert\<lparr>bwtTotalAmount := 130\<rparr>"

text \<open>
  Two caches read the same when they have the same base, latch, digests, coin, anchor and
  nullifier maps, and every sidechain and event lookup finds the same entry in both: they
  differ at most by entries that lookups have copied from the base.
\<close>

definition sameReads :: "CCoinsViewCache \<Rightarrow> CCoinsViewCache \<Rightarrow> bool" where
  "sameReads c c' =
     (base c' = base c \<and> cacheCoins c' = cacheCoins c \<and> cacheAnchors c' = cacheAnchors c \<and>
      cacheNullifiers c' = cacheNullifiers c \<and> hasModifier c' = hasModifier c \<and>
      hashBlock c' = hashBlock c \<and> hashAnchor c' = hashAnchor c \<and>
      (\<forall>k. fst (FetchSidechains k c') = fst (FetchSidechains k c)) \<and>
      (\<forall>h. fst (FetchSidechainEvents h c') = fst (FetchSidechainEvents h c)))"

text \<open>
  Epoch heights for the examples: epochs start every \<^verbatim>\<open>withdrawalEpochLength\<close> blocks from
  the creation height, with a safeguard margin of 5; and a cache over a base that has
  sidechain 1 and one event, with sidechain 1 ceasing, at a given height.
\<close>

definition exStartHeightForEpoch :: "CSidechain \<Rightarrow> cint \<Rightarrow> cint" where
  "exStartHeightForEpoch sc targetEpoch =
     creationBlockHeight sc + targetEpoch * withdrawalEpochLength (creationData sc)"

definition exSafeguardMargin :: "CSidechain \<Rightarrow> cint" where
  "exSafeguardMargin sc = 5"

definition exEventsAt :: "cint \<Rightarrow> CCoinsViewCache" where
  "exEventsAt h = CCoinsViewCache_init
     (CCoinsView_init\<lparr>baseGetSidechain := [1 \<mapsto> exSidechain],
        baseGetSidechainEvents := [h \<mapsto> \<lparr>maturingScs = [], ceasingScs = [1]\<rparr>]\<rparr>)"

text \<open>
  An instance of the primitive encodings for the examples.  A compact size has the
  one-byte and the three-byte form.  An unsigned integer and a \<^verbatim>\<open>VARINT\<close> are one byte, read
  as an unsigned value, which reads back the values below 256; a signed fixed-width
  integer is one byte, read as a signed value, which reads back the values from \<open>-128\<close> to
  127.  An output is the byte of its value, the length of its script and the script; a
  field element is its length and its bytes.  \<^verbatim>\<open>SC_CERT_VERSION\<close> is \<open>-5\<close>, whose low
  seven bits are \<open>0x7b\<close>.
\<close>

definition byteEnc :: "'a::len word Enc" where
  "byteEnc = \<lparr>ser = (\<lambda>x. [ucast x]),
               unser = (\<lambda>s. case s of [] \<Rightarrow> None | b # s' \<Rightarrow> Some (ucast b, s'))\<rparr>"

definition sbyteEnc :: "'a::len word Enc" where
  "sbyteEnc = \<lparr>ser = (\<lambda>x. [ucast x]),
                unser = (\<lambda>s. case s of [] \<Rightarrow> None | b # s' \<Rightarrow> Some (scast b, s'))\<rparr>"

definition exTxOutEnc :: "CTxOut Enc" where
  "exTxOutEnc = \<lparr>ser = (\<lambda>t. ucast (nValue t) # of_nat (length (scriptPubKey t)) # scriptPubKey t),
                  unser = (\<lambda>s. case s of
                              v # n # s' \<Rightarrow>
                                if unat n \<le> length s'
                                then Some (\<lparr>nValue = ucast v, scriptPubKey = take (unat n) s'\<rparr>,
                                           drop (unat n) s')
                                else None
                            | _ \<Rightarrow> None)\<rparr>"

definition exBytesEnc :: "bytes Enc" where
  "exBytesEnc = \<lparr>ser = (\<lambda>d. of_nat (length d) # d),
                  unser = (\<lambda>s. case s of
                              [] \<Rightarrow> None
                            | n # s' \<Rightarrow>
                                if unat n \<le> length s'
                                then Some (take (unat n) s', drop (unat n) s')
                                else None)\<rparr>"

definition exCodec :: Codec where
  "exCodec = \<lparr>
     WriteCompactSize = (\<lambda>n. if n < 253 then [of_nat n]
                             else [253, of_nat (n mod 256), of_nat (n div 256)]),
     ReadCompactSize = (\<lambda>s. case s of
                           [] \<Rightarrow> None
                         | b # s' \<Rightarrow>
                             if unat b < 253 then Some (unat b, s')
                             else if b = 253 then
                               (case s' of
                                  lo # hi # s'' \<Rightarrow> Some (unat lo + 256 * unat hi, s'')
                                | _ \<Rightarrow> None)
                             else None),
     VARINT_uint = byteEnc, VARINT_int = byteEnc, CTxOutCompressor = exTxOutEnc,
     Ser_int = sbyteEnc, Ser_uint32 = byteEnc, Ser_uint8 = byteEnc, Ser_int64 = sbyteEnc,
     Ser_uint256 = byteEnc, Ser_ScFieldElement = exBytesEnc, SC_CERT_VERSION = - 5\<rparr>"

text \<open>
  A block undo in the new format.  Its transaction spent an output that was not the last
  of its transaction (no metadata) and the last output of a coinbase of height 100.  Its
  record for sidechain 1 has the sections of the matured amount and of the ceased
  certificate, the latter with the last output of a certificate of height 110, whose
  version has the low seven bits of \<^verbatim>\<open>SC_CERT_VERSION\<close>.
\<close>

definition exSpentLast :: CTxInUndo where
  "exSpentLast = \<lparr>txout = \<lparr>nValue = 40, scriptPubKey = []\<rparr>, u_fCoinBase = True, u_nHeight = 100,
     u_nVersion = 1, u_nFirstBwtPos = BWT_POS_UNSET, u_nBwtMaturityHeight = 0\<rparr>"

definition exCertLast :: CTxInUndo where
  "exCertLast = \<lparr>txout = \<lparr>nValue = 50, scriptPubKey = []\<rparr>, u_fCoinBase = False, u_nHeight = 110,
     u_nVersion = 0x7b, u_nFirstBwtPos = 1, u_nBwtMaturityHeight = 120\<rparr>"

definition exScUndo :: CSidechainUndoData_h where
  "exScUndo = CSidechainUndoData_h_init\<lparr>
     h_contentBitMask := h_MATURED_AMOUNTS OR h_CEASED_CERTIFICATE_DATA,
     h_appliedMaturedAmount := 100, h_ceasedBwts := [exCertLast]\<rparr>"

definition exBlockUndo :: CBlockUndo where
  "exBlockUndo = \<lparr>includesSidechainAttributes = True,
     vtxundo = [\<lparr>vprevout = [CTxInUndo_of \<lparr>nValue = 30, scriptPubKey = [1, 2]\<rparr>, exSpentLast]\<rparr>],
     old_tree_root = 5, scUndoDatabyScId = fmupd 1 exScUndo fmempty\<rparr>"

text \<open>
  Three block undos in the new format that hold a value in a field that the encoding of
  the element leaves out: a version beside a height of 0; an applied matured amount in a
  record whose mask does not flag that section; a height of \<open>2^31\<close>, whose double wraps
  to 0.
\<close>

definition exUndoVersion :: CBlockUndo where
  "exUndoVersion = CBlockUndo_init\<lparr>vtxundo :=
     [\<lparr>vprevout = [(CTxInUndo_of \<lparr>nValue = 30, scriptPubKey = []\<rparr>)\<lparr>u_nVersion := 7\<rparr>]\<rparr>]\<rparr>"

definition exUndoAmount :: CBlockUndo where
  "exUndoAmount = CBlockUndo_init\<lparr>scUndoDatabyScId :=
     fmupd 1 (CSidechainUndoData_h_init\<lparr>h_appliedMaturedAmount := 100\<rparr>) fmempty\<rparr>"

definition exUndoHeight :: CBlockUndo where
  "exUndoHeight = CBlockUndo_init\<lparr>vtxundo :=
     [\<lparr>vprevout = [(CTxInUndo_of \<lparr>nValue = 30, scriptPubKey = []\<rparr>)\<lparr>u_nHeight := 0x80000000\<rparr>]\<rparr>]\<rparr>"

text \<open>
  Sidechain 1 with 100 maturing at height 204 and no certificate, and a cache over a base
  whose event at height 204 has sidechain 1 both maturing and ceasing.
\<close>

definition exImmatureSidechain :: CSidechain where
  "exImmatureSidechain = exSidechain\<lparr>balance := 0, mImmatureAmounts := [204 \<mapsto> 100]\<rparr>"

definition exMaturingCache :: CCoinsViewCache where
  "exMaturingCache = CCoinsViewCache_init
     (CCoinsView_init\<lparr>baseGetSidechain := [1 \<mapsto> exImmatureSidechain],
        baseGetSidechainEvents := [204 \<mapsto> \<lparr>maturingScs = [1], ceasingScs = [1]\<rparr>]\<rparr>)"

text \<open>
  The coins of certificate 193, whose outputs from position 1 on are backward transfers,
  and a cache over a base in which certificate 193 is the top certificate of sidechain 1
  and sidechain 1 ceases at height 225.
\<close>

definition exCertCoins :: CCoins where
  "exCertCoins = \<lparr>fCoinBase = False,
     vout = [\<lparr>nValue = 10, scriptPubKey = [1]\<rparr>, \<lparr>nValue = 20, scriptPubKey = [2]\<rparr>,
             \<lparr>nValue = 30, scriptPubKey = [3]\<rparr>],
     nHeight = 210, nVersion = - 5, nFirstBwtPos = 1, nBwtMaturityHeight = 225\<rparr>"

definition exCeasingCache :: CCoinsViewCache where
  "exCeasingCache = CCoinsViewCache_init
     (CCoinsView_init\<lparr>
        baseGetCoins := [193 \<mapsto> exCertCoins],
        baseGetSidechain := [1 \<mapsto> exSidechain\<lparr>balance := 40,
           lastTopQualityCertReferencedEpoch := 0, lastTopQualityCertHash := 193,
           lastTopQualityCertQuality := 5, lastTopQualityCertBwtAmount := 50\<rparr>],
        baseGetSidechainEvents := [225 \<mapsto> \<lparr>maturingScs = [], ceasingScs = [1]\<rparr>]\<rparr>)"

section \<open>Properties\<close>

subsection \<open>Flag bits\<close>

lemma OR_DIRTY_AND_FRESH: "(f OR DIRTY) AND FRESH = f AND FRESH"
  unfolding DIRTY_def FRESH_def by (simp add: word_ao_dist)

lemma OR_DIRTY_AND_DIRTY: "(f OR DIRTY) AND DIRTY \<noteq> 0"
  unfolding DIRTY_def by (simp add: word_ao_dist or_eq_0_iff)

lemma DIRTY_FRESH_bits:
  "(DIRTY OR FRESH) AND FRESH \<noteq> 0" "(DIRTY OR FRESH) AND DIRTY \<noteq> 0"
  "FRESH AND FRESH \<noteq> 0" "FRESH AND DIRTY = 0" "DIRTY AND DIRTY \<noteq> 0" "DIRTY AND FRESH = 0"
  unfolding DIRTY_def FRESH_def by simp_all

subsection \<open>Cleanup and pruned entries\<close>

lemma pop_null_back_Nil [simp]: "pop_null_back [] = []"
  by (simp add: pop_null_back.simps)

lemma pop_null_back_snoc:
  "pop_null_back (vs @ [v]) = (if IsNull v then pop_null_back vs else vs @ [v])"
  by (subst pop_null_back.simps) simp

lemma pop_null_back_empty_iff: "pop_null_back vs = [] \<longleftrightarrow> list_all IsNull vs"
  by (induction vs rule: rev_induct) (auto simp: pop_null_back_snoc)

lemma list_all_pop_null_back: "list_all IsNull (pop_null_back vs) \<longleftrightarrow> list_all IsNull vs"
  by (induction vs rule: rev_induct) (auto simp: pop_null_back_snoc)

lemma pop_null_back_idem: "pop_null_back (pop_null_back vs) = pop_null_back vs"
  by (induction vs rule: rev_induct) (auto simp: pop_null_back_snoc)

lemma IsPruned_Cleanup: "IsPruned (Cleanup c) = IsPruned c"
  by (simp add: IsPruned_def Cleanup_def list_all_pop_null_back)

lemma Cleanup_idem: "Cleanup (Cleanup c) = Cleanup c"
  by (simp add: Cleanup_def pop_null_back_idem)

lemma Cleanup_pruned_iff_empty: "IsPruned (Cleanup c) \<longleftrightarrow> vout (Cleanup c) = []"
  by (simp add: IsPruned_def Cleanup_def list_all_pop_null_back pop_null_back_empty_iff)

lemma Spend_cleaned: "Spend nPos c = (True, c') \<Longrightarrow> Cleanup c' = c'"
  by (auto simp: Spend_def Cleanup_idem split: if_splits)

text \<open>
  C10: after \<^verbatim>\<open>Cleanup\<close> an entry is pruned exactly when its outputs vector is empty; and
  when the entry that \<^verbatim>\<open>FetchCoins\<close> reaches for a key (if any) is one that \<^verbatim>\<open>Cleanup\<close> has
  left, \<^verbatim>\<open>HaveCoins\<close> returns true exactly when a non-pruned entry is reached.
\<close>

theorem HaveCoins_iff_unpruned_after_Cleanup:
  assumes "\<forall>e. fst (FetchCoins txid v) = Some e \<longrightarrow> (\<exists>c0. coins e = Cleanup c0)"
  shows "(IsPruned (Cleanup c) \<longleftrightarrow> vout (Cleanup c) = []) \<and>
    (fst (HaveCoins txid v) \<longleftrightarrow> (\<exists>e. fst (FetchCoins txid v) = Some e \<and> \<not> IsPruned (coins e)))"
proof -
  obtain it v' where f: "FetchCoins txid v = (it, v')" by (cases "FetchCoins txid v")
  show ?thesis
  proof (cases it)
    case None
    with f show ?thesis
      by (simp add: HaveCoins_def Cleanup_pruned_iff_empty)
  next
    case (Some e)
    with assms f obtain c0 where "coins e = Cleanup c0" by auto
    with Some f show ?thesis
      by (simp add: HaveCoins_def Cleanup_pruned_iff_empty)
  qed
qed

lemma exCoins_clean: "exCoins = Cleanup exCoins"
  by (simp add: exCoins_def Cleanup_def CCoins_init_def pop_null_back.simps [of "[x]" for x] IsNull_def)

theorem HaveCoins_iff_unpruned_after_Cleanup_witness:
  "fst (FetchCoins 7 exFreshCache) = Some \<lparr>coins = Cleanup exCoins, flags = FRESH\<rparr> \<and>
   (IsPruned (Cleanup exCoins) \<longleftrightarrow> vout (Cleanup exCoins) = []) \<and>
   fst (HaveCoins 7 exFreshCache) \<and>
   (\<exists>e. fst (FetchCoins 7 exFreshCache) = Some e \<and> \<not> IsPruned (coins e))"
proof -
  have h: "\<forall>e. fst (FetchCoins 7 exFreshCache) = Some e \<longrightarrow> (\<exists>c0. coins e = Cleanup c0)"
    using exCoins_clean by (auto simp: FetchCoins_def exFreshCache_def)
  have t: "fst (HaveCoins 7 exFreshCache)"
    by (simp add: HaveCoins_def FetchCoins_def exFreshCache_def exCoins_def)
  have f: "fst (FetchCoins 7 exFreshCache) = Some \<lparr>coins = Cleanup exCoins, flags = FRESH\<rparr>"
    using exCoins_clean by (simp add: FetchCoins_def exFreshCache_def)
  show ?thesis
    using f t HaveCoins_iff_unpruned_after_Cleanup [OF h, of exCoins] by simp
qed

text \<open>
  C9: a sidechain id, or an event height, whose cache entry is flagged \<^verbatim>\<open>ERASED\<close> is absent
  for the read interface, whatever the base reports.
\<close>

theorem erased_entries_read_as_absent:
  "(cacheSidechains c scId = Some e \<and> flag e = ERASED \<longrightarrow>
      \<not> fst (HaveSidechain scId c) \<and> fst (GetSidechain scId c) = None \<and> scId \<notin> GetScIds c) \<and>
   (cacheSidechainEvents c h = Some ev \<and> evflag ev = ERASED \<longrightarrow>
      \<not> fst (HaveSidechainEvents h c) \<and> fst (GetSidechainEvents h c) = None)"
  by (simp add: HaveSidechain_def GetSidechain_def GetScIds_def FetchSidechains_def
      HaveSidechainEvents_def GetSidechainEvents_def FetchSidechainEvents_def)

theorem erased_entries_read_as_absent_witness:
  "cacheSidechains exErasedCache 1 = Some \<lparr>sidechain = CSidechain_init, flag = ERASED\<rparr> \<and>
   1 \<in> baseGetScIds (base exErasedCache) \<and>
   \<not> fst (HaveSidechain 1 exErasedCache) \<and> fst (GetSidechain 1 exErasedCache) = None \<and>
   1 \<notin> GetScIds exErasedCache \<and>
   cacheSidechainEvents exErasedCache 5 =
     Some \<lparr>scEvents = \<lparr>maturingScs = [1], ceasingScs = []\<rparr>, evflag = ERASED\<rparr> \<and>
   \<not> fst (HaveSidechainEvents 5 exErasedCache) \<and> fst (GetSidechainEvents 5 exErasedCache) = None"
  using erased_entries_read_as_absent [of exErasedCache 1
      "\<lparr>sidechain = CSidechain_init, flag = ERASED\<rparr>" 5
      "\<lparr>scEvents = \<lparr>maturingScs = [1], ceasingScs = []\<rparr>, evflag = ERASED\<rparr>"]
  by (simp add: exErasedCache_def CCoinsViewCache_init_def CCoinsView_init_def)

subsection \<open>Anchors\<close>

lemma GetBestAnchor_again:
  "fst (GetBestAnchor (snd (GetBestAnchor c))) = fst (GetBestAnchor c)"
  by (simp add: GetBestAnchor_def Let_def IsNull256_def)

text \<open>
  C6: pushing a tree whose root is the current best anchor, and popping to the current best
  anchor, leave every map of the cache, its base, its latch and its best block as they
  were, and the best anchor reads the same afterwards; the cache is the same record
  unless the best anchor had not been fetched yet, in which case the only change is that
  the base's best anchor is now held in \<^verbatim>\<open>hashAnchor\<close>.
\<close>

theorem anchor_noop_on_current_root:
  "(root t = fst (GetBestAnchor c) \<longrightarrow>
      cacheAnchors (PushAnchor t c) = cacheAnchors c \<and>
      fst (GetBestAnchor (PushAnchor t c)) = fst (GetBestAnchor c) \<and>
      PushAnchor t c = c\<lparr>hashAnchor := fst (GetBestAnchor c)\<rparr> \<and>
      (\<not> IsNull256 (hashAnchor c) \<longrightarrow> PushAnchor t c = c)) \<and>
   (r = fst (GetBestAnchor c) \<longrightarrow>
      PopAnchor r c = Inr (c\<lparr>hashAnchor := fst (GetBestAnchor c)\<rparr>) \<and>
      cacheAnchors (c\<lparr>hashAnchor := fst (GetBestAnchor c)\<rparr>) = cacheAnchors c \<and>
      fst (GetBestAnchor (c\<lparr>hashAnchor := fst (GetBestAnchor c)\<rparr>)) = fst (GetBestAnchor c) \<and>
      (\<not> IsNull256 (hashAnchor c) \<longrightarrow> PopAnchor r c = Inr c))"
  by (simp add: PushAnchor_def PopAnchor_def GetBestAnchor_def Let_def IsNull256_def)

theorem anchor_noop_on_current_root_witness:
  "root (Tree 9 [4]) = fst (GetBestAnchor exAnchorCache) \<and>
   \<not> IsNull256 (hashAnchor exAnchorCache) \<and>
   PushAnchor (Tree 9 [4]) exAnchorCache = exAnchorCache \<and>
   PopAnchor 9 exAnchorCache = Inr exAnchorCache \<and>
   PushAnchor (Tree 8 []) exAnchorCache \<noteq> exAnchorCache"
proof -
  have r: "root (Tree 9 [4]) = fst (GetBestAnchor exAnchorCache)"
    and r': "9 = fst (GetBestAnchor exAnchorCache)"
    and n: "\<not> IsNull256 (hashAnchor exAnchorCache)"
    by (simp_all add: GetBestAnchor_def exAnchorCache_def IsNull256_def CCoinsViewCache_init_def)
  have d: "PushAnchor (Tree 8 []) exAnchorCache \<noteq> exAnchorCache"
  proof
    assume "PushAnchor (Tree 8 []) exAnchorCache = exAnchorCache"
    then have "hashAnchor (PushAnchor (Tree 8 []) exAnchorCache) = hashAnchor exAnchorCache"
      by simp
    then show False
      by (simp add: PushAnchor_def GetBestAnchor_def exAnchorCache_def IsNull256_def
          CCoinsViewCache_init_def)
  qed
  show ?thesis
    using r n d anchor_noop_on_current_root [of "Tree 9 [4]" exAnchorCache 9] r'
    by blast
qed

subsection \<open>The Modifier\<close>

lemma ModifyCoins_keeps_FRESH:
  assumes "ModifyCoins txid c = Inr (e, c1)" and "cacheCoins c txid = Some e0"
  shows "coins e = coins e0 \<and> flags e AND FRESH = flags e0 AND FRESH \<and> flags e AND DIRTY \<noteq> 0"
proof -
  from assms have e: "e = e0\<lparr>flags := flags e0 OR DIRTY\<rparr>"
    by (auto simp: ModifyCoins_def Let_def split: if_splits)
  show ?thesis
    using OR_DIRTY_AND_DIRTY [of "flags e0"] by (simp add: e OR_DIRTY_AND_FRESH)
qed

lemma ModifyCoins_slot:
  assumes "ModifyCoins txid c = Inr (e, c1)"
  shows "cacheCoins c1 txid = Some e \<and> hasModifier c1"
  using assms by (auto simp: ModifyCoins_def Let_def setCoinsEntry_def split: if_splits)

text \<open>
  C7: when the slot that \<^verbatim>\<open>ModifyCoins\<close> hands out carries \<^verbatim>\<open>FRESH\<close> and the writes made
  through the handle (any function \<open>f\<close> on the entry) leave the entry pruned, dropping
  the handle erases the slot: the key is absent from \<^verbatim>\<open>cacheCoins\<close> and the latch is
  released.
\<close>

theorem fresh_pruned_entry_erased_on_drop:
  assumes "ModifyCoins txid c = Inr (e, c1)"
    and "flags e AND FRESH \<noteq> 0"
    and "IsPruned (f (coins e))"
  shows "\<exists>c2. CCoinsModifier_drop txid (modifyEntry txid f c1) = Inr c2 \<and>
           cacheCoins c2 txid = None \<and> \<not> hasModifier c2"
proof -
  from assms(1) have slot: "cacheCoins c1 txid = Some e" and latch: "hasModifier c1"
    using ModifyCoins_slot by auto
  have m: "modifyEntry txid f c1 = setCoinsEntry txid (e\<lparr>coins := f (coins e)\<rparr>) c1"
    by (simp add: modifyEntry_def slot)
  show ?thesis
    using latch assms(2,3)
    by (simp add: m CCoinsModifier_drop_def setCoinsEntry_def Let_def IsPruned_Cleanup)
qed

theorem fresh_pruned_entry_erased_on_drop_witness:
  "ModifyCoins 7 exFreshCache =
     Inr (\<lparr>coins = exCoins, flags = FRESH OR DIRTY\<rparr>,
          (setCoinsEntry 7 \<lparr>coins = exCoins, flags = FRESH OR DIRTY\<rparr> exFreshCache)\<lparr>hasModifier := True\<rparr>) \<and>
   (FRESH OR DIRTY) AND FRESH \<noteq> 0 \<and>
   IsPruned (snd (Spend 0 exCoins)) \<and>
   (\<exists>c2. CCoinsModifier_drop 7 (modifyEntry 7 (\<lambda>cs. snd (Spend 0 cs))
              ((setCoinsEntry 7 \<lparr>coins = exCoins, flags = FRESH OR DIRTY\<rparr> exFreshCache)\<lparr>hasModifier := True\<rparr>)) = Inr c2 \<and>
         cacheCoins c2 7 = None \<and> \<not> hasModifier c2)"
proof -
  have a: "ModifyCoins 7 exFreshCache =
     Inr (\<lparr>coins = exCoins, flags = FRESH OR DIRTY\<rparr>,
          (setCoinsEntry 7 \<lparr>coins = exCoins, flags = FRESH OR DIRTY\<rparr> exFreshCache)\<lparr>hasModifier := True\<rparr>)"
    by (simp add: ModifyCoins_def exFreshCache_def CCoinsViewCache_init_def Let_def)
  have b: "flags \<lparr>coins = exCoins, flags = FRESH OR DIRTY\<rparr> AND FRESH \<noteq> 0"
    by (simp add: FRESH_def DIRTY_def)
  have c: "IsPruned ((\<lambda>cs. snd (Spend 0 cs)) (coins \<lparr>coins = exCoins, flags = FRESH OR DIRTY\<rparr>))"
    by (simp add: Spend_def exCoins_def CCoins_init_def IsNull_def SetNull_def IsPruned_Cleanup)
       (simp add: IsPruned_def IsNull_def)
  show ?thesis
    using a b c
      fresh_pruned_entry_erased_on_drop [of 7 exFreshCache _ _ "\<lambda>cs. snd (Spend 0 cs)", OF a b c]
    by simp
qed

subsection \<open>Upward flush of coin entries\<close>

lemma BatchWrite_coin_other:
  assumes "BatchWrite_coin it c = Inr c1" and "k \<noteq> fst it"
  shows "cacheCoins c1 k = cacheCoins c k"
  using assms
  by (auto simp: BatchWrite_coin_def setCoinsEntry_def split: if_splits option.splits)

lemma BatchWrite_coin_slot:
  assumes "BatchWrite_coin it c = Inr c1" and "cacheCoins c2 (fst it) = cacheCoins c (fst it)"
  shows "\<exists>c3. BatchWrite_coin it c2 = Inr c3 \<and> cacheCoins c3 (fst it) = cacheCoins c1 (fst it)"
  using assms
  by (auto simp: BatchWrite_coin_def setCoinsEntry_def split: if_splits option.splits)

lemma foldE_BatchWrite_coin_other:
  assumes "foldE BatchWrite_coin xs c = Inr c'" and "k \<notin> fst ` set xs"
  shows "cacheCoins c' k = cacheCoins c k"
  using assms
proof (induction xs arbitrary: c)
  case Nil
  then show ?case by simp
next
  case (Cons x xs)
  from Cons.prems(1) obtain cx where x: "BatchWrite_coin x c = Inr cx"
    and rest: "foldE BatchWrite_coin xs cx = Inr c'"
    by (auto split: sum.splits)
  from Cons.prems(2) have "k \<noteq> fst x" and "k \<notin> fst ` set xs" by auto
  then show ?case
    using Cons.IH [OF rest] BatchWrite_coin_other [OF x] by simp
qed

lemma foldE_BatchWrite_coin_entry:
  assumes "foldE BatchWrite_coin xs c = Inr c'" and "distinct (map fst xs)" and "it \<in> set xs"
  shows "\<exists>c1. BatchWrite_coin it c = Inr c1 \<and> cacheCoins c' (fst it) = cacheCoins c1 (fst it)"
  using assms
proof (induction xs arbitrary: c)
  case Nil
  then show ?case by simp
next
  case (Cons x xs)
  from Cons.prems(1) obtain cx where x: "BatchWrite_coin x c = Inr cx"
    and rest: "foldE BatchWrite_coin xs cx = Inr c'"
    by (auto split: sum.splits)
  from Cons.prems(2) have dx: "fst x \<notin> fst ` set xs" and d: "distinct (map fst xs)"
    by auto
  show ?case
  proof (cases "it = x")
    case True
    then show ?thesis
      using x foldE_BatchWrite_coin_other [OF rest dx] by simp
  next
    case False
    with Cons.prems(3) have mem: "it \<in> set xs" by simp
    with dx have ne: "fst it \<noteq> fst x" by (metis imageI)
    from Cons.IH [OF rest d mem] obtain c1 where
      c1: "BatchWrite_coin it cx = Inr c1" "cacheCoins c' (fst it) = cacheCoins c1 (fst it)"
      by blast
    have "cacheCoins c (fst it) = cacheCoins cx (fst it)"
      using BatchWrite_coin_other [OF x ne] by simp
    from BatchWrite_coin_slot [OF c1(1) this] c1(2) show ?thesis by auto
  qed
qed

lemma cacheCoins_fold_anchor: "cacheCoins (fold BatchWrite_anchor xs c) = cacheCoins c"
  by (induction xs arbitrary: c) (simp_all add: BatchWrite_anchor_def split: option.splits)

lemma cacheCoins_fold_nullifier: "cacheCoins (fold BatchWrite_nullifier xs c) = cacheCoins c"
  by (induction xs arbitrary: c) (simp_all add: BatchWrite_nullifier_def split: option.splits)

lemma BatchWrite_cacheCoins:
  assumes "BatchWrite wSc wEv mapCoins hb ha mapAnchors mapNullifiers mapSc mapEv c = Inr c'"
  shows "\<exists>c1. foldE BatchWrite_coin mapCoins c = Inr c1 \<and> cacheCoins c' = cacheCoins c1"
  using assms
  by (auto simp: BatchWrite_def Let_def cacheCoins_fold_anchor cacheCoins_fold_nullifier
      split: if_splits sum.splits)

text \<open>
  C2 (as amended): for a \<^verbatim>\<open>DIRTY\<close> child coin entry under key \<open>k\<close>, when \<^verbatim>\<open>BatchWrite\<close>
  returns: an unpruned child entry whose key the receiving layer lacks is \<^verbatim>\<open>FRESH\<close> and is
  installed with \<^verbatim>\<open>DIRTY|FRESH\<close>; a pruned child entry removes a \<^verbatim>\<open>FRESH\<close> slot of the
  receiving layer; any other slot of the receiving layer takes the child's payload, gets
  \<^verbatim>\<open>DIRTY\<close> and keeps its \<^verbatim>\<open>FRESH\<close> bit; and a pruned child entry whose key the receiving
  layer lacks leaves the key absent.
\<close>

theorem BatchWrite_dirty_coin_entry:
  assumes "BatchWrite wSc wEv mapCoins hb ha mapAnchors mapNullifiers mapSc mapEv c = Inr c'"
    and "distinct (map fst mapCoins)"
    and "(k, child) \<in> set mapCoins"
    and "flags child AND DIRTY \<noteq> 0"
  shows "(cacheCoins c k = None \<and> \<not> IsPruned (coins child) \<longrightarrow>
           flags child AND FRESH \<noteq> 0 \<and>
           cacheCoins c' k = Some \<lparr>coins = coins child, flags = DIRTY OR FRESH\<rparr>) \<and>
         (\<forall>us. cacheCoins c k = Some us \<and> flags us AND FRESH \<noteq> 0 \<and> IsPruned (coins child) \<longrightarrow>
           cacheCoins c' k = None) \<and>
         (\<forall>us. cacheCoins c k = Some us \<and> \<not> (flags us AND FRESH \<noteq> 0 \<and> IsPruned (coins child)) \<longrightarrow>
           cacheCoins c' k = Some \<lparr>coins = coins child, flags = flags us OR DIRTY\<rparr> \<and>
           (flags us OR DIRTY) AND DIRTY \<noteq> 0 \<and>
           (flags us OR DIRTY) AND FRESH = flags us AND FRESH) \<and>
         (cacheCoins c k = None \<and> IsPruned (coins child) \<longrightarrow> cacheCoins c' k = None)"
proof -
  from BatchWrite_cacheCoins [OF assms(1)] obtain c1 where
    c1: "foldE BatchWrite_coin mapCoins c = Inr c1" "cacheCoins c' = cacheCoins c1"
    by blast
  from foldE_BatchWrite_coin_entry [OF c1(1) assms(2,3)] obtain c2 where
    c2: "BatchWrite_coin (k, child) c = Inr c2" "cacheCoins c1 k = cacheCoins c2 k"
    by auto
  have eq: "cacheCoins c' k = cacheCoins c2 k"
    using c1(2) c2(2) by simp
  show ?thesis
    unfolding eq using c2(1) assms(4)
    by (auto simp: BatchWrite_coin_def setCoinsEntry_def CCoinsCacheEntry_init_def
        OR_DIRTY_AND_FRESH OR_DIRTY_AND_DIRTY split: if_splits option.splits)
qed


lemma DIRTY_FRESH_nonzero: "DIRTY \<noteq> 0" "FRESH \<noteq> 0" "DIRTY \<noteq> FRESH"
  by (simp_all add: DIRTY_def FRESH_def)

lemma IsPruned_CCoins_init: "IsPruned CCoins_init"
  by (simp add: IsPruned_def CCoins_init_def)

lemma not_IsPruned_exCoins: "\<not> IsPruned exCoins"
  by (simp add: IsPruned_def exCoins_def CCoins_init_def IsNull_def)

theorem BatchWrite_dirty_coin_entry_witness:
  "\<exists>c'. BatchWrite (\<lambda>it m. Inr m) (\<lambda>it m. Inr m) exChildCoins 3 4 [] [] [] [] exFreshCache = Inr c' \<and>
      distinct (map fst exChildCoins) \<and>
      cacheCoins exFreshCache 7 = Some \<lparr>coins = exCoins, flags = FRESH\<rparr> \<and>
      cacheCoins exFreshCache 8 = None \<and>
      cacheCoins c' 7 = None \<and>
      cacheCoins c' 8 = Some \<lparr>coins = exCoins, flags = DIRTY OR FRESH\<rparr>"
proof -
  have run: "\<exists>c'. BatchWrite (\<lambda>it m. Inr m) (\<lambda>it m. Inr m) exChildCoins 3 4 [] [] [] [] exFreshCache = Inr c'"
    by (simp add: BatchWrite_def exChildCoins_def exFreshCache_def CCoinsViewCache_init_def
        BatchWrite_coin_def setCoinsEntry_def IsPruned_CCoins_init not_IsPruned_exCoins
        DIRTY_FRESH_bits DIRTY_FRESH_nonzero CCoinsCacheEntry_init_def Let_def)
  then obtain c' where
    c': "BatchWrite (\<lambda>it m. Inr m) (\<lambda>it m. Inr m) exChildCoins 3 4 [] [] [] [] exFreshCache = Inr c'"
    by blast
  have d: "distinct (map fst exChildCoins)"
    by (simp add: exChildCoins_def)
  have m7: "(7, \<lparr>coins = CCoins_init, flags = DIRTY\<rparr>) \<in> set exChildCoins"
    and m8: "(8, \<lparr>coins = exCoins, flags = DIRTY OR FRESH\<rparr>) \<in> set exChildCoins"
    by (simp_all add: exChildCoins_def)
  have s7: "cacheCoins exFreshCache 7 = Some \<lparr>coins = exCoins, flags = FRESH\<rparr>"
    and s8: "cacheCoins exFreshCache 8 = None"
    by (simp_all add: exFreshCache_def CCoinsViewCache_init_def)
  have "cacheCoins c' 7 = None"
    using BatchWrite_dirty_coin_entry [OF c' d m7] s7
    by (simp add: DIRTY_FRESH_bits DIRTY_FRESH_nonzero IsPruned_CCoins_init)
  moreover have "cacheCoins c' 8 = Some \<lparr>coins = exCoins, flags = DIRTY OR FRESH\<rparr>"
    using BatchWrite_dirty_coin_entry [OF c' d m8] s8
    by (simp add: DIRTY_FRESH_bits DIRTY_FRESH_nonzero not_IsPruned_exCoins)
  ultimately show ?thesis
    using c' d s7 s8 by simp
qed

text \<open>
  C2 as stated fails for a pruned \<^verbatim>\<open>DIRTY\<close> child entry whose key the receiving layer
  lacks: the claim's third case would have the receiving layer hold the child's payload,
  marked \<^verbatim>\<open>DIRTY\<close>, but \<^verbatim>\<open>BatchWrite\<close> leaves the receiving layer without the key.
\<close>

theorem BatchWrite_pruned_into_absent_counterexample:
  "BatchWrite (\<lambda>it m. Inr m) (\<lambda>it m. Inr m) [(7, \<lparr>coins = CCoins_init, flags = DIRTY\<rparr>)] 0 0
       [] [] [] [] (CCoinsViewCache_init CCoinsView_init)
     = Inr (CCoinsViewCache_init CCoinsView_init) \<and>
   flags \<lparr>coins = CCoins_init, flags = DIRTY\<rparr> AND DIRTY \<noteq> 0 \<and>
   IsPruned (coins \<lparr>coins = CCoins_init, flags = DIRTY\<rparr>) \<and>
   cacheCoins (CCoinsViewCache_init CCoinsView_init) 7 = None \<and>
   cacheCoins (CCoinsViewCache_init CCoinsView_init) 7
     \<noteq> Some \<lparr>coins = CCoins_init, flags = DIRTY\<rparr>"
  by (simp add: BatchWrite_def BatchWrite_coin_def CCoinsViewCache_init_def
      IsPruned_CCoins_init DIRTY_FRESH_bits DIRTY_FRESH_nonzero)

subsection \<open>Certificates: update and restore\<close>

lemma HaveSidechain_True:
  assumes "HaveSidechain k c = (True, c0)"
  shows "\<exists>e. cacheSidechains c0 k = Some e \<and> flag e \<noteq> ERASED \<and>
           GetSidechain k c = (Some (sidechain e), c0) \<and> ModifySidechain k c0 = (e, c0)"
  using assms
  by (auto simp: HaveSidechain_def GetSidechain_def FetchSidechains_def ModifySidechain_def
      Let_def split: option.splits)

lemma GetSidechain_setSidechainEntry:
  "flg \<noteq> ERASED \<Longrightarrow>
   GetSidechain k (setSidechainEntry k \<lparr>sidechain = sc, flag = flg\<rparr> c)
     = (Some sc, setSidechainEntry k \<lparr>sidechain = sc, flag = flg\<rparr> c)"
  by (simp add: GetSidechain_def FetchSidechains_def setSidechainEntry_def)

lemma HaveSidechain_setSidechainEntry:
  "flg \<noteq> ERASED \<Longrightarrow>
   HaveSidechain k (setSidechainEntry k \<lparr>sidechain = sc, flag = flg\<rparr> c)
     = (True, setSidechainEntry k \<lparr>sidechain = sc, flag = flg\<rparr> c)"
  by (simp add: HaveSidechain_def FetchSidechains_def setSidechainEntry_def)

lemma ModifySidechain_setSidechainEntry:
  "ModifySidechain k (setSidechainEntry k e c) = (e, setSidechainEntry k e c)"
  by (simp add: ModifySidechain_def setSidechainEntry_def)

lemma setSidechainEntry_twice:
  "setSidechainEntry k e (setSidechainEntry k e' c) = setSidechainEntry k e c"
  by (simp add: setSidechainEntry_def)

lemma undoAt_upd: "undoAt (m(k \<mapsto> u)) k = u"
  by (simp add: undoAt_def)

text \<open>
  The debit step succeeds exactly when the balance covers the amount, and then restoring
  from the undo record it wrote gives back the sidechain as it stood before the epoch
  handling.
\<close>

lemma Restore_after_debit_cross:
  assumes ep: "epochNumber cert = lastTopQualityCertReferencedEpoch sc + 1"
    and ok: "\<not> balance sc <s bwtTotalAmount cert"
    and U: "u' = (u\<lparr>undo_pastEpochTopQualityCertDataHash := pastEpochTopQualityCertDataHash sc,
                 contentBitMask := insert CROSS_EPOCH_CERT_DATA (contentBitMask u)\<rparr>)"
  shows "\<exists>bu' c'. UpdateSidechain_debit cert scIt
             (sc\<lparr>pastEpochTopQualityCertDataHash := lastTopQualityCertDataHash sc\<rparr>) u' bu c
           = (True, bu', c') \<and>
         RestoreSidechain cert (undoAt bu' (certScId cert)) c'
           = Inr (True, setSidechainEntry (certScId cert) \<lparr>sidechain = sc, flag = DIRTY_ENTRY\<rparr> c)"
  using ep ok
  by (simp add: UpdateSidechain_debit_def Let_def U undoAt_upd RestoreSidechain_def
      HaveSidechain_setSidechainEntry ModifySidechain_setSidechainEntry setSidechainEntry_twice)

lemma Restore_after_debit_same:
  assumes ep: "epochNumber cert = lastTopQualityCertReferencedEpoch sc"
    and q: "\<not> quality cert \<le>s lastTopQualityCertQuality sc"
    and ok: "\<not> balance sc + lastTopQualityCertBwtAmount sc <s bwtTotalAmount cert"
  shows "\<exists>bu' c'. UpdateSidechain_debit cert scIt
             (sc\<lparr>balance := balance sc + lastTopQualityCertBwtAmount sc\<rparr>) u bu c
           = (True, bu', c') \<and>
         RestoreSidechain cert (undoAt bu' (certScId cert)) c'
           = Inr (True, setSidechainEntry (certScId cert) \<lparr>sidechain = sc, flag = DIRTY_ENTRY\<rparr> c)"
  using ep ok q
  by (simp add: UpdateSidechain_debit_def Let_def undoAt_upd RestoreSidechain_def
      HaveSidechain_setSidechainEntry ModifySidechain_setSidechainEntry setSidechainEntry_twice
      signed.not_le)


lemma UpdateSidechain_debit_True:
  "UpdateSidechain_debit cert scIt sc u bu c = (True, bu', c') \<Longrightarrow>
   \<not> balance sc <s bwtTotalAmount cert"
  by (auto simp: UpdateSidechain_debit_def Let_def split: if_splits)

text \<open>
  C1: when \<^verbatim>\<open>UpdateSidechain(cert, blockUndo)\<close> returns true, \<^verbatim>\<open>RestoreSidechain\<close> of the same
  certificate with the undo record just written returns true, and the sidechain record
  read afterwards is equal, field by field, to the record read before the update.
\<close>

theorem cert_update_restore_round_trip:
  assumes up: "UpdateSidechain_cert cert blockUndo c = Inr (True, blockUndo', c')"
  shows "\<exists>sc c''. fst (GetSidechain (certScId cert) c) = Some sc \<and>
           RestoreSidechain cert (undoAt blockUndo' (certScId cert)) c' = Inr (True, c'') \<and>
           fst (GetSidechain (certScId cert) c'') = Some sc"
proof -
  let ?k = "certScId cert"
  let ?bu0 = "blockUndo(?k \<mapsto> undoAt blockUndo ?k)"
  obtain b c0 where h: "HaveSidechain ?k c = (b, c0)"
    by (cases "HaveSidechain ?k c")
  from up h have b: "b = True"
    by (cases b) (auto simp: UpdateSidechain_cert_def Let_def split: if_splits)
  from HaveSidechain_True [OF h [unfolded b]] obtain scIt where
    e: "GetSidechain ?k c = (Some (sidechain scIt), c0)"
       "ModifySidechain ?k c0 = (scIt, c0)"
    by blast
  let ?sc = "sidechain scIt"
  let ?u = "undoAt ?bu0 ?k"
  let ?done = "setSidechainEntry ?k \<lparr>sidechain = ?sc, flag = DIRTY_ENTRY\<rparr> c0"
  have read: "fst (GetSidechain ?k ?done) = Some ?sc"
    by (simp add: GetSidechain_setSidechainEntry)
  have "RestoreSidechain cert (undoAt blockUndo' ?k) c' = Inr (True, ?done)"
  proof (cases "epochNumber cert = lastTopQualityCertReferencedEpoch ?sc + 1")
    case True
    let ?sc1 = "?sc\<lparr>pastEpochTopQualityCertDataHash := lastTopQualityCertDataHash ?sc\<rparr>"
    let ?u1 = "?u\<lparr>undo_pastEpochTopQualityCertDataHash := pastEpochTopQualityCertDataHash ?sc,
                 contentBitMask := insert CROSS_EPOCH_CERT_DATA (contentBitMask ?u)\<rparr>"
    from up h b e True have d: "UpdateSidechain_debit cert scIt ?sc1 ?u1 ?bu0 c0 = (True, blockUndo', c')"
      by (simp add: UpdateSidechain_cert_def Let_def split: if_splits)
    from UpdateSidechain_debit_True [OF d] have ok: "\<not> balance ?sc <s bwtTotalAmount cert"
      by simp
    from Restore_after_debit_cross [OF True ok refl, of scIt ?u ?bu0 c0] d
    show ?thesis by auto
  next
    case False
    let ?sc1 = "?sc\<lparr>balance := balance ?sc + lastTopQualityCertBwtAmount ?sc\<rparr>"
    from up h b e False have same: "epochNumber cert = lastTopQualityCertReferencedEpoch ?sc"
      and q: "\<not> quality cert \<le>s lastTopQualityCertQuality ?sc"
      and d: "UpdateSidechain_debit cert scIt ?sc1 ?u ?bu0 c0 = (True, blockUndo', c')"
      by (auto simp: UpdateSidechain_cert_def Let_def split: if_splits)
    from UpdateSidechain_debit_True [OF d]
    have ok: "\<not> balance ?sc + lastTopQualityCertBwtAmount ?sc <s bwtTotalAmount cert"
      by simp
    from Restore_after_debit_same [OF same q ok, of scIt ?u ?bu0 c0] d
    show ?thesis by auto
  qed
  with read e(1) show ?thesis by simp
qed


theorem cert_update_restore_round_trip_witness:
  "\<exists>bu' c' c''. UpdateSidechain_cert exCert Map.empty exScCache = Inr (True, bu', c') \<and>
      fst (GetSidechain 1 exScCache) = Some exSidechain \<and>
      map_option balance (fst (GetSidechain 1 c')) = Some 70 \<and>
      RestoreSidechain exCert (undoAt bu' 1) c' = Inr (True, c'') \<and>
      fst (GetSidechain 1 c'') = Some exSidechain"
proof -
  have "\<exists>bu' c'. UpdateSidechain_cert exCert Map.empty exScCache = Inr (True, bu', c') \<and>
      map_option balance (fst (GetSidechain 1 c')) = Some 70"
    by (simp add: UpdateSidechain_cert_def UpdateSidechain_debit_def exCert_def exScCache_def
        exSidechain_def CCoinsViewCache_init_def CCoinsView_init_def CSidechain_init_def
        undoAt_def CSidechainUndoData_init_def IsNull256_def HaveSidechain_def
        FetchSidechains_def ModifySidechain_def setSidechainEntry_def GetSidechain_def
        EPOCH_NULL_def Let_def)
  then obtain bu' c' where
    up: "UpdateSidechain_cert exCert Map.empty exScCache = Inr (True, bu', c')"
    and bal: "map_option balance (fst (GetSidechain 1 c')) = Some 70"
    by blast
  have k: "certScId exCert = 1"
    by (simp add: exCert_def)
  have before: "fst (GetSidechain 1 exScCache) = Some exSidechain"
    by (simp add: GetSidechain_def FetchSidechains_def exScCache_def CCoinsViewCache_init_def
        CCoinsView_init_def Let_def)
  from cert_update_restore_round_trip [OF up] before bal up show ?thesis
    by (auto simp: k)
qed

lemma GetSidechain_Some:
  assumes "fst (GetSidechain k c) = Some sc"
  shows "\<exists>c0 e. HaveSidechain k c = (True, c0) \<and> ModifySidechain k c0 = (e, c0) \<and>
           sidechain e = sc"
  using assms
  by (auto simp: HaveSidechain_def GetSidechain_def FetchSidechains_def ModifySidechain_def
      Let_def split: option.splits if_splits)

lemma UpdateSidechain_debit_result:
  "UpdateSidechain_debit cert scIt sc u bu c =
     (if balance sc <s bwtTotalAmount cert
      then (False, fst (snd (UpdateSidechain_debit cert scIt sc u bu c)),
            snd (snd (UpdateSidechain_debit cert scIt sc u bu c)))
      else (True, fst (snd (UpdateSidechain_debit cert scIt sc u bu c)),
            snd (snd (UpdateSidechain_debit cert scIt sc u bu c))))"
  by (simp add: UpdateSidechain_debit_def Let_def)

lemma UpdateSidechain_debit_balance:
  "\<not> balance sc <s bwtTotalAmount cert \<Longrightarrow>
   map_option balance (fst (GetSidechain (certScId cert)
       (snd (snd (UpdateSidechain_debit cert scIt sc u bu c)))))
     = Some (balance sc - bwtTotalAmount cert)"
  by (simp add: UpdateSidechain_debit_def Let_def GetSidechain_setSidechainEntry)

text \<open>
  C3: for a certificate that passes the assertion, the existence check and the epoch
  handling, let \<open>b\<close> be the balance as the epoch handling leaves it (the balance itself on
  a cross-epoch certificate, the balance plus the superseded amount on a same-epoch one).
  If \<open>b\<close> minus the certificate's total backward-transfer amount would be negative the
  operation returns false; otherwise it returns true and the balance is \<open>b\<close> minus that
  amount.
\<close>

theorem cert_update_debits_or_fails:
  assumes "IsNull256 (prevTopCommittedCertHash (undoAt blockUndo (certScId cert)))"
    and "fst (GetSidechain (certScId cert) c) = Some sc"
    and "epochNumber cert = lastTopQualityCertReferencedEpoch sc + 1 \<or>
         (epochNumber cert = lastTopQualityCertReferencedEpoch sc \<and>
          \<not> quality cert \<le>s lastTopQualityCertQuality sc)"
    and "b = (if epochNumber cert = lastTopQualityCertReferencedEpoch sc + 1 then balance sc
              else balance sc + lastTopQualityCertBwtAmount sc)"
  shows "(sint b - sint (bwtTotalAmount cert) < 0 \<longrightarrow>
            (\<exists>bu' c'. UpdateSidechain_cert cert blockUndo c = Inr (False, bu', c'))) \<and>
         (\<not> sint b - sint (bwtTotalAmount cert) < 0 \<longrightarrow>
            (\<exists>bu' c'. UpdateSidechain_cert cert blockUndo c = Inr (True, bu', c') \<and>
               map_option balance (fst (GetSidechain (certScId cert) c'))
                 = Some (b - bwtTotalAmount cert)))"
proof -
  let ?k = "certScId cert"
  from GetSidechain_Some [OF assms(2)] obtain c0 e where
    h: "HaveSidechain ?k c = (True, c0)" "ModifySidechain ?k c0 = (e, c0)" "sidechain e = sc"
    by blast
  have neg: "sint b - sint (bwtTotalAmount cert) < 0 \<longleftrightarrow> b <s bwtTotalAmount cert"
    by (simp add: word_sless_alt)
  have a1: "IsNull256 (prevTopCommittedCertHash
      (undoAt (blockUndo(?k \<mapsto> undoAt blockUndo ?k)) ?k))"
    using assms(1) by (simp add: undoAt_upd)
  show ?thesis
  proof (cases "epochNumber cert = lastTopQualityCertReferencedEpoch sc + 1")
    case True
    with assms(4) have b: "b = balance sc" by simp
    show ?thesis
      unfolding neg
      using a1 h True b
        UpdateSidechain_debit_result [of cert e
          "sc\<lparr>pastEpochTopQualityCertDataHash := lastTopQualityCertDataHash sc\<rparr>"]
        UpdateSidechain_debit_balance [of
          "sc\<lparr>pastEpochTopQualityCertDataHash := lastTopQualityCertDataHash sc\<rparr>" cert e]
      by (simp add: UpdateSidechain_cert_def Let_def) metis
  next
    case False
    with assms(3) have same: "epochNumber cert = lastTopQualityCertReferencedEpoch sc"
      and q: "\<not> quality cert \<le>s lastTopQualityCertQuality sc" by auto
    from False assms(4) have b: "b = balance sc + lastTopQualityCertBwtAmount sc" by simp
    show ?thesis
      unfolding neg
      using a1 h False same q b
        UpdateSidechain_debit_result [of cert e
          "sc\<lparr>balance := balance sc + lastTopQualityCertBwtAmount sc\<rparr>"]
        UpdateSidechain_debit_balance [of
          "sc\<lparr>balance := balance sc + lastTopQualityCertBwtAmount sc\<rparr>" cert e]
      by (simp add: UpdateSidechain_cert_def Let_def) metis
  qed
qed


theorem cert_update_debits_or_fails_witness:
  "fst (GetSidechain 1 exScCache) = Some exSidechain \<and>
   balance exSidechain = 100 \<and>
   (\<exists>bu' c'. UpdateSidechain_cert exCert Map.empty exScCache = Inr (True, bu', c') \<and>
      map_option balance (fst (GetSidechain 1 c')) = Some 70) \<and>
   sint (100 :: CAmount) - sint (bwtTotalAmount exCertBig) < 0 \<and>
   (\<exists>bu' c'. UpdateSidechain_cert exCertBig Map.empty exScCache = Inr (False, bu', c'))"
proof -
  have a1: "IsNull256 (prevTopCommittedCertHash (undoAt Map.empty (certScId exCert)))"
    and a1': "IsNull256 (prevTopCommittedCertHash (undoAt Map.empty (certScId exCertBig)))"
    by (simp_all add: undoAt_def CSidechainUndoData_init_def IsNull256_def)
  have a2: "fst (GetSidechain (certScId exCert) exScCache) = Some exSidechain"
    and a2': "fst (GetSidechain (certScId exCertBig) exScCache) = Some exSidechain"
    by (simp_all add: GetSidechain_def FetchSidechains_def exScCache_def exCert_def exCertBig_def
        CCoinsViewCache_init_def CCoinsView_init_def Let_def)
  have a3: "epochNumber exCert = lastTopQualityCertReferencedEpoch exSidechain + 1 \<or>
      (epochNumber exCert = lastTopQualityCertReferencedEpoch exSidechain \<and>
       \<not> quality exCert \<le>s lastTopQualityCertQuality exSidechain)"
    and a3': "epochNumber exCertBig = lastTopQualityCertReferencedEpoch exSidechain + 1 \<or>
      (epochNumber exCertBig = lastTopQualityCertReferencedEpoch exSidechain \<and>
       \<not> quality exCertBig \<le>s lastTopQualityCertQuality exSidechain)"
    by (simp_all add: exCert_def exCertBig_def exSidechain_def CSidechain_init_def EPOCH_NULL_def)
  have a4: "100 = (if epochNumber exCert = lastTopQualityCertReferencedEpoch exSidechain + 1
                   then balance exSidechain
                   else balance exSidechain + lastTopQualityCertBwtAmount exSidechain)"
    and a4': "100 = (if epochNumber exCertBig = lastTopQualityCertReferencedEpoch exSidechain + 1
                   then balance exSidechain
                   else balance exSidechain + lastTopQualityCertBwtAmount exSidechain)"
    by (simp_all add: exCert_def exCertBig_def exSidechain_def CSidechain_init_def EPOCH_NULL_def)
  have n: "\<not> sint (100 :: CAmount) - sint (bwtTotalAmount exCert) < 0"
    and n': "sint (100 :: CAmount) - sint (bwtTotalAmount exCertBig) < 0"
    by (simp_all add: exCert_def exCertBig_def)
  have k: "certScId exCert = 1" "certScId exCertBig = 1" "balance exSidechain = 100"
    "(100 :: CAmount) - bwtTotalAmount exCert = 70"
    by (simp_all add: exCert_def exCertBig_def exSidechain_def CSidechain_init_def)
  show ?thesis
    using cert_update_debits_or_fails [OF a1 a2 a3 a4] cert_update_debits_or_fails [OF a1' a2' a3' a4']
      n n' a2 k
    by simp
qed

subsection \<open>Scheduling on a certificate\<close>

lemma AccessSidechain_frame:
  assumes "AccessSidechain k c = (r, c0)"
  shows "cacheSidechainEvents c0 = cacheSidechainEvents c \<and> base c0 = base c \<and>
         cacheCoins c0 = cacheCoins c \<and> cacheAnchors c0 = cacheAnchors c \<and>
         cacheNullifiers c0 = cacheNullifiers c \<and> hasModifier c0 = hasModifier c \<and>
         hashBlock c0 = hashBlock c \<and> hashAnchor c0 = hashAnchor c \<and>
         (\<forall>k'. fst (FetchSidechains k' c0) = fst (FetchSidechains k' c))"
  using assms
  by (auto simp: AccessSidechain_def FetchSidechains_def Let_def split: option.splits if_splits)

lemma FetchSidechainEvents_cong:
  "cacheSidechainEvents c0 = cacheSidechainEvents c \<Longrightarrow> base c0 = base c \<Longrightarrow>
   fst (FetchSidechainEvents h c0) = fst (FetchSidechainEvents h c)"
  by (simp add: FetchSidechainEvents_def Let_def split: option.splits)

lemma HaveSidechainEvents_fst:
  "fst (HaveSidechainEvents h c) =
     (case fst (FetchSidechainEvents h c) of None \<Rightarrow> False | Some e \<Rightarrow> evflag e \<noteq> ERASED)"
  by (simp add: HaveSidechainEvents_def split: prod.splits)

lemma GetSidechainEvents_fst:
  "fst (GetSidechainEvents h c) =
     (case fst (FetchSidechainEvents h c) of None \<Rightarrow> None
      | Some e \<Rightarrow> if evflag e \<noteq> ERASED then Some (scEvents e) else None)"
  by (simp add: GetSidechainEvents_def split: prod.splits)

lemma HaveSidechainEvents_snd: "snd (HaveSidechainEvents h c) = snd (FetchSidechainEvents h c)"
  by (simp add: HaveSidechainEvents_def split: prod.splits)

lemma FetchSidechainEvents_frame:
  assumes "FetchSidechainEvents h c = (r, c1)"
  shows "base c1 = base c \<and> cacheSidechains c1 = cacheSidechains c \<and>
         cacheCoins c1 = cacheCoins c \<and> cacheAnchors c1 = cacheAnchors c \<and>
         cacheNullifiers c1 = cacheNullifiers c \<and> hasModifier c1 = hasModifier c \<and>
         hashBlock c1 = hashBlock c \<and> hashAnchor c1 = hashAnchor c \<and>
         (\<forall>h'. fst (FetchSidechainEvents h' c1) = fst (FetchSidechainEvents h' c)) \<and>
         (\<forall>e. r = Some e \<longrightarrow> cacheSidechainEvents c1 h = Some e)"
  using assms
  by (auto simp: FetchSidechainEvents_def Let_def split: option.splits if_splits)

lemma ModifySidechainEvents_cached:
  "cacheSidechainEvents c h = Some e \<Longrightarrow> ModifySidechainEvents h c = (e, c)"
  by (simp add: ModifySidechainEvents_def)

lemma ModifySidechainEvents_result:
  "ModifySidechainEvents h c =
     (case fst (FetchSidechainEvents h c) of
        None \<Rightarrow> (\<lparr>scEvents = CSidechainEvents_init, evflag = FRESH_ENTRY\<rparr>,
                 setEventsEntry h \<lparr>scEvents = CSidechainEvents_init, evflag = FRESH_ENTRY\<rparr> c)
      | Some e \<Rightarrow> (e, setEventsEntry h e c))"
  by (auto simp: ModifySidechainEvents_def FetchSidechainEvents_def setEventsEntry_def Let_def
      map_upd_triv split: option.splits)


lemma HaveSidechainEvents_eq:
  "HaveSidechainEvents h c =
     ((case fst (FetchSidechainEvents h c) of None \<Rightarrow> False | Some e \<Rightarrow> evflag e \<noteq> ERASED),
      snd (FetchSidechainEvents h c))"
  by (simp add: HaveSidechainEvents_def split: prod.splits)

lemma FetchSidechainEvents_setEventsEntry_other:
  "h' \<noteq> h \<Longrightarrow>
   fst (FetchSidechainEvents h' (setEventsEntry h e c)) = fst (FetchSidechainEvents h' c)"
  by (simp add: FetchSidechainEvents_def setEventsEntry_def Let_def split: option.splits)

lemma sameReads_AccessSidechain: "sameReads c (snd (AccessSidechain k c))"
  using AccessSidechain_frame [of k c "fst (AccessSidechain k c)" "snd (AccessSidechain k c)"]
    FetchSidechainEvents_cong [of "snd (AccessSidechain k c)" c]
  by (simp add: sameReads_def)

lemma FetchSidechains_cong:
  "cacheSidechains c0 = cacheSidechains c \<Longrightarrow> base c0 = base c \<Longrightarrow>
   fst (FetchSidechains k c0) = fst (FetchSidechains k c)"
  by (simp add: FetchSidechains_def Let_def split: option.splits)

lemma sameReads_FetchSidechainEvents: "sameReads c (snd (FetchSidechainEvents h c))"
  using FetchSidechainEvents_frame [of h c "fst (FetchSidechainEvents h c)" "snd (FetchSidechainEvents h c)"]
    FetchSidechains_cong [of "snd (FetchSidechainEvents h c)" c]
  by (simp add: sameReads_def)

lemma sameReads_trans: "sameReads a b \<Longrightarrow> sameReads b c \<Longrightarrow> sameReads a c"
  by (simp add: sameReads_def)

lemma Schedule_cert_present:
  assumes acc: "AccessSidechain (certScId cert) c = (Some sc, c0)"
    and curH: "curH = startH sc (epochNumber cert + 1) + margin sc"
    and nextH: "nextH = curH + withdrawalEpochLength (creationData sc)"
    and f: "FetchSidechainEvents curH c0 = (Some eC, c1)"
    and live: "evflag eC \<noteq> ERASED"
    and ev': "ev' = (scEvents eC)\<lparr>ceasingScs := removeAll (certScId cert) (ceasingScs (scEvents eC))\<rparr>"
    and eC': "eC' = \<lparr>scEvents = ev', evflag = (if EventsIsNull ev' then ERASED else DIRTY_ENTRY)\<rparr>"
    and c2: "c2 = setEventsEntry curH eC' c1"
    and eN: "eN = (case fst (FetchSidechainEvents nextH c2) of
                     None \<Rightarrow> \<lparr>scEvents = CSidechainEvents_init, evflag = FRESH_ENTRY\<rparr>
                   | Some e \<Rightarrow> e)"
  shows "ScheduleSidechainEvent_cert startH margin cert c =
     (True, setEventsEntry nextH
        \<lparr>scEvents = (scEvents eN)\<lparr>ceasingScs := insort_insert (certScId cert) (ceasingScs (scEvents eN))\<rparr>,
         evflag = (if evflag eN = FRESH_ENTRY then FRESH_ENTRY else DIRTY_ENTRY)\<rparr>
        (setEventsEntry nextH eN c2))"
proof -
  from FetchSidechainEvents_frame [OF f] have slot: "cacheSidechainEvents c1 curH = Some eC"
    by simp
  have h: "HaveSidechainEvents curH c0 = (True, c1)"
    using f live by (simp add: HaveSidechainEvents_eq)
  have m: "ModifySidechainEvents curH c1 = (eC, c1)"
    using slot by (rule ModifySidechainEvents_cached)
  have n: "ModifySidechainEvents nextH c2 = (eN, setEventsEntry nextH eN c2)"
    unfolding eN by (simp add: ModifySidechainEvents_result split: option.splits)
  obtain evs fl where eNr: "eN = \<lparr>scEvents = evs, evflag = fl\<rparr>"
    by (cases eN) simp
  show ?thesis
  proof (cases "EventsIsNull ev'")
    case True
    with acc h m n show ?thesis
      unfolding c2 eC' nextH curH eNr
      by (simp add: ScheduleSidechainEvent_cert_def Let_def ev' [symmetric])
  next
    case False
    with acc h m n show ?thesis
      unfolding c2 eC' nextH curH eNr
      by (simp add: ScheduleSidechainEvent_cert_def Let_def ev' [symmetric])
  qed
qed


lemma Schedule_cert_absent:
  assumes acc: "AccessSidechain (certScId cert) c = (Some sc, c0)"
    and curH: "curH = startH sc (epochNumber cert + 1) + margin sc"
    and nextH: "nextH = curH + withdrawalEpochLength (creationData sc)"
    and no: "\<not> fst (HaveSidechainEvents curH c0)"
  shows "ScheduleSidechainEvent_cert startH margin cert c =
     (fst (HaveSidechainEvents nextH (snd (HaveSidechainEvents curH c0))),
      snd (HaveSidechainEvents nextH (snd (HaveSidechainEvents curH c0))))"
proof -
  obtain c1 where h1: "HaveSidechainEvents curH c0 = (False, c1)"
    using no by (cases "HaveSidechainEvents curH c0") auto
  obtain b c2 where h2: "HaveSidechainEvents nextH c1 = (b, c2)"
    by (cases "HaveSidechainEvents nextH c1")
  show ?thesis
    using acc h1 h2 unfolding nextH curH
    by (cases b) (simp_all add: ScheduleSidechainEvent_cert_def Let_def)
qed

text \<open>
  C5: with the sidechain of the certificate known, \<open>curH\<close> the current and \<open>nextH\<close> the next
  ceasing height.  If an event is scheduled at \<open>curH\<close>, the operation returns true; it
  first takes the id out of the ceasing set at \<open>curH\<close> and flags that entry \<^verbatim>\<open>ERASED\<close> if
  it became null and \<^verbatim>\<open>DIRTY\<close> otherwise (the cache \<open>c2\<close>, which reads like \<open>c\<close> at every
  other height), and then stores at \<open>nextH\<close> the entry found there with the id inserted
  into its ceasing set (a new \<^verbatim>\<open>FRESH\<close> entry if there was none; the flag stays \<^verbatim>\<open>FRESH\<close>
  or becomes \<^verbatim>\<open>DIRTY\<close>).  If no event is scheduled at \<open>curH\<close> but one is at \<open>nextH\<close>, the
  operation returns true and every read of the cache gives what it gave before.
\<close>

theorem schedule_cert_moves_ceasing_height:
  assumes "fst (AccessSidechain (certScId cert) c) = Some sc"
    and "curH = startH sc (epochNumber cert + 1) + margin sc"
    and "nextH = curH + withdrawalEpochLength (creationData sc)"
  shows "(\<forall>ev. fst (GetSidechainEvents curH c) = Some ev \<longrightarrow>
           (\<exists>c2 c' eN.
              ScheduleSidechainEvent_cert startH margin cert c = (True, c') \<and>
              cacheSidechainEvents c2 curH =
                Some \<lparr>scEvents = ev\<lparr>ceasingScs := removeAll (certScId cert) (ceasingScs ev)\<rparr>,
                      evflag = (if EventsIsNull (ev\<lparr>ceasingScs := removeAll (certScId cert) (ceasingScs ev)\<rparr>)
                                then ERASED else DIRTY_ENTRY)\<rparr> \<and>
              (\<forall>h. h \<noteq> curH \<longrightarrow> fst (FetchSidechainEvents h c2) = fst (FetchSidechainEvents h c)) \<and>
              cacheSidechainEvents c' = (cacheSidechainEvents c2)(nextH \<mapsto> eN) \<and>
              eN = (case fst (FetchSidechainEvents nextH c2) of
                      None \<Rightarrow> \<lparr>scEvents = \<lparr>maturingScs = [], ceasingScs = [certScId cert]\<rparr>,
                               evflag = FRESH_ENTRY\<rparr>
                    | Some e \<Rightarrow> \<lparr>scEvents = (scEvents e)\<lparr>ceasingScs :=
                                   insort_insert (certScId cert) (ceasingScs (scEvents e))\<rparr>,
                                 evflag = (if evflag e = FRESH_ENTRY then FRESH_ENTRY else DIRTY_ENTRY)\<rparr>) \<and>
              certScId cert \<in> set (ceasingScs (scEvents eN)) \<and>
              (curH \<noteq> nextH \<longrightarrow> cacheSidechainEvents c' curH = cacheSidechainEvents c2 curH))) \<and>
         (fst (GetSidechainEvents curH c) = None \<and> fst (GetSidechainEvents nextH c) \<noteq> None \<longrightarrow>
           (\<exists>c'. ScheduleSidechainEvent_cert startH margin cert c = (True, c') \<and> sameReads c c'))"
proof (intro conjI allI impI)
  obtain c0 where acc: "AccessSidechain (certScId cert) c = (Some sc, c0)"
    using assms(1) by (cases "AccessSidechain (certScId cert) c") auto
  have r0: "sameReads c c0"
    using sameReads_AccessSidechain [of c "certScId cert"] acc by simp
  then have ev0: "fst (FetchSidechainEvents h c0) = fst (FetchSidechainEvents h c)" for h
    by (simp add: sameReads_def)
  {
    fix ev
    assume g: "fst (GetSidechainEvents curH c) = Some ev"
    let ?k = "certScId cert"
    obtain r c1 where f: "FetchSidechainEvents curH c0 = (r, c1)"
      by (cases "FetchSidechainEvents curH c0")
    from g f ev0 [of curH] obtain eC where eC: "r = Some eC" "evflag eC \<noteq> ERASED" "scEvents eC = ev"
      by (auto simp: GetSidechainEvents_fst split: option.splits if_splits)
    define ev' where "ev' = (scEvents eC)\<lparr>ceasingScs := removeAll ?k (ceasingScs (scEvents eC))\<rparr>"
    define eC' where "eC' = \<lparr>scEvents = ev', evflag = (if EventsIsNull ev' then ERASED else DIRTY_ENTRY)\<rparr>"
    define c2 where "c2 = setEventsEntry curH eC' c1"
    define eN0 where "eN0 = (case fst (FetchSidechainEvents nextH c2) of
                  None \<Rightarrow> \<lparr>scEvents = CSidechainEvents_init, evflag = FRESH_ENTRY\<rparr>
                | Some e \<Rightarrow> e)"
    define eN where "eN = \<lparr>scEvents = (scEvents eN0)\<lparr>ceasingScs := insort_insert ?k (ceasingScs (scEvents eN0))\<rparr>,
                evflag = (if evflag eN0 = FRESH_ENTRY then FRESH_ENTRY else DIRTY_ENTRY)\<rparr>"
    define c' where "c' = setEventsEntry nextH eN (setEventsEntry nextH eN0 c2)"
    have run: "ScheduleSidechainEvent_cert startH margin cert c = (True, c')"
      unfolding c'_def eN_def
      by (rule Schedule_cert_present [where startH = startH and margin = margin and sc = sc
          and curH = curH and nextH = nextH, OF acc assms(2,3) f [unfolded eC(1)] eC(2)
          ev'_def eC'_def c2_def eN0_def])
    have f1: "fst (FetchSidechainEvents h c1) = fst (FetchSidechainEvents h c0)" for h
      using FetchSidechainEvents_frame [OF f] by simp
    have other: "\<forall>h. h \<noteq> curH \<longrightarrow> fst (FetchSidechainEvents h c2) = fst (FetchSidechainEvents h c)"
      by (simp add: c2_def FetchSidechainEvents_setEventsEntry_other f1 ev0)
    have s1: "cacheSidechainEvents c2 curH =
                Some \<lparr>scEvents = ev\<lparr>ceasingScs := removeAll (certScId cert) (ceasingScs ev)\<rparr>,
                      evflag = (if EventsIsNull (ev\<lparr>ceasingScs := removeAll (certScId cert) (ceasingScs ev)\<rparr>)
                                then ERASED else DIRTY_ENTRY)\<rparr>"
      by (simp add: c2_def eC'_def ev'_def eC(3) setEventsEntry_def)
    have s2: "cacheSidechainEvents c' = (cacheSidechainEvents c2)(nextH \<mapsto> eN)"
      by (simp add: c'_def setEventsEntry_def)
    have s3: "eN = (case fst (FetchSidechainEvents nextH c2) of
                      None \<Rightarrow> \<lparr>scEvents = \<lparr>maturingScs = [], ceasingScs = [?k]\<rparr>,
                               evflag = FRESH_ENTRY\<rparr>
                    | Some e \<Rightarrow> \<lparr>scEvents = (scEvents e)\<lparr>ceasingScs :=
                                   insort_insert ?k (ceasingScs (scEvents e))\<rparr>,
                                 evflag = (if evflag e = FRESH_ENTRY then FRESH_ENTRY else DIRTY_ENTRY)\<rparr>)"
      by (simp add: eN_def eN0_def CSidechainEvents_init_def insort_insert_key_def split: option.splits)
    have s4: "?k \<in> set (ceasingScs (scEvents eN))"
      by (simp add: eN_def set_insort_insert)
    have s5: "curH \<noteq> nextH \<longrightarrow> cacheSidechainEvents c' curH = cacheSidechainEvents c2 curH"
      by (simp add: s2)
    show "\<exists>c2 c' eN.
              ScheduleSidechainEvent_cert startH margin cert c = (True, c') \<and>
              cacheSidechainEvents c2 curH =
                Some \<lparr>scEvents = ev\<lparr>ceasingScs := removeAll (certScId cert) (ceasingScs ev)\<rparr>,
                      evflag = (if EventsIsNull (ev\<lparr>ceasingScs := removeAll (certScId cert) (ceasingScs ev)\<rparr>)
                                then ERASED else DIRTY_ENTRY)\<rparr> \<and>
              (\<forall>h. h \<noteq> curH \<longrightarrow> fst (FetchSidechainEvents h c2) = fst (FetchSidechainEvents h c)) \<and>
              cacheSidechainEvents c' = (cacheSidechainEvents c2)(nextH \<mapsto> eN) \<and>
              eN = (case fst (FetchSidechainEvents nextH c2) of
                      None \<Rightarrow> \<lparr>scEvents = \<lparr>maturingScs = [], ceasingScs = [certScId cert]\<rparr>,
                               evflag = FRESH_ENTRY\<rparr>
                    | Some e \<Rightarrow> \<lparr>scEvents = (scEvents e)\<lparr>ceasingScs :=
                                   insort_insert (certScId cert) (ceasingScs (scEvents e))\<rparr>,
                                 evflag = (if evflag e = FRESH_ENTRY then FRESH_ENTRY else DIRTY_ENTRY)\<rparr>) \<and>
              certScId cert \<in> set (ceasingScs (scEvents eN)) \<and>
              (curH \<noteq> nextH \<longrightarrow> cacheSidechainEvents c' curH = cacheSidechainEvents c2 curH)"
      using run s1 other s2 s3 s4 s5 by blast
  }
  {
    assume n: "fst (GetSidechainEvents curH c) = None \<and> fst (GetSidechainEvents nextH c) \<noteq> None"
    let ?c1 = "snd (HaveSidechainEvents curH c0)"
    let ?c2 = "snd (HaveSidechainEvents nextH ?c1)"
    have r1: "sameReads c0 ?c1" and r2: "sameReads ?c1 ?c2"
      by (simp_all add: HaveSidechainEvents_snd sameReads_FetchSidechainEvents)
    from r0 r1 r2 have r: "sameReads c ?c2" and r01: "sameReads c ?c1"
      by (blast intro: sameReads_trans)+
    have no: "\<not> fst (HaveSidechainEvents curH c0)"
      using n ev0 [of curH]
      by (auto simp: HaveSidechainEvents_fst GetSidechainEvents_fst split: option.splits if_splits)
    have "fst (FetchSidechainEvents nextH ?c1) = fst (FetchSidechainEvents nextH c)"
      using r01 by (simp add: sameReads_def)
    then have yes: "fst (HaveSidechainEvents nextH ?c1)"
      using n
      by (auto simp: HaveSidechainEvents_fst GetSidechainEvents_fst split: option.splits if_splits)
    show "\<exists>c'. ScheduleSidechainEvent_cert startH margin cert c = (True, c') \<and> sameReads c c'"
      using Schedule_cert_absent [where startH = startH and margin = margin and sc = sc
          and curH = curH and nextH = nextH, OF acc assms(2,3) no] yes r by auto
  }
qed


theorem schedule_cert_moves_ceasing_height_witness:
  "(\<exists>c'. ScheduleSidechainEvent_cert exStartHeightForEpoch exSafeguardMargin exCert (exEventsAt 215)
            = (True, c') \<and>
         cacheSidechainEvents c' 215 =
           Some \<lparr>scEvents = \<lparr>maturingScs = [], ceasingScs = []\<rparr>, evflag = ERASED\<rparr> \<and>
         cacheSidechainEvents c' 225 =
           Some \<lparr>scEvents = \<lparr>maturingScs = [], ceasingScs = [1]\<rparr>, evflag = FRESH_ENTRY\<rparr>) \<and>
   (\<exists>c'. ScheduleSidechainEvent_cert exStartHeightForEpoch exSafeguardMargin exCert (exEventsAt 225)
            = (True, c') \<and>
         sameReads (exEventsAt 225) c')"
proof -
  have acc: "fst (AccessSidechain (certScId exCert) (exEventsAt h)) = Some exSidechain" for h
    by (simp add: AccessSidechain_def FetchSidechains_def exEventsAt_def exCert_def
        CCoinsViewCache_init_def CCoinsView_init_def Let_def)
  have cur: "215 = exStartHeightForEpoch exSidechain (epochNumber exCert + 1)
                    + exSafeguardMargin exSidechain"
    by (simp add: exStartHeightForEpoch_def exSafeguardMargin_def exSidechain_def exCert_def
        CSidechain_init_def)
  have nxt: "(225 :: cint) = 215 + withdrawalEpochLength (creationData exSidechain)"
    by (simp add: exSidechain_def CSidechain_init_def)
  have g: "fst (GetSidechainEvents 215 (exEventsAt 215)) = Some \<lparr>maturingScs = [], ceasingScs = [1]\<rparr>"
    and g225: "fst (FetchSidechainEvents 225 (exEventsAt 215)) = None"
    and n: "fst (GetSidechainEvents 215 (exEventsAt 225)) = None
            \<and> fst (GetSidechainEvents 225 (exEventsAt 225)) \<noteq> None"
    by (simp_all add: GetSidechainEvents_def FetchSidechainEvents_def exEventsAt_def
        CCoinsViewCache_init_def CCoinsView_init_def Let_def)
  have k: "certScId exCert = 1"
    by (simp add: exCert_def)
  note thm215 = schedule_cert_moves_ceasing_height [where startH = exStartHeightForEpoch
      and margin = exSafeguardMargin, OF acc cur nxt, of 215]
  from thm215 [THEN conjunct1, rule_format, OF g]
  obtain c2 c' eN where
    r: "ScheduleSidechainEvent_cert exStartHeightForEpoch exSafeguardMargin exCert (exEventsAt 215) = (True, c')"
    and s1': "cacheSidechainEvents c2 215 =
                Some \<lparr>scEvents = \<lparr>maturingScs = [], ceasingScs = [1]\<rparr>
                        \<lparr>ceasingScs := removeAll (certScId exCert) (ceasingScs \<lparr>maturingScs = [], ceasingScs = [1]\<rparr>)\<rparr>,
                      evflag = (if EventsIsNull (\<lparr>maturingScs = [], ceasingScs = [1]\<rparr>
                        \<lparr>ceasingScs := removeAll (certScId exCert) (ceasingScs \<lparr>maturingScs = [], ceasingScs = [1]\<rparr>)\<rparr>)
                                then ERASED else DIRTY_ENTRY)\<rparr>"
    and o: "\<forall>h. h \<noteq> 215 \<longrightarrow> fst (FetchSidechainEvents h c2) = fst (FetchSidechainEvents h (exEventsAt 215))"
    and s2: "cacheSidechainEvents c' = (cacheSidechainEvents c2)(225 \<mapsto> eN)"
    and s3': "eN = (case fst (FetchSidechainEvents 225 c2) of
                      None \<Rightarrow> \<lparr>scEvents = \<lparr>maturingScs = [], ceasingScs = [certScId exCert]\<rparr>,
                               evflag = FRESH_ENTRY\<rparr>
                    | Some e \<Rightarrow> \<lparr>scEvents = (scEvents e)\<lparr>ceasingScs :=
                                   insort_insert (certScId exCert) (ceasingScs (scEvents e))\<rparr>,
                                 evflag = (if evflag e = FRESH_ENTRY then FRESH_ENTRY else DIRTY_ENTRY)\<rparr>)"
    by blast
  from s1' have s1: "cacheSidechainEvents c2 215 =
               Some \<lparr>scEvents = \<lparr>maturingScs = [], ceasingScs = []\<rparr>, evflag = ERASED\<rparr>"
    by (simp add: k EventsIsNull_def)
  note s3 = s3' [unfolded k]
  from o g225 have "fst (FetchSidechainEvents 225 c2) = None" by simp
  with s3 have eN: "eN = \<lparr>scEvents = \<lparr>maturingScs = [], ceasingScs = [1]\<rparr>, evflag = FRESH_ENTRY\<rparr>"
    by simp
  have first: "\<exists>c'. ScheduleSidechainEvent_cert exStartHeightForEpoch exSafeguardMargin exCert (exEventsAt 215)
            = (True, c') \<and>
         cacheSidechainEvents c' 215 =
           Some \<lparr>scEvents = \<lparr>maturingScs = [], ceasingScs = []\<rparr>, evflag = ERASED\<rparr> \<and>
         cacheSidechainEvents c' 225 =
           Some \<lparr>scEvents = \<lparr>maturingScs = [], ceasingScs = [1]\<rparr>, evflag = FRESH_ENTRY\<rparr>"
    using r s1 s2 eN by simp
  have second: "\<exists>c'. ScheduleSidechainEvent_cert exStartHeightForEpoch exSafeguardMargin exCert (exEventsAt 225)
            = (True, c') \<and> sameReads (exEventsAt 225) c'"
    using schedule_cert_moves_ceasing_height [where startH = exStartHeightForEpoch
      and margin = exSafeguardMargin, OF acc cur nxt, of 225] n
    by blast
  from first second show ?thesis by blast
qed

subsection \<open>The block-undo format\<close>

lemma nCode_decode:
  fixes h :: "32 word"
  assumes "unat h < 2 ^ 31"
  shows "(h * 2 + (if c then 1 else 0)) div 2 = h"
    and "((h * 2 + (if c then 1 else 0)) AND 1 \<noteq> 0) = c"
proof -
  let ?n = "h * 2 + (if c then 1 else 0)"
  have u: "unat ?n = unat h * 2 + (if c then 1 else 0)"
    using assms by (simp add: unat_word_ariths)
  have "unat (?n div 2) = unat h"
    by (simp only: unat_div u) simp
  then show "?n div 2 = h"
    by (rule word_unat_eq_iff [THEN iffD2])
  have "unat (?n AND 1) = (if c then 1 else 0)"
    by (simp only: and_one_eq unat_mod u) simp
  then show "(?n AND 1 \<noteq> 0) = c"
    by (cases c) (auto simp: unat_eq_0 [symmetric] simp del: and_one_eq )
qed

lemma CTxInUndo_round_trip:
  assumes "CTxInUndo_recoverable cd u"
  shows "CTxInUndo_Unserialize cd (CTxInUndo_Serialize cd u @ s) CTxInUndo_init = Some (u, s)"
proof -
  from assms have h: "unat (u_nHeight u) < 2 ^ 31"
    and c: "\<And>s. unser (VARINT_uint cd) (ser (VARINT_uint cd)
              (u_nHeight u * 2 + (if u_fCoinBase u then 1 else 0)) @ s)
            = Some (u_nHeight u * 2 + (if u_fCoinBase u then 1 else 0), s)"
    and t: "\<And>s. unser (CTxOutCompressor cd) (ser (CTxOutCompressor cd) (txout u) @ s)
            = Some (txout u, s)"
    by (simp_all add: CTxInUndo_recoverable_def readsBack_def)
  note d = nCode_decode [OF h, of "u_fCoinBase u"]
  show ?thesis
  proof (cases "0 < u_nHeight u")
    case False
    with assms have "u_nVersion u = 0" "u_nFirstBwtPos u = BWT_POS_UNSET" "u_nBwtMaturityHeight u = 0"
      by (simp_all add: CTxInUndo_recoverable_def)
    with False show ?thesis
      by (simp add: CTxInUndo_Unserialize_def CTxInUndo_Serialize_def c t d Let_def
          CTxInUndo_init_def CTxInUndo_of_def)
  next
    case True
    with assms have v: "\<And>s. unser (VARINT_int cd) (ser (VARINT_int cd) (u_nVersion u) @ s)
            = Some (u_nVersion u, s)"
      by (simp add: CTxInUndo_recoverable_def readsBack_def)
    show ?thesis
    proof (cases "u_nVersion u AND 0x7f = SC_CERT_VERSION cd AND 0x7f")
      case False
      with assms True have "u_nFirstBwtPos u = BWT_POS_UNSET" "u_nBwtMaturityHeight u = 0"
        by (simp_all add: CTxInUndo_recoverable_def)
      with True False show ?thesis
        by (simp add: CTxInUndo_Unserialize_def CTxInUndo_Serialize_def c t d v Let_def
            CTxInUndo_init_def CTxInUndo_of_def)
    next
      case cert: True
      with assms True have
        p: "\<And>s. unser (Ser_int cd) (ser (Ser_int cd) (u_nFirstBwtPos u) @ s)
            = Some (u_nFirstBwtPos u, s)"
        and m: "\<And>s. unser (Ser_int cd) (ser (Ser_int cd) (u_nBwtMaturityHeight u) @ s)
            = Some (u_nBwtMaturityHeight u, s)"
        by (simp_all add: CTxInUndo_recoverable_def readsBack_def)
      from True cert show ?thesis
        by (simp add: CTxInUndo_Unserialize_def CTxInUndo_Serialize_def c t d v p m Let_def
            CTxInUndo_init_def CTxInUndo_of_def)
    qed
  qed
qed

lemma AddEntriesInVector_length:
  "AddEntriesInVector rd n v s = Some (v', s') \<Longrightarrow> length v' = length v + n"
proof (induction n arbitrary: v s)
  case 0
  then show ?case by simp
next
  case (Suc n)
  then show ?case
    by (auto split: option.splits)
qed

lemma AddEntriesInVector_round_trip:
  assumes "\<forall>x \<in> set xs. \<forall>s. rd (wr x @ s) = Some (x, s)"
  shows "AddEntriesInVector rd (length xs) v (concat (map wr xs) @ rest) = Some (v @ xs, rest)"
  using assms
proof (induction xs arbitrary: v)
  case Nil
  then show ?case by simp
next
  case (Cons x xs)
  then show ?case by simp
qed

lemma UnserializeVector_round_trip:
  assumes "sizeReadsBack cd (length xs)"
    and "\<forall>x \<in> set xs. \<forall>s. rd (wr x @ s) = Some (x, s)"
  shows "UnserializeVector cd rd (SerializeVector cd wr xs @ rest) = Some (xs, rest)"
  using assms(1) AddEntriesInVector_round_trip [OF assms(2), of "[]" rest]
  by (simp add: UnserializeVector_def SerializeVector_def sizeReadsBack_def)

lemma CTxInUndo_vector_round_trip:
  assumes "vector_recoverable cd (CTxInUndo_recoverable cd) xs"
  shows "UnserializeVector cd (\<lambda>s'. CTxInUndo_Unserialize cd s' CTxInUndo_init)
           (SerializeVector cd (CTxInUndo_Serialize cd) xs @ rest) = Some (xs, rest)"
proof (rule UnserializeVector_round_trip)
  from assms show "sizeReadsBack cd (length xs)"
    by (simp add: vector_recoverable_def)
  from assms show "\<forall>x \<in> set xs. \<forall>s.
      CTxInUndo_Unserialize cd (CTxInUndo_Serialize cd x @ s) CTxInUndo_init = Some (x, s)"
    by (simp add: vector_recoverable_def list_all_iff CTxInUndo_round_trip)
qed

lemma CTxUndo_round_trip:
  assumes "CTxUndo_recoverable cd t"
  shows "CTxUndo_Unserialize cd (CTxUndo_Serialize cd t @ s) CTxUndo_init = Some (t, s)"
  using CTxInUndo_vector_round_trip [of cd "vprevout t" s] assms
  by (simp add: CTxUndo_Unserialize_def CTxUndo_Serialize_def CTxUndo_recoverable_def
      CTxUndo_init_def)

lemma CTxUndo_vector_round_trip:
  assumes "vector_recoverable cd (CTxUndo_recoverable cd) xs"
  shows "UnserializeVector cd (\<lambda>s'. CTxUndo_Unserialize cd s' CTxUndo_init)
           (SerializeVector cd (CTxUndo_Serialize cd) xs @ rest) = Some (xs, rest)"
proof (rule UnserializeVector_round_trip)
  from assms show "sizeReadsBack cd (length xs)"
    by (simp add: vector_recoverable_def)
  from assms show "\<forall>x \<in> set xs. \<forall>s.
      CTxUndo_Unserialize cd (CTxUndo_Serialize cd x @ s) CTxUndo_init = Some (x, s)"
    by (simp add: vector_recoverable_def list_all_iff CTxUndo_round_trip)
qed

lemma Unserialize_SIDECHAIN_STATE_round_trip:
  assumes "CSidechainUndoData_recoverable cd u"
    and "h_contentBitMask w = h_contentBitMask u"
    and "h_contentBitMask u AND h_SIDECHAIN_STATE = 0 \<Longrightarrow>
           h_prevTopCommittedCertReferencedEpoch w = EPOCH_NULL \<and>
           h_prevTopCommittedCertHash w = 0 \<and>
           h_prevTopCommittedCertQuality w = QUALITY_NULL \<and>
           h_prevTopCommittedCertBwtAmount w = 0 \<and>
           h_prevTopCommittedCertDataHash w = []"
  shows "Unserialize_SIDECHAIN_STATE cd
           ((if h_contentBitMask u AND h_SIDECHAIN_STATE \<noteq> 0
             then ser (Ser_int cd) (h_prevTopCommittedCertReferencedEpoch u)
                  @ ser (Ser_uint256 cd) (h_prevTopCommittedCertHash u)
                  @ ser (Ser_int64 cd) (h_prevTopCommittedCertQuality u)
                  @ ser (Ser_int64 cd) (h_prevTopCommittedCertBwtAmount u)
                  @ ser (Ser_ScFieldElement cd) (h_prevTopCommittedCertDataHash u)
             else []) @ s) w
         = Some (w\<lparr>h_prevTopCommittedCertReferencedEpoch := h_prevTopCommittedCertReferencedEpoch u,
                    h_prevTopCommittedCertHash := h_prevTopCommittedCertHash u,
                    h_prevTopCommittedCertQuality := h_prevTopCommittedCertQuality u,
                    h_prevTopCommittedCertBwtAmount := h_prevTopCommittedCertBwtAmount u,
                    h_prevTopCommittedCertDataHash := h_prevTopCommittedCertDataHash u\<rparr>, s)"
proof (cases "h_contentBitMask u AND h_SIDECHAIN_STATE = 0")
  case True
  with assms(1) assms(3) show ?thesis
    by (simp add: Unserialize_SIDECHAIN_STATE_def assms(2) CSidechainUndoData_recoverable_def)
next
  case False
  with assms(1) have
    "\<And>s. unser (Ser_int cd) (ser (Ser_int cd) (h_prevTopCommittedCertReferencedEpoch u) @ s)
       = Some (h_prevTopCommittedCertReferencedEpoch u, s)"
    "\<And>s. unser (Ser_uint256 cd) (ser (Ser_uint256 cd) (h_prevTopCommittedCertHash u) @ s)
       = Some (h_prevTopCommittedCertHash u, s)"
    "\<And>s. unser (Ser_int64 cd) (ser (Ser_int64 cd) (h_prevTopCommittedCertQuality u) @ s)
       = Some (h_prevTopCommittedCertQuality u, s)"
    "\<And>s. unser (Ser_int64 cd) (ser (Ser_int64 cd) (h_prevTopCommittedCertBwtAmount u) @ s)
       = Some (h_prevTopCommittedCertBwtAmount u, s)"
    "\<And>s. unser (Ser_ScFieldElement cd) (ser (Ser_ScFieldElement cd) (h_prevTopCommittedCertDataHash u) @ s)
       = Some (h_prevTopCommittedCertDataHash u, s)"
    by (simp_all add: CSidechainUndoData_recoverable_def readsBack_def)
  with False show ?thesis
    by (simp add: Unserialize_SIDECHAIN_STATE_def assms(2))
qed

lemma Unserialize_MATURED_AMOUNTS_round_trip:
  assumes "CSidechainUndoData_recoverable cd u"
    and "h_contentBitMask w = h_contentBitMask u"
    and "h_contentBitMask u AND h_MATURED_AMOUNTS = 0 \<Longrightarrow> h_appliedMaturedAmount w = 0"
  shows "Unserialize_MATURED_AMOUNTS cd
           ((if h_contentBitMask u AND h_MATURED_AMOUNTS \<noteq> 0
             then ser (Ser_int64 cd) (h_appliedMaturedAmount u) else []) @ s) w
         = Some (w\<lparr>h_appliedMaturedAmount := h_appliedMaturedAmount u\<rparr>, s)"
proof (cases "h_contentBitMask u AND h_MATURED_AMOUNTS = 0")
  case True
  with assms(1) assms(3) show ?thesis
    by (simp add: Unserialize_MATURED_AMOUNTS_def assms(2) CSidechainUndoData_recoverable_def)
next
  case False
  with assms(1) have
    "\<And>s. unser (Ser_int64 cd) (ser (Ser_int64 cd) (h_appliedMaturedAmount u) @ s)
       = Some (h_appliedMaturedAmount u, s)"
    by (simp_all add: CSidechainUndoData_recoverable_def readsBack_def)
  with False show ?thesis
    by (simp add: Unserialize_MATURED_AMOUNTS_def assms(2))
qed

lemma Unserialize_SUPERSEDED_CERT_DATA_round_trip:
  assumes "CSidechainUndoData_recoverable cd u"
    and "h_contentBitMask w = h_contentBitMask u"
    and "h_contentBitMask u AND h_SUPERSEDED_CERT_DATA = 0 \<Longrightarrow> h_lowQualityBwts w = []"
  shows "Unserialize_SUPERSEDED_CERT_DATA cd
           ((if h_contentBitMask u AND h_SUPERSEDED_CERT_DATA \<noteq> 0
             then SerializeVector cd (CTxInUndo_Serialize cd) (h_lowQualityBwts u) else []) @ s) w
         = Some (w\<lparr>h_lowQualityBwts := h_lowQualityBwts u\<rparr>, s)"
proof (cases "h_contentBitMask u AND h_SUPERSEDED_CERT_DATA = 0")
  case True
  with assms(1) assms(3) show ?thesis
    by (simp add: Unserialize_SUPERSEDED_CERT_DATA_def assms(2) CSidechainUndoData_recoverable_def)
next
  case False
  with assms(1) have "vector_recoverable cd (CTxInUndo_recoverable cd) (h_lowQualityBwts u)"
    by (simp add: CSidechainUndoData_recoverable_def)
  from CTxInUndo_vector_round_trip [OF this, of s] False show ?thesis
    by (simp add: Unserialize_SUPERSEDED_CERT_DATA_def assms(2))
qed

lemma Unserialize_CEASED_CERTIFICATE_DATA_round_trip:
  assumes "CSidechainUndoData_recoverable cd u"
    and "h_contentBitMask w = h_contentBitMask u"
    and "h_contentBitMask u AND h_CEASED_CERTIFICATE_DATA = 0 \<Longrightarrow> h_ceasedBwts w = []"
  shows "Unserialize_CEASED_CERTIFICATE_DATA cd
           ((if h_contentBitMask u AND h_CEASED_CERTIFICATE_DATA \<noteq> 0
             then SerializeVector cd (CTxInUndo_Serialize cd) (h_ceasedBwts u) else []) @ s) w
         = Some (w\<lparr>h_ceasedBwts := h_ceasedBwts u\<rparr>, s)"
proof (cases "h_contentBitMask u AND h_CEASED_CERTIFICATE_DATA = 0")
  case True
  with assms(1) assms(3) show ?thesis
    by (simp add: Unserialize_CEASED_CERTIFICATE_DATA_def assms(2) CSidechainUndoData_recoverable_def)
next
  case False
  with assms(1) have "vector_recoverable cd (CTxInUndo_recoverable cd) (h_ceasedBwts u)"
    by (simp add: CSidechainUndoData_recoverable_def)
  from CTxInUndo_vector_round_trip [OF this, of s] False show ?thesis
    by (simp add: Unserialize_CEASED_CERTIFICATE_DATA_def assms(2))
qed

lemma CSidechainUndoData_round_trip:
  assumes "CSidechainUndoData_recoverable cd u"
  shows "CSidechainUndoData_Unserialize cd (CSidechainUndoData_Serialize cd u @ s)
           CSidechainUndoData_h_init = Some (u, s)"
proof -
  from assms have
    v: "\<And>s. unser (Ser_uint32 cd) (ser (Ser_uint32 cd) (h_sidechainUndoDataVersion u) @ s)
          = Some (h_sidechainUndoDataVersion u, s)"
    and m: "\<And>s. unser (Ser_uint8 cd) (ser (Ser_uint8 cd) (h_contentBitMask u) @ s)
          = Some (h_contentBitMask u, s)"
    by (simp_all add: CSidechainUndoData_recoverable_def readsBack_def)
  show ?thesis
    by (simp add: CSidechainUndoData_Unserialize_def CSidechainUndoData_Serialize_def v m
        Unserialize_SIDECHAIN_STATE_round_trip [OF assms]
        Unserialize_MATURED_AMOUNTS_round_trip [OF assms]
        Unserialize_SUPERSEDED_CERT_DATA_round_trip [OF assms]
        Unserialize_CEASED_CERTIFICATE_DATA_round_trip [OF assms]
        CSidechainUndoData_h_init_def)
qed

lemma AddEntriesInMap_round_trip:
  assumes "distinct ks" and "\<forall>k \<in> set ks. k |\<notin>| fmdom acc"
    and "\<forall>k \<in> set ks. \<forall>s. rdK (wrK k @ s) = Some (k, s)"
    and "\<forall>k \<in> set ks. \<forall>s. rdV (wrV (f k) @ s) = Some (f k, s)"
  shows "AddEntriesInMap rdK rdV (length ks) acc
           (concat (map (\<lambda>(k, v). wrK k @ wrV v) (map (\<lambda>k. (k, f k)) ks)) @ rest)
         = Some (fold (\<lambda>k a. fmupd k (f k) a) ks acc, rest)"
  using assms
proof (induction ks arbitrary: acc)
  case Nil
  then show ?case by simp
next
  case (Cons k ks)
  have "\<forall>k' \<in> set ks. k' |\<notin>| fmdom (fmupd k (f k) acc)"
    using Cons.prems(1,2) by auto
  with Cons.IH [of "fmupd k (f k) acc"] Cons.prems show ?case
    by simp
qed

lemma fmlookup_fold_fmupd:
  "fmlookup (fold (\<lambda>k a. fmupd k (f k) a) ks acc) x
     = (if x \<in> set ks then Some (f x) else fmlookup acc x)"
  by (induction ks arbitrary: acc) auto

lemma fold_fmupd_entries:
  "fold (\<lambda>k a. fmupd k (the (fmlookup m k)) a) (sorted_list_of_fset (fmdom m)) fmempty = m"
proof (rule fmap_ext)
  fix x
  show "fmlookup (fold (\<lambda>k a. fmupd k (the (fmlookup m k)) a) (sorted_list_of_fset (fmdom m)) fmempty) x
      = fmlookup m x"
    by (cases "fmlookup m x") (auto simp: fmlookup_fold_fmupd fmdom_notI dest: fmdom_notD fmdomI)
qed

lemma UnserializeMap_round_trip:
  assumes "sizeReadsBack cd (length (map_entries m))"
    and "list_all (\<lambda>(k, v). (\<forall>s. rdK (wrK k @ s) = Some (k, s)) \<and> (\<forall>s. rdV (wrV v @ s) = Some (v, s)))
           (map_entries m)"
  shows "UnserializeMap cd rdK rdV (SerializeMap cd wrK wrV m @ rest) = Some (m, rest)"
proof -
  let ?ks = "sorted_list_of_fset (fmdom m)"
  let ?f = "\<lambda>k. the (fmlookup m k)"
  have d: "distinct ?ks"
    by (simp add: sorted_list_of_fset.rep_eq)
  have k: "\<forall>k \<in> set ?ks. \<forall>s. rdK (wrK k @ s) = Some (k, s)"
    and v: "\<forall>k \<in> set ?ks. \<forall>s. rdV (wrV (?f k) @ s) = Some (?f k, s)"
    using assms(2) by (simp_all add: map_entries_def list_all_iff)
  have "AddEntriesInMap rdK rdV (length ?ks) fmempty
           (concat (map (\<lambda>(k, v). wrK k @ wrV v) (map (\<lambda>k. (k, ?f k)) ?ks)) @ rest)
         = Some (fold (\<lambda>k a. fmupd k (?f k) a) ?ks fmempty, rest)"
    by (rule AddEntriesInMap_round_trip [OF d _ k v]) simp
  with assms(1) show ?thesis
    by (simp add: UnserializeMap_def SerializeMap_def sizeReadsBack_def map_entries_def
        fold_fmupd_entries)
qed

lemma marker_value: "unat marker = 65535"
  by (simp add: marker_def)

lemma scUndo_round_trip:
  assumes "includesSidechainAttributes b" and "CBlockUndo_recoverable cd b"
  shows "UnserializeMap cd (unser (Ser_uint256 cd))
           (\<lambda>s'. CSidechainUndoData_Unserialize cd s' CSidechainUndoData_h_init)
           (SerializeMap cd (ser (Ser_uint256 cd)) (CSidechainUndoData_Serialize cd)
              (scUndoDatabyScId b) @ rest)
         = Some (scUndoDatabyScId b, rest)"
proof (rule UnserializeMap_round_trip)
  from assms show "sizeReadsBack cd (length (map_entries (scUndoDatabyScId b)))"
    by (simp add: CBlockUndo_recoverable_def)
  from assms have "list_all (\<lambda>(k, v). readsBack (Ser_uint256 cd) k \<and> CSidechainUndoData_recoverable cd v)
      (map_entries (scUndoDatabyScId b))"
    by (simp add: CBlockUndo_recoverable_def)
  then show "list_all (\<lambda>(k, v). (\<forall>s. unser (Ser_uint256 cd) (ser (Ser_uint256 cd) k @ s) = Some (k, s)) \<and>
        (\<forall>s. CSidechainUndoData_Unserialize cd (CSidechainUndoData_Serialize cd v @ s)
               CSidechainUndoData_h_init = Some (v, s)))
      (map_entries (scUndoDatabyScId b))"
    by (auto simp: list_all_iff readsBack_def CSidechainUndoData_round_trip)
qed

lemma Unserialize_new_round_trip:
  assumes "includesSidechainAttributes b" and "CBlockUndo_recoverable cd b"
  shows "Unserialize cd (Serialize cd b @ rest) b0 = Some (b, rest)"
proof -
  from assms have
    m: "\<And>s. ReadCompactSize cd (WriteCompactSize cd (unat marker) @ s) = Some (unat marker, s)"
    and x: "vector_recoverable cd (CTxUndo_recoverable cd) (vtxundo b)"
    and h: "\<And>s. unser (Ser_uint256 cd) (ser (Ser_uint256 cd) (old_tree_root b) @ s)
             = Some (old_tree_root b, s)"
    by (simp_all add: CBlockUndo_recoverable_def sizeReadsBack_def readsBack_def)
  have mm: "unat marker mod 4294967296 = unat marker"
    by (simp add: marker_value)
  show ?thesis
    using assms(1)
    by (simp add: Unserialize_def Serialize_def m mm Let_def h
        CTxUndo_vector_round_trip [OF x] scUndo_round_trip [OF assms])
qed

lemma Unserialize_legacy_round_trip:
  assumes "\<not> includesSidechainAttributes b" and "length (vtxundo b) \<le> MAX_BLOCK_SIZE div MIN_TX_SIZE"
    and "CBlockUndo_recoverable cd b"
  shows "Unserialize cd (Serialize cd b @ rest) b0
           = Some (b\<lparr>scUndoDatabyScId := scUndoDatabyScId b0\<rparr>, rest)"
proof -
  from assms(3) have
    l: "\<And>s. ReadCompactSize cd (WriteCompactSize cd (length (vtxundo b)) @ s)
             = Some (length (vtxundo b), s)"
    and x: "\<forall>x \<in> set (vtxundo b). \<forall>s.
             CTxUndo_Unserialize cd (CTxUndo_Serialize cd x @ s) CTxUndo_init = Some (x, s)"
    and h: "\<And>s. unser (Ser_uint256 cd) (ser (Ser_uint256 cd) (old_tree_root b) @ s)
             = Some (old_tree_root b, s)"
    by (simp_all add: CBlockUndo_recoverable_def vector_recoverable_def sizeReadsBack_def
        readsBack_def list_all_iff CTxUndo_round_trip)
  from assms(2) have small: "length (vtxundo b) \<le> 32786"
    by (simp add: MAX_BLOCK_SIZE_def MIN_TX_SIZE_def)
  then have mm: "length (vtxundo b) mod 4294967296 = length (vtxundo b)"
    and ne: "length (vtxundo b) \<noteq> unat marker"
    by (simp_all add: marker_value)
  show ?thesis
    using assms(1) ne
    by (simp add: Unserialize_def Serialize_def SerializeVector_def l mm Let_def h
        AddEntriesInVector_round_trip [OF x, of "[]", simplified])
qed

lemma Unserialize_new_format:
  assumes "ReadCompactSize cd s = Some (n, s0)" and "n mod 2 ^ 32 = unat marker"
    and "Unserialize cd s b0 = Some (b', rest)"
  shows "includesSidechainAttributes b' \<and>
         (\<exists>s1 s2. UnserializeVector cd (\<lambda>s'. CTxUndo_Unserialize cd s' CTxUndo_init) s0
                     = Some (vtxundo b', s1) \<and>
            unser (Ser_uint256 cd) s1 = Some (old_tree_root b', s2) \<and>
            UnserializeMap cd (unser (Ser_uint256 cd))
                (\<lambda>s'. CSidechainUndoData_Unserialize cd s' CSidechainUndoData_h_init) s2
              = Some (scUndoDatabyScId b', rest))"
  using assms
  by (auto simp: Unserialize_def Let_def split: option.splits)

lemma Unserialize_legacy_format:
  assumes "ReadCompactSize cd s = Some (n, s0)" and "n mod 2 ^ 32 \<noteq> unat marker"
    and "Unserialize cd s b0 = Some (b', rest)"
  shows "\<not> includesSidechainAttributes b' \<and> length (vtxundo b') = n mod 2 ^ 32 \<and>
         scUndoDatabyScId b' = scUndoDatabyScId b0 \<and>
         (\<exists>s1. AddEntriesInVector (\<lambda>s'. CTxUndo_Unserialize cd s' CTxUndo_init) (n mod 2 ^ 32) [] s0
                  = Some (vtxundo b', s1) \<and>
            unser (Ser_uint256 cd) s1 = Some (old_tree_root b', rest))"
  using assms
    AddEntriesInVector_length [of "\<lambda>s'. CTxUndo_Unserialize cd s' CTxUndo_init" "n mod 2 ^ 32" "[]" s0]
  by (auto simp: Unserialize_def Let_def split: option.splits)

lemma map_entries_empty: "map_entries fmempty = []"
  by (simp add: map_entries_def sorted_list_of_fset.rep_eq)

lemma map_entries_single: "map_entries (fmupd k v fmempty) = [(k, v)]"
  by (simp add: map_entries_def sorted_list_of_fset.rep_eq)

lemma Serialize_exBlockUndo:
  "Serialize exCodec exBlockUndo
     = [253, 255, 255, 1, 2, 0, 30, 2, 1, 2, 201, 1, 40, 0, 5, 1, 1, 0, 10, 100, 1, 220, 123, 50, 0, 1, 120]"
  by (simp add: Serialize_def SerializeVector_def SerializeMap_def map_entries_single
      CTxUndo_Serialize_def CTxInUndo_Serialize_def CSidechainUndoData_Serialize_def
      exBlockUndo_def exSpentLast_def exCertLast_def exScUndo_def CTxInUndo_of_def
      CSidechainUndoData_h_init_def exCodec_def byteEnc_def sbyteEnc_def exTxOutEnc_def
      exBytesEnc_def marker_value h_SIDECHAIN_STATE_def h_MATURED_AMOUNTS_def
      h_SUPERSEDED_CERT_DATA_def h_CEASED_CERTIFICATE_DATA_def h_UNDEFINED_def BWT_POS_UNSET_def)

lemma exBlockUndo_recoverable: "CBlockUndo_recoverable exCodec exBlockUndo"
  by (simp add: CBlockUndo_recoverable_def vector_recoverable_def CTxUndo_recoverable_def
      CTxInUndo_recoverable_def CSidechainUndoData_recoverable_def readsBack_def
      sizeReadsBack_def map_entries_single
      exBlockUndo_def exSpentLast_def exCertLast_def exScUndo_def CTxInUndo_of_def
      CSidechainUndoData_h_init_def exCodec_def byteEnc_def sbyteEnc_def exTxOutEnc_def
      exBytesEnc_def marker_value h_SIDECHAIN_STATE_def h_MATURED_AMOUNTS_def
      h_SUPERSEDED_CERT_DATA_def h_CEASED_CERTIFICATE_DATA_def h_UNDEFINED_def BWT_POS_UNSET_def
      EPOCH_NULL_def QUALITY_NULL_def)

lemma Unserialize_flag_round_trip:
  assumes "includesSidechainAttributes b" and "sizeReadsBack cd (unat marker)"
    and "Unserialize cd (Serialize cd b @ rest) b0 = Some (b', rest')"
  shows "includesSidechainAttributes b'"
proof -
  let ?s0 = "SerializeVector cd (CTxUndo_Serialize cd) (vtxundo b)
             @ ser (Ser_uint256 cd) (old_tree_root b)
             @ SerializeMap cd (ser (Ser_uint256 cd)) (CSidechainUndoData_Serialize cd)
                 (scUndoDatabyScId b) @ rest"
  from assms(1,2) have "ReadCompactSize cd (Serialize cd b @ rest) = Some (unat marker, ?s0)"
    by (simp add: Serialize_def sizeReadsBack_def)
  moreover have "unat marker mod 2 ^ 32 = unat marker"
    by (simp add: marker_value)
  ultimately show ?thesis
    using Unserialize_new_format [of cd "Serialize cd b @ rest" "unat marker" ?s0 b0 b' rest'] assms(3)
    by blast
qed

text \<open>
  C8: reading a block undo whose leading compact size (as held in \<^verbatim>\<open>nSize\<close>) is the marker
  \<open>0xffff\<close> reads the transaction undos, the tree root and the per-sidechain undo data,
  and sets \<^verbatim>\<open>includesSidechainAttributes\<close>; with any other leading compact size it reads
  that many transaction undos and the tree root, leaves the per-sidechain undo data of
  the object untouched and clears the flag.  The marker exceeds
  \<^verbatim>\<open>MAX_BLOCK_SIZE / MIN_TX_SIZE\<close>.  What \<^verbatim>\<open>Serialize\<close> wrote for a new-format undo is read
  as the new format whenever the marker's compact size is read back: the flag is
  recovered.  The contents are recovered when the undo is recoverable: every value that
  is written is read back by its primitive encoding, heights are below \<open>2^31\<close>, and every
  field that the encoding of an input undo or of a sidechain undo record leaves out holds
  its default value.  Under the same condition a legacy undo of a feasible number of
  transactions is recovered too.
\<close>

theorem block_undo_marker_format:
  "(\<forall>n s0 b' rest. ReadCompactSize cd s = Some (n, s0) \<and> n mod 2 ^ 32 = unat marker \<and>
        Unserialize cd s b0 = Some (b', rest) \<longrightarrow>
      includesSidechainAttributes b' \<and>
      (\<exists>s1 s2. UnserializeVector cd (\<lambda>s'. CTxUndo_Unserialize cd s' CTxUndo_init) s0
                  = Some (vtxundo b', s1) \<and>
         unser (Ser_uint256 cd) s1 = Some (old_tree_root b', s2) \<and>
         UnserializeMap cd (unser (Ser_uint256 cd))
             (\<lambda>s'. CSidechainUndoData_Unserialize cd s' CSidechainUndoData_h_init) s2
           = Some (scUndoDatabyScId b', rest))) \<and>
   (\<forall>n s0 b' rest. ReadCompactSize cd s = Some (n, s0) \<and> n mod 2 ^ 32 \<noteq> unat marker \<and>
        Unserialize cd s b0 = Some (b', rest) \<longrightarrow>
      \<not> includesSidechainAttributes b' \<and> length (vtxundo b') = n mod 2 ^ 32 \<and>
      scUndoDatabyScId b' = scUndoDatabyScId b0 \<and>
      (\<exists>s1. AddEntriesInVector (\<lambda>s'. CTxUndo_Unserialize cd s' CTxUndo_init) (n mod 2 ^ 32) [] s0
               = Some (vtxundo b', s1) \<and>
         unser (Ser_uint256 cd) s1 = Some (old_tree_root b', rest))) \<and>
   unat marker = 65535 \<and> MAX_BLOCK_SIZE div MIN_TX_SIZE < unat marker \<and>
   (\<forall>b' rest. includesSidechainAttributes b \<and> sizeReadsBack cd (unat marker) \<and>
        Unserialize cd (Serialize cd b @ after) b0 = Some (b', rest) \<longrightarrow>
      includesSidechainAttributes b') \<and>
   (includesSidechainAttributes b \<and> CBlockUndo_recoverable cd b \<longrightarrow>
      Unserialize cd (Serialize cd b @ after) b0 = Some (b, after)) \<and>
   (\<not> includesSidechainAttributes b \<and> length (vtxundo b) \<le> MAX_BLOCK_SIZE div MIN_TX_SIZE \<and>
      CBlockUndo_recoverable cd b \<longrightarrow>
      Unserialize cd (Serialize cd b @ after) b0 = Some (b\<lparr>scUndoDatabyScId := scUndoDatabyScId b0\<rparr>, after))"
proof (intro conjI allI impI)
  show "unat marker = 65535" by (rule marker_value)
  show "MAX_BLOCK_SIZE div MIN_TX_SIZE < unat marker"
    by (simp add: marker_value MAX_BLOCK_SIZE_def MIN_TX_SIZE_def)
qed (use Unserialize_new_format [of cd s _ _ b0] Unserialize_legacy_format [of cd s _ _ b0]
      Unserialize_flag_round_trip [of b cd after b0]
      Unserialize_new_round_trip [of b cd after b0] Unserialize_legacy_round_trip [of b cd after b0]
     in \<open>blast+\<close>)

theorem block_undo_marker_format_witness:
  "CBlockUndo_recoverable exCodec exBlockUndo \<and>
   includesSidechainAttributes exBlockUndo \<and>
   Serialize exCodec exBlockUndo
     = [253, 255, 255, 1, 2, 0, 30, 2, 1, 2, 201, 1, 40, 0, 5, 1, 1, 0, 10, 100, 1, 220, 123, 50, 0, 1, 120] \<and>
   Unserialize exCodec
       ([253, 255, 255, 1, 2, 0, 30, 2, 1, 2, 201, 1, 40, 0, 5, 1, 1, 0, 10, 100, 1, 220, 123, 50, 0, 1, 120]
          @ [9]) CBlockUndo_init
     = Some (exBlockUndo, [9]) \<and>
   Serialize exCodec (exBlockUndo\<lparr>includesSidechainAttributes := False\<rparr>)
     = [1, 2, 0, 30, 2, 1, 2, 201, 1, 40, 0, 5] \<and>
   Unserialize exCodec ([1, 2, 0, 30, 2, 1, 2, 201, 1, 40, 0, 5] @ [9])
       (CBlockUndo_init\<lparr>scUndoDatabyScId := fmupd 2 CSidechainUndoData_h_init fmempty\<rparr>)
     = Some (exBlockUndo\<lparr>includesSidechainAttributes := False,
               scUndoDatabyScId := fmupd 2 CSidechainUndoData_h_init fmempty\<rparr>, [9])"
proof -
  note rt = exBlockUndo_recoverable
  have rt': "CBlockUndo_recoverable exCodec (exBlockUndo\<lparr>includesSidechainAttributes := False\<rparr>)"
    using rt by (simp add: CBlockUndo_recoverable_def)
  have inc: "includesSidechainAttributes exBlockUndo"
    by (simp add: exBlockUndo_def)
  note s1 = Serialize_exBlockUndo
  have s2: "Serialize exCodec (exBlockUndo\<lparr>includesSidechainAttributes := False\<rparr>)
      = [1, 2, 0, 30, 2, 1, 2, 201, 1, 40, 0, 5]"
    by (simp add: Serialize_def SerializeVector_def CTxUndo_Serialize_def CTxInUndo_Serialize_def
        exBlockUndo_def exSpentLast_def CTxInUndo_of_def exCodec_def byteEnc_def sbyteEnc_def
        exTxOutEnc_def BWT_POS_UNSET_def)
  have small: "length (vtxundo (exBlockUndo\<lparr>includesSidechainAttributes := False\<rparr>))
      \<le> MAX_BLOCK_SIZE div MIN_TX_SIZE"
    by (simp add: exBlockUndo_def MAX_BLOCK_SIZE_def MIN_TX_SIZE_def)
  note new' = block_undo_marker_format [of exCodec "[]" CBlockUndo_init exBlockUndo "[9]",
      THEN conjunct2, THEN conjunct2, THEN conjunct2, THEN conjunct2, THEN conjunct2, THEN conjunct1]
  note old = block_undo_marker_format [of exCodec "[]"
      "CBlockUndo_init\<lparr>scUndoDatabyScId := fmupd 2 CSidechainUndoData_h_init fmempty\<rparr>"
      "exBlockUndo\<lparr>includesSidechainAttributes := False\<rparr>" "[9]",
      THEN conjunct2, THEN conjunct2, THEN conjunct2, THEN conjunct2, THEN conjunct2, THEN conjunct2]
  from new' inc rt have u1: "Unserialize exCodec (Serialize exCodec exBlockUndo @ [9]) CBlockUndo_init
      = Some (exBlockUndo, [9])"
    by blast
  from old small rt' have u2: "Unserialize exCodec
       (Serialize exCodec (exBlockUndo\<lparr>includesSidechainAttributes := False\<rparr>) @ [9])
       (CBlockUndo_init\<lparr>scUndoDatabyScId := fmupd 2 CSidechainUndoData_h_init fmempty\<rparr>)
     = Some (exBlockUndo\<lparr>includesSidechainAttributes := False,
               scUndoDatabyScId := fmupd 2 CSidechainUndoData_h_init fmempty\<rparr>, [9])"
    by (simp add: CBlockUndo_init_def)
  show ?thesis
    using rt inc s1 s2 u1 [unfolded s1] u2 [unfolded s2] by simp
qed

lemmas exCodec_simps = exCodec_def byteEnc_def sbyteEnc_def exTxOutEnc_def exBytesEnc_def

lemmas undo_h_simps =
  Serialize_def Unserialize_def SerializeVector_def UnserializeVector_def SerializeMap_def
  UnserializeMap_def CTxUndo_Serialize_def CTxUndo_Unserialize_def CTxInUndo_Serialize_def
  CTxInUndo_Unserialize_def CSidechainUndoData_Serialize_def CSidechainUndoData_Unserialize_def
  Unserialize_SIDECHAIN_STATE_def Unserialize_MATURED_AMOUNTS_def
  Unserialize_SUPERSEDED_CERT_DATA_def Unserialize_CEASED_CERTIFICATE_DATA_def
  CBlockUndo_init_def CTxUndo_init_def CTxInUndo_init_def CTxInUndo_of_def
  CSidechainUndoData_h_init_def h_SIDECHAIN_STATE_def h_MATURED_AMOUNTS_def
  h_SUPERSEDED_CERT_DATA_def h_CEASED_CERTIFICATE_DATA_def h_UNDEFINED_def BWT_POS_UNSET_def
  EPOCH_NULL_def QUALITY_NULL_def marker_value map_entries_single map_entries_empty Let_def

lemma Serialize_exUndoVersion:
  "Serialize exCodec exUndoVersion = [253, 255, 255, 1, 1, 0, 30, 0, 0, 0]"
  by (simp add: exUndoVersion_def undo_h_simps exCodec_simps)

lemma Unserialize_exUndoVersion:
  "Unserialize exCodec [253, 255, 255, 1, 1, 0, 30, 0, 0, 0] CBlockUndo_init
     = Some (CBlockUndo_init\<lparr>vtxundo :=
               [\<lparr>vprevout = [CTxInUndo_of \<lparr>nValue = 30, scriptPubKey = []\<rparr>]\<rparr>]\<rparr>, [])"
  by (simp add: undo_h_simps exCodec_simps)

lemma Serialize_exUndoAmount:
  "Serialize exCodec exUndoAmount = [253, 255, 255, 0, 0, 1, 1, 0, 0]"
  by (simp add: exUndoAmount_def undo_h_simps exCodec_simps)

lemma Unserialize_exUndoAmount:
  "Unserialize exCodec [253, 255, 255, 0, 0, 1, 1, 0, 0] CBlockUndo_init
     = Some (CBlockUndo_init\<lparr>scUndoDatabyScId := fmupd 1 CSidechainUndoData_h_init fmempty\<rparr>, [])"
  by (simp add: undo_h_simps exCodec_simps)

lemma Serialize_exUndoHeight:
  "Serialize exCodec exUndoHeight = [253, 255, 255, 1, 1, 0, 0, 30, 0, 0, 0]"
  by (simp add: exUndoHeight_def undo_h_simps exCodec_simps)

lemma Unserialize_exUndoHeight:
  "Unserialize exCodec [253, 255, 255, 1, 1, 0, 0, 30, 0, 0, 0] CBlockUndo_init = None"
  by (simp add: undo_h_simps exCodec_simps)

text \<open>
  The round trip of C8 does not hold for every new-format undo.  \<open>exUndoVersion\<close> holds an
  input undo of height 0 and version 7.  \<^verbatim>\<open>CTxInUndo::Serialize\<close> writes the code 0 and the
  output, and no version, since \<^verbatim>\<open>nHeight > 0\<close> fails; \<^verbatim>\<open>CTxInUndo::Unserialize\<close> reads the
  code 0, reads no version, and the element, which the vector reader default-constructed,
  keeps the version 0.  Every primitive value that is written here is read back: what is
  lost is the field that is not written.
\<close>

theorem block_undo_round_trip_counterexample:
  "includesSidechainAttributes exUndoVersion \<and>
   vtxundo exUndoVersion
     = [\<lparr>vprevout = [\<lparr>txout = \<lparr>nValue = 30, scriptPubKey = []\<rparr>, u_fCoinBase = False,
                       u_nHeight = 0, u_nVersion = 7, u_nFirstBwtPos = BWT_POS_UNSET,
                       u_nBwtMaturityHeight = 0\<rparr>]\<rparr>] \<and>
   Serialize exCodec exUndoVersion = [253, 255, 255, 1, 1, 0, 30, 0, 0, 0] \<and>
   Unserialize exCodec (Serialize exCodec exUndoVersion) CBlockUndo_init
     = Some (exUndoVersion\<lparr>vtxundo :=
               [\<lparr>vprevout = [\<lparr>txout = \<lparr>nValue = 30, scriptPubKey = []\<rparr>, u_fCoinBase = False,
                                 u_nHeight = 0, u_nVersion = 0, u_nFirstBwtPos = BWT_POS_UNSET,
                                 u_nBwtMaturityHeight = 0\<rparr>]\<rparr>]\<rparr>, []) \<and>
   Unserialize exCodec (Serialize exCodec exUndoVersion) CBlockUndo_init \<noteq> Some (exUndoVersion, [])"
  by (simp add: Serialize_exUndoVersion Unserialize_exUndoVersion)
    (simp add: exUndoVersion_def CBlockUndo_init_def CTxInUndo_of_def)

text \<open>
  The same loss with any primitive encodings: the bytes of an input undo of height 0 do
  not depend on its version, and those of a sidechain undo record whose mask does not
  flag the matured amount do not depend on that amount.  A height that is read is half of
  a 32-bit code, hence below \<open>2^31\<close>.
\<close>

lemma CTxInUndo_Serialize_ignores_version:
  "u_nHeight u = 0 \<Longrightarrow> CTxInUndo_Serialize cd (u\<lparr>u_nVersion := v\<rparr>) = CTxInUndo_Serialize cd u"
  by (simp add: CTxInUndo_Serialize_def)

lemma CSidechainUndoData_Serialize_ignores_amount:
  "h_contentBitMask u AND h_MATURED_AMOUNTS = 0 \<Longrightarrow>
   CSidechainUndoData_Serialize cd (u\<lparr>h_appliedMaturedAmount := a\<rparr>) = CSidechainUndoData_Serialize cd u"
  by (simp add: CSidechainUndoData_Serialize_def)

lemma CTxInUndo_Unserialize_height:
  assumes "CTxInUndo_Unserialize cd s u0 = Some (u, s')"
  shows "unat (u_nHeight u) < 2 ^ 31"
proof -
  have half: "unat (n div 2) < 2 ^ 31" for n :: "32 word"
    using unsigned_less [of n, where 'a = nat] by (simp add: unat_div)
  from assms obtain n where "u_nHeight u = n div 2"
    by (auto simp: CTxInUndo_Unserialize_def Let_def bind_eq_Some_conv
        split: if_splits)
  with half show ?thesis
    by simp
qed

text \<open>
  Two more new-format undos that are not recovered: an applied matured amount in a record
  whose mask is 0 comes back as 0, and the code of the height \<open>2^31\<close> wraps to 0, so that
  the reader, which then expects no version, takes the bytes that follow for the output.
\<close>

lemma block_undo_round_trip_unflagged_section:
  "Serialize exCodec exUndoAmount = [253, 255, 255, 0, 0, 1, 1, 0, 0] \<and>
   Unserialize exCodec (Serialize exCodec exUndoAmount) CBlockUndo_init
     = Some (exUndoAmount\<lparr>scUndoDatabyScId := fmupd 1 CSidechainUndoData_h_init fmempty\<rparr>, []) \<and>
   Unserialize exCodec (Serialize exCodec exUndoAmount) CBlockUndo_init \<noteq> Some (exUndoAmount, [])"
proof -
  have "fmlookup (scUndoDatabyScId exUndoAmount) 1 \<noteq> fmlookup (fmupd 1 CSidechainUndoData_h_init fmempty) 1"
    by (simp add: exUndoAmount_def CSidechainUndoData_h_init_def)
  then have "scUndoDatabyScId exUndoAmount \<noteq> fmupd 1 CSidechainUndoData_h_init fmempty"
    by metis
  then have "exUndoAmount \<noteq> CBlockUndo_init\<lparr>scUndoDatabyScId := fmupd 1 CSidechainUndoData_h_init fmempty\<rparr>"
    by (metis CBlockUndo.select_convs(4) CBlockUndo.surjective CBlockUndo.update_convs(4))
  then show ?thesis
    by (simp add: Serialize_exUndoAmount Unserialize_exUndoAmount) (simp add: exUndoAmount_def)
qed

lemma block_undo_round_trip_height_wraps:
  "Serialize exCodec exUndoHeight = [253, 255, 255, 1, 1, 0, 0, 30, 0, 0, 0] \<and>
   Unserialize exCodec (Serialize exCodec exUndoHeight) CBlockUndo_init = None"
  by (simp add: Serialize_exUndoHeight Unserialize_exUndoHeight)

text \<open>
  The conditions on the fields that are left out are necessary, whatever the primitive
  encodings: what the readers return is canonical.
\<close>

lemma CTxInUndo_Unserialize_canonical:
  assumes "CTxInUndo_Unserialize cd s CTxInUndo_init = Some (u, s')"
  shows "CTxInUndo_canonical cd u"
proof -
  from assms obtain nCode s1 u2 s2 t s3 where
    v: "(if 0 < nCode div 2
         then map_option (\<lambda>(v, s2). (CTxInUndo_init\<lparr>u_nHeight := nCode div 2,
                 u_fCoinBase := (nCode AND 1 \<noteq> 0), u_nVersion := v\<rparr>, s2))
                (unser (VARINT_int cd) s1)
         else Some (CTxInUndo_init\<lparr>u_nHeight := nCode div 2, u_fCoinBase := (nCode AND 1 \<noteq> 0)\<rparr>, s1))
        = Some (u2, s2)"
    and r: "(if 0 < u_nHeight u2 \<and> u_nVersion u2 AND 0x7f = SC_CERT_VERSION cd AND 0x7f
         then Option.bind (unser (Ser_int cd) s3) (\<lambda>(p, s4).
              Option.bind (unser (Ser_int cd) s4) (\<lambda>(h, s5).
                Some (u2\<lparr>txout := t, u_nFirstBwtPos := p, u_nBwtMaturityHeight := h\<rparr>, s5)))
         else Some (u2\<lparr>txout := t\<rparr>, s3)) = Some (u, s')"
    by (auto simp: CTxInUndo_Unserialize_def Let_def bind_eq_Some_conv)
  have "unat (nCode div 2) < 2 ^ 31"
    using unsigned_less [of nCode, where 'a = nat] by (simp add: unat_div)
  with v have u2: "unat (u_nHeight u2) < 2 ^ 31" "0 < u_nHeight u2 \<or> u_nVersion u2 = 0"
    "u_nFirstBwtPos u2 = BWT_POS_UNSET" "u_nBwtMaturityHeight u2 = 0"
    by (auto simp: CTxInUndo_init_def CTxInUndo_of_def split: if_splits)
  show ?thesis
  proof (cases "0 < u_nHeight u2 \<and> u_nVersion u2 AND 0x7f = SC_CERT_VERSION cd AND 0x7f")
    case True
    with r obtain p h where "u = u2\<lparr>txout := t, u_nFirstBwtPos := p, u_nBwtMaturityHeight := h\<rparr>"
      by (auto simp: bind_eq_Some_conv)
    with True u2 show ?thesis
      by (simp add: CTxInUndo_canonical_def)
  next
    case False
    with r have "u = u2\<lparr>txout := t\<rparr>"
      by simp
    with False u2 show ?thesis
      by (auto simp: CTxInUndo_canonical_def)
  qed
qed

lemma AddEntriesInVector_list_all:
  assumes "AddEntriesInVector rd n v s = Some (v', s')"
    and "\<And>s x s'. rd s = Some (x, s') \<Longrightarrow> P x" and "list_all P v"
  shows "list_all P v'"
  using assms
proof (induction n arbitrary: v s)
  case 0
  then show ?case by simp
next
  case (Suc n)
  from Suc.prems(1) obtain x s1 where r: "rd s = Some (x, s1)"
    and a: "AddEntriesInVector rd n (v @ [x]) s1 = Some (v', s')"
    by (auto split: option.splits)
  from Suc.prems(2) [OF r] Suc.prems(3) have "list_all P (v @ [x])"
    by simp
  from Suc.IH [OF a Suc.prems(2) this] show ?case .
qed

lemma UnserializeVector_list_all:
  assumes "UnserializeVector cd rd s = Some (v', s')"
    and "\<And>s x s'. rd s = Some (x, s') \<Longrightarrow> P x"
  shows "list_all P v'"
proof -
  from assms(1) obtain n s0 where "AddEntriesInVector rd n [] s0 = Some (v', s')"
    by (auto simp: UnserializeVector_def split: option.splits)
  from AddEntriesInVector_list_all [OF this assms(2)] show ?thesis
    by simp
qed

lemma CTxInUndo_vector_canonical:
  assumes "UnserializeVector cd (\<lambda>s'. CTxInUndo_Unserialize cd s' CTxInUndo_init) s = Some (v, s')"
  shows "list_all (CTxInUndo_canonical cd) v"
  using UnserializeVector_list_all [OF assms] CTxInUndo_Unserialize_canonical
  by blast

lemma CTxUndo_Unserialize_canonical:
  assumes "CTxUndo_Unserialize cd s t0 = Some (t, s')"
  shows "list_all (CTxInUndo_canonical cd) (vprevout t)"
  using assms CTxInUndo_vector_canonical [of cd s]
  by (auto simp: CTxUndo_Unserialize_def split: option.splits)

lemma CSidechainUndoData_Unserialize_canonical:
  assumes "CSidechainUndoData_Unserialize cd s CSidechainUndoData_h_init = Some (u, s')"
  shows "CSidechainUndoData_canonical cd u"
proof -
  from assms obtain ver s1 mask s2 u3 s3 u4 s4 u5 s5 where
    a: "Unserialize_SIDECHAIN_STATE cd s2
          (CSidechainUndoData_h_init\<lparr>h_sidechainUndoDataVersion := ver, h_contentBitMask := mask\<rparr>)
        = Some (u3, s3)"
    and b: "Unserialize_MATURED_AMOUNTS cd s3 u3 = Some (u4, s4)"
    and c: "Unserialize_SUPERSEDED_CERT_DATA cd s4 u4 = Some (u5, s5)"
    and d: "Unserialize_CEASED_CERTIFICATE_DATA cd s5 u5 = Some (u, s')"
    by (auto simp: CSidechainUndoData_Unserialize_def bind_eq_Some_conv)
  from a have u3: "h_contentBitMask u3 = mask" "h_appliedMaturedAmount u3 = 0"
    "h_lowQualityBwts u3 = []" "h_ceasedBwts u3 = []"
    "mask AND h_SIDECHAIN_STATE = 0 \<Longrightarrow>
       h_prevTopCommittedCertReferencedEpoch u3 = EPOCH_NULL \<and> h_prevTopCommittedCertHash u3 = 0 \<and>
       h_prevTopCommittedCertQuality u3 = QUALITY_NULL \<and> h_prevTopCommittedCertBwtAmount u3 = 0 \<and>
       h_prevTopCommittedCertDataHash u3 = []"
    by (auto simp: Unserialize_SIDECHAIN_STATE_def CSidechainUndoData_h_init_def bind_eq_Some_conv
        split: if_splits)
  from b obtain a4 where u4: "u4 = u3\<lparr>h_appliedMaturedAmount := a4\<rparr>"
    "mask AND h_MATURED_AMOUNTS = 0 \<Longrightarrow> a4 = 0"
    using u3(1,2) by (auto simp: Unserialize_MATURED_AMOUNTS_def bind_eq_Some_conv split: if_splits)
  from c obtain v5 where u5: "u5 = u4\<lparr>h_lowQualityBwts := v5\<rparr>"
    "mask AND h_SUPERSEDED_CERT_DATA = 0 \<Longrightarrow> v5 = []" "list_all (CTxInUndo_canonical cd) v5"
    using u3(1,3) u4(1) CTxInUndo_vector_canonical [of cd s4]
    by (auto simp: Unserialize_SUPERSEDED_CERT_DATA_def bind_eq_Some_conv split: if_splits)
  from d obtain v6 where u6: "u = u5\<lparr>h_ceasedBwts := v6\<rparr>"
    "mask AND h_CEASED_CERTIFICATE_DATA = 0 \<Longrightarrow> v6 = []" "list_all (CTxInUndo_canonical cd) v6"
    using u3(1,4) u4(1) u5(1) CTxInUndo_vector_canonical [of cd s5]
    by (auto simp: Unserialize_CEASED_CERTIFICATE_DATA_def bind_eq_Some_conv split: if_splits)
  show ?thesis
    using u3 u4 u5 u6 by (simp add: CSidechainUndoData_canonical_def)
qed

lemma AddEntriesInMap_values:
  assumes "AddEntriesInMap rdK rdV n m s = Some (m', s')"
    and "\<And>s x s'. rdV s = Some (x, s') \<Longrightarrow> P x"
    and "\<And>k v. fmlookup m k = Some v \<Longrightarrow> P v"
    and "fmlookup m' k = Some v"
  shows "P v"
  using assms(1,3)
proof (induction n arbitrary: m s)
  case 0
  with assms(4) show ?case by simp
next
  case (Suc n)
  from Suc.prems(1) obtain k1 s1 v1 s2 where v: "rdV s1 = Some (v1, s2)"
    and a: "AddEntriesInMap rdK rdV n (if k1 |\<in>| fmdom m then m else fmupd k1 v1 m) s2 = Some (m', s')"
    by (auto split: option.splits)
  have "P w" if "fmlookup (if k1 |\<in>| fmdom m then m else fmupd k1 v1 m) j = Some w" for j w
    using that Suc.prems(2) assms(2) [OF v] by (auto split: if_splits)
  from Suc.IH [OF a this] show ?case .
qed

lemma map_entries_lookup:
  "(k, v) \<in> set (map_entries m) \<Longrightarrow> fmlookup m k = Some v"
  by (auto simp: map_entries_def dest: fmdomI)

lemma Unserialize_canonical:
  assumes "Unserialize cd s b0 = Some (b', rest)" and "includesSidechainAttributes b'"
  shows "CBlockUndo_canonical cd b'"
proof -
  from assms(1) obtain n s0 where rc: "ReadCompactSize cd s = Some (n, s0)"
    by (cases "ReadCompactSize cd s") (auto simp: Unserialize_def Let_def)
  have mk: "n mod 2 ^ 32 = unat marker"
    using Unserialize_legacy_format [OF rc _ assms(1)] assms(2) by blast
  from Unserialize_new_format [OF rc mk assms(1)] obtain s1 s2 where
    v: "UnserializeVector cd (\<lambda>s'. CTxUndo_Unserialize cd s' CTxUndo_init) s0 = Some (vtxundo b', s1)"
    and m: "UnserializeMap cd (unser (Ser_uint256 cd))
              (\<lambda>s'. CSidechainUndoData_Unserialize cd s' CSidechainUndoData_h_init) s2
            = Some (scUndoDatabyScId b', rest)"
    by blast
  have tx: "list_all (\<lambda>t. list_all (CTxInUndo_canonical cd) (vprevout t)) (vtxundo b')"
    by (rule UnserializeVector_list_all [OF v]) (rule CTxUndo_Unserialize_canonical)
  from m obtain n' s3 where am: "AddEntriesInMap (unser (Ser_uint256 cd))
        (\<lambda>s'. CSidechainUndoData_Unserialize cd s' CSidechainUndoData_h_init) n' fmempty s3
      = Some (scUndoDatabyScId b', rest)"
    by (cases "ReadCompactSize cd s2") (auto simp: UnserializeMap_def)
  have val: "CSidechainUndoData_canonical cd w" if "fmlookup (scUndoDatabyScId b') k = Some w" for k w
    by (rule AddEntriesInMap_values [OF am _ _ that])
      (simp_all add: CSidechainUndoData_Unserialize_canonical)
  have sc: "list_all (\<lambda>(k, v). CSidechainUndoData_canonical cd v) (map_entries (scUndoDatabyScId b'))"
    unfolding list_all_iff using val map_entries_lookup by fastforce
  from tx sc show ?thesis
    by (simp add: CBlockUndo_canonical_def)
qed

lemma round_trip_only_if_canonical:
  assumes "includesSidechainAttributes b"
    and "Unserialize cd (Serialize cd b @ rest) b0 = Some (b, rest)"
  shows "CBlockUndo_canonical cd b"
  using Unserialize_canonical [OF assms(2) assms(1)] .

lemma recoverable_canonical:
  assumes "includesSidechainAttributes b" and "CBlockUndo_recoverable cd b"
  shows "CBlockUndo_canonical cd b"
  using round_trip_only_if_canonical [OF assms(1) Unserialize_new_round_trip [OF assms, of "[]" b]] .

subsection \<open>Handling the events of a height\<close>

lemma FetchSidechains_frame:
  assumes "FetchSidechains k c = (r, c1)"
  shows "base c1 = base c \<and> cacheSidechainEvents c1 = cacheSidechainEvents c \<and>
         (\<forall>k'. k' \<noteq> k \<longrightarrow> cacheSidechains c1 k' = cacheSidechains c k') \<and>
         (\<forall>e. cacheSidechains c k = Some e \<longrightarrow> c1 = c \<and> r = Some e) \<and>
         (\<forall>e. r = Some e \<longrightarrow> cacheSidechains c1 k = Some e) \<and>
         (r = None \<longrightarrow> c1 = c \<and> cacheSidechains c k = None)"
  using assms
  by (auto simp: FetchSidechains_def Let_def split: option.splits)

lemma HandleMaturing_Inr:
  assumes "HandleMaturing h x (bu, c) = Inr (bu1, c1)"
  shows "\<exists>sc a. fst (GetSidechain x c) = Some sc \<and> mImmatureAmounts sc h = Some a \<and>
           cacheSidechains c1 x = Some \<lparr>sidechain = sc\<lparr>balance := balance sc + a,
               mImmatureAmounts := (mImmatureAmounts sc)(h := None)\<rparr>, flag = DIRTY_ENTRY\<rparr> \<and>
           undoAt bu1 x = (undoAt bu x)\<lparr>appliedMaturedAmount := a,
               contentBitMask := insert MATURED_AMOUNTS (contentBitMask (undoAt bu x))\<rparr> \<and>
           (\<forall>k. k \<noteq> x \<longrightarrow> cacheSidechains c1 k = cacheSidechains c k \<and> bu1 k = bu k) \<and>
           base c1 = base c \<and> cacheSidechainEvents c1 = cacheSidechainEvents c"
proof -
  obtain b c0 where h: "HaveSidechain x c = (b, c0)"
    by (cases "HaveSidechain x c")
  with assms have b: "b = True"
    by (cases b) (auto simp: HandleMaturing_def)
  from HaveSidechain_True [OF h [unfolded b]] obtain e where
    e: "cacheSidechains c0 x = Some e" "GetSidechain x c = (Some (sidechain e), c0)"
       "ModifySidechain x c0 = (e, c0)"
    by blast
  from assms h b e obtain a where a: "mImmatureAmounts (sidechain e) h = Some a"
    by (auto simp: HandleMaturing_def split: option.splits)
  obtain r where f: "FetchSidechains x c = (r, c0)"
    using h by (auto simp: HaveSidechain_def split: prod.splits)
  note fr = FetchSidechains_frame [OF f]
  from assms h b e a have
    c1: "c1 = setSidechainEntry x \<lparr>sidechain = (sidechain e)\<lparr>balance := balance (sidechain e) + a,
               mImmatureAmounts := (mImmatureAmounts (sidechain e))(h := None)\<rparr>, flag = DIRTY_ENTRY\<rparr> c0"
    and bu1: "bu1 = bu(x \<mapsto> (undoAt bu x)\<lparr>appliedMaturedAmount := a,
               contentBitMask := insert MATURED_AMOUNTS (contentBitMask (undoAt bu x))\<rparr>)"
    by (auto simp: HandleMaturing_def Let_def undoAt_upd)
  show ?thesis
    using e(2) a fr
    by (auto simp: c1 bu1 setSidechainEntry_def undoAt_upd)
qed


lemma GetSidechain_cong:
  "cacheSidechains c1 k = cacheSidechains c k \<Longrightarrow> base c1 = base c \<Longrightarrow>
   fst (GetSidechain k c1) = fst (GetSidechain k c)"
  by (simp add: GetSidechain_def FetchSidechains_def Let_def split: option.splits)

lemma GetSidechain_cached:
  "cacheSidechains c k = Some e \<Longrightarrow>
   fst (GetSidechain k c) = (if flag e \<noteq> ERASED then Some (sidechain e) else None)"
  by (simp add: GetSidechain_def FetchSidechains_def)

lemma maturing_loop_frame:
  assumes "foldE (HandleMaturing h) xs (bu, c) = Inr (bu', c')"
  shows "base c' = base c \<and> cacheSidechainEvents c' = cacheSidechainEvents c \<and>
         (\<forall>k. k \<notin> set xs \<longrightarrow> cacheSidechains c' k = cacheSidechains c k \<and> bu' k = bu k)"
  using assms
proof (induction xs arbitrary: bu c)
  case Nil
  then show ?case by simp
next
  case (Cons x xs)
  from Cons.prems obtain bu1 c1 where
    st: "HandleMaturing h x (bu, c) = Inr (bu1, c1)"
    and rest: "foldE (HandleMaturing h) xs (bu1, c1) = Inr (bu', c')"
    by (auto split: sum.splits)
  from HandleMaturing_Inr [OF st] Cons.IH [OF rest] show ?case
    by auto
qed

lemma maturing_loop_once:
  assumes "foldE (HandleMaturing h) xs (bu, c) = Inr (bu', c')"
    and "cacheSidechains c k = Some e" and "mImmatureAmounts (sidechain e) h = None"
  shows "k \<notin> set xs"
  using assms
proof (induction xs arbitrary: bu c)
  case Nil
  then show ?case by simp
next
  case (Cons x xs)
  from Cons.prems(1) obtain bu1 c1 where
    st: "HandleMaturing h x (bu, c) = Inr (bu1, c1)"
    and rest: "foldE (HandleMaturing h) xs (bu1, c1) = Inr (bu', c')"
    by (auto split: sum.splits)
  from HandleMaturing_Inr [OF st] obtain sc a where
    x: "fst (GetSidechain x c) = Some sc" "mImmatureAmounts sc h = Some a"
    and other: "\<forall>k. k \<noteq> x \<longrightarrow> cacheSidechains c1 k = cacheSidechains c k"
    by blast
  have ne: "k \<noteq> x"
  proof
    assume "k = x"
    with x Cons.prems(2,3) show False
      by (auto simp: GetSidechain_cached split: if_splits)
  qed
  with other Cons.prems(2) have "cacheSidechains c1 k = Some e" by simp
  from Cons.IH [OF rest this Cons.prems(3)] ne show ?case by simp
qed

lemma maturing_loop_entry:
  assumes "foldE (HandleMaturing h) xs (bu, c) = Inr (bu', c')" and "k \<in> set xs"
  shows "\<exists>sc a. fst (GetSidechain k c) = Some sc \<and> mImmatureAmounts sc h = Some a \<and>
           cacheSidechains c' k = Some \<lparr>sidechain = sc\<lparr>balance := balance sc + a,
               mImmatureAmounts := (mImmatureAmounts sc)(h := None)\<rparr>, flag = DIRTY_ENTRY\<rparr> \<and>
           undoAt bu' k = (undoAt bu k)\<lparr>appliedMaturedAmount := a,
               contentBitMask := insert MATURED_AMOUNTS (contentBitMask (undoAt bu k))\<rparr>"
  using assms
proof (induction xs arbitrary: bu c)
  case Nil
  then show ?case by simp
next
  case (Cons x xs)
  from Cons.prems(1) obtain bu1 c1 where
    st: "HandleMaturing h x (bu, c) = Inr (bu1, c1)"
    and rest: "foldE (HandleMaturing h) xs (bu1, c1) = Inr (bu', c')"
    by (auto split: sum.splits)
  from HandleMaturing_Inr [OF st] obtain sc a where
    x: "fst (GetSidechain x c) = Some sc" "mImmatureAmounts sc h = Some a"
       "cacheSidechains c1 x = Some \<lparr>sidechain = sc\<lparr>balance := balance sc + a,
               mImmatureAmounts := (mImmatureAmounts sc)(h := None)\<rparr>, flag = DIRTY_ENTRY\<rparr>"
       "undoAt bu1 x = (undoAt bu x)\<lparr>appliedMaturedAmount := a,
               contentBitMask := insert MATURED_AMOUNTS (contentBitMask (undoAt bu x))\<rparr>"
    and other: "\<forall>k. k \<noteq> x \<longrightarrow> cacheSidechains c1 k = cacheSidechains c k \<and> bu1 k = bu k"
    and b: "base c1 = base c"
    by blast
  show ?case
  proof (cases "k = x")
    case True
    have "x \<notin> set xs"
      using maturing_loop_once [OF rest x(3)] by simp
    with maturing_loop_frame [OF rest] have
      keep: "cacheSidechains c' x = cacheSidechains c1 x" "bu' x = bu1 x"
      by auto
    from keep(2) have "undoAt bu' x = undoAt bu1 x"
      by (simp add: undoAt_def)
    with x keep(1) have
      "cacheSidechains c' x = Some \<lparr>sidechain = sc\<lparr>balance := balance sc + a,
               mImmatureAmounts := (mImmatureAmounts sc)(h := None)\<rparr>, flag = DIRTY_ENTRY\<rparr>"
      "undoAt bu' x = (undoAt bu x)\<lparr>appliedMaturedAmount := a,
               contentBitMask := insert MATURED_AMOUNTS (contentBitMask (undoAt bu x))\<rparr>"
      by (simp_all only:)
    with x(1,2) show ?thesis
      unfolding True by blast
  next
    case False
    with Cons.prems(2) have "k \<in> set xs" by simp
    from Cons.IH [OF rest this] obtain sc' a' where
      k: "fst (GetSidechain k c1) = Some sc'" "mImmatureAmounts sc' h = Some a'"
       "cacheSidechains c' k = Some \<lparr>sidechain = sc'\<lparr>balance := balance sc' + a',
               mImmatureAmounts := (mImmatureAmounts sc')(h := None)\<rparr>, flag = DIRTY_ENTRY\<rparr>"
       "undoAt bu' k = (undoAt bu1 k)\<lparr>appliedMaturedAmount := a',
               contentBitMask := insert MATURED_AMOUNTS (contentBitMask (undoAt bu1 k))\<rparr>"
      by blast
    from other False have same: "cacheSidechains c1 k = cacheSidechains c k" "bu1 k = bu k"
      by auto
    have g: "fst (GetSidechain k c1) = fst (GetSidechain k c)"
      using GetSidechain_cong [OF same(1) b] .
    have u: "undoAt bu1 k = undoAt bu k"
      using same(2) by (simp add: undoAt_def)
    from k(1) g have k1: "fst (GetSidechain k c) = Some sc'"
      by (simp only:)
    note k4 = k(4) [unfolded u]
    from k1 k(2,3) k4 show ?thesis
      by blast
  qed
qed


lemma NullifyBackwardTransfers_frame:
  assumes "NullifyBackwardTransfers cHash outs c = Inr (outs', c')"
  shows "cacheSidechains c' = cacheSidechains c \<and>
         cacheSidechainEvents c' = cacheSidechainEvents c \<and> base c' = base c"
proof (cases "IsNull256 cHash")
  case True
  with assms show ?thesis by (simp add: NullifyBackwardTransfers_def)
next
  case False
  obtain b c0 where h: "HaveCoins cHash c = (b, c0)"
    by (cases "HaveCoins cHash c")
  then have f0: "cacheSidechains c0 = cacheSidechains c \<and>
         cacheSidechainEvents c0 = cacheSidechainEvents c \<and> base c0 = base c"
    by (auto simp: HaveCoins_def FetchCoins_def Let_def split: option.splits)
  show ?thesis
  proof (cases b)
    case False
    with assms h \<open>\<not> IsNull256 cHash\<close> f0 show ?thesis
      by (simp add: NullifyBackwardTransfers_def)
  next
    case True
    with assms h \<open>\<not> IsNull256 cHash\<close> obtain it c1 where
      m: "ModifyCoins cHash c0 = Inr (it, c1)"
      by (auto simp: NullifyBackwardTransfers_def split: sum.splits)
    then have f1: "cacheSidechains c1 = cacheSidechains c0 \<and>
         cacheSidechainEvents c1 = cacheSidechainEvents c0 \<and> base c1 = base c0"
      by (auto simp: ModifyCoins_def Let_def setCoinsEntry_def split: if_splits)
    from assms h True \<open>\<not> IsNull256 cHash\<close> m obtain e2 where
      d: "CCoinsModifier_drop cHash (setCoinsEntry cHash e2 c1) = Inr c'"
      by (auto simp: NullifyBackwardTransfers_def split: if_splits prod.splits sum.splits)
    then have "cacheSidechains c' = cacheSidechains c1 \<and>
         cacheSidechainEvents c' = cacheSidechainEvents c1 \<and> base c' = base c1"
      by (auto simp: CCoinsModifier_drop_def Let_def setCoinsEntry_def split: if_splits)
    with f0 f1 show ?thesis by simp
  qed
qed

lemma HandleCeasing_frame:
  assumes "HandleCeasing x (bu, pin, c) = Inr (bu1, pin1, c1)"
  shows "base c1 = base c \<and> cacheSidechainEvents c1 = cacheSidechainEvents c \<and>
         (\<forall>k e. cacheSidechains c k = Some e \<longrightarrow>
            (\<exists>e1. cacheSidechains c1 k = Some e1 \<and>
               balance (sidechain e1) = balance (sidechain e) \<and>
               mImmatureAmounts (sidechain e1) = mImmatureAmounts (sidechain e))) \<and>
         (\<forall>k. appliedMaturedAmount (undoAt bu1 k) = appliedMaturedAmount (undoAt bu k) \<and>
              contentBitMask (undoAt bu k) \<subseteq> contentBitMask (undoAt bu1 k))"
proof -
  obtain r c0 where g: "GetSidechain x c = (r, c0)"
    by (cases "GetSidechain x c")
  with assms obtain sc where r: "r = Some sc"
    by (cases r) (auto simp: HandleCeasing_def)
  obtain r' where f: "FetchSidechains x c = (r', c0)"
    using g by (auto simp: GetSidechain_def split: prod.splits)
  with g r obtain e where e: "r' = Some e" "sidechain e = sc"
    by (auto simp: GetSidechain_def split: option.splits if_splits)
  note fr = FetchSidechains_frame [OF f]
  from fr e(1) have slot: "cacheSidechains c0 x = Some e" by simp
  then have m: "ModifySidechain x c0 = (e, c0)"
    by (simp add: ModifySidechain_def)
  let ?c2 = "setSidechainEntry x \<lparr>sidechain = (sidechain e)\<lparr>currentState := CEASED\<rparr>, flag = DIRTY_ENTRY\<rparr> c0"
  let ?bu1 = "bu(x \<mapsto> (undoAt bu x)\<lparr>contentBitMask :=
                 insert CEASED_CERT_DATA (contentBitMask (undoAt bu x))\<rparr>)"
  have c2: "base ?c2 = base c \<and> cacheSidechainEvents ?c2 = cacheSidechainEvents c \<and>
         (\<forall>k e'. cacheSidechains c k = Some e' \<longrightarrow>
            (\<exists>e1. cacheSidechains ?c2 k = Some e1 \<and>
               balance (sidechain e1) = balance (sidechain e') \<and>
               mImmatureAmounts (sidechain e1) = mImmatureAmounts (sidechain e')))"
    using fr e(1) by (auto simp: setSidechainEntry_def)
  have u1: "\<forall>k. appliedMaturedAmount (undoAt ?bu1 k) = appliedMaturedAmount (undoAt bu k) \<and>
              contentBitMask (undoAt bu k) \<subseteq> contentBitMask (undoAt ?bu1 k)"
    by (auto simp: undoAt_def)
  show ?thesis
  proof (cases "lastTopQualityCertReferencedEpoch sc = EPOCH_NULL")
    case True
    with assms g r m have "c1 = ?c2" "bu1 = ?bu1"
      by (auto simp: HandleCeasing_def Let_def split: if_splits)
    with c2 u1 show ?thesis by simp
  next
    case False
    with assms g r m obtain outs c3 where
      n: "NullifyBackwardTransfers (lastTopQualityCertHash sc) (ceasedBwts (undoAt ?bu1 x)) ?c2
            = Inr (outs, c3)"
      and res: "c1 = c3" "bu1 = ?bu1(x \<mapsto> (undoAt ?bu1 x)\<lparr>ceasedBwts := outs\<rparr>)"
      by (auto simp: HandleCeasing_def Let_def split: if_splits sum.splits)
    from NullifyBackwardTransfers_frame [OF n] c2 have
      "base c3 = base c \<and> cacheSidechainEvents c3 = cacheSidechainEvents c \<and>
         (\<forall>k e'. cacheSidechains c k = Some e' \<longrightarrow>
            (\<exists>e1. cacheSidechains c3 k = Some e1 \<and>
               balance (sidechain e1) = balance (sidechain e') \<and>
               mImmatureAmounts (sidechain e1) = mImmatureAmounts (sidechain e')))"
      by simp
    moreover have "\<forall>k. appliedMaturedAmount (undoAt bu1 k) = appliedMaturedAmount (undoAt bu k) \<and>
              contentBitMask (undoAt bu k) \<subseteq> contentBitMask (undoAt bu1 k)"
      unfolding res(2) by (auto simp: undoAt_def)
    ultimately show ?thesis
      using res(1) by simp
  qed
qed


lemma ceasing_loop_frame:
  assumes "foldE HandleCeasing ys (bu, pin, c) = Inr (bu', pin', c')"
  shows "base c' = base c \<and> cacheSidechainEvents c' = cacheSidechainEvents c \<and>
         (\<forall>k e. cacheSidechains c k = Some e \<longrightarrow>
            (\<exists>e1. cacheSidechains c' k = Some e1 \<and>
               balance (sidechain e1) = balance (sidechain e) \<and>
               mImmatureAmounts (sidechain e1) = mImmatureAmounts (sidechain e))) \<and>
         (\<forall>k. appliedMaturedAmount (undoAt bu' k) = appliedMaturedAmount (undoAt bu k) \<and>
              contentBitMask (undoAt bu k) \<subseteq> contentBitMask (undoAt bu' k))"
  using assms
proof (induction ys arbitrary: bu pin c)
  case Nil
  then show ?case by simp
next
  case (Cons y ys)
  from Cons.prems obtain bu1 pin1 c1 where
    st: "HandleCeasing y (bu, pin, c) = Inr (bu1, pin1, c1)"
    and rest: "foldE HandleCeasing ys (bu1, pin1, c1) = Inr (bu', pin', c')"
    by (auto split: sum.splits)
  note a = HandleCeasing_frame [OF st]
  note b = Cons.IH [OF rest]
  have "\<forall>k e. cacheSidechains c k = Some e \<longrightarrow>
            (\<exists>e1. cacheSidechains c' k = Some e1 \<and>
               balance (sidechain e1) = balance (sidechain e) \<and>
               mImmatureAmounts (sidechain e1) = mImmatureAmounts (sidechain e))"
  proof (intro allI impI)
    fix k e
    assume "cacheSidechains c k = Some e"
    with a obtain e1 where e1: "cacheSidechains c1 k = Some e1"
      "balance (sidechain e1) = balance (sidechain e)"
      "mImmatureAmounts (sidechain e1) = mImmatureAmounts (sidechain e)"
      by blast
    with b obtain e2 where "cacheSidechains c' k = Some e2"
      "balance (sidechain e2) = balance (sidechain e1)"
      "mImmatureAmounts (sidechain e2) = mImmatureAmounts (sidechain e1)"
      by blast
    with e1 show "\<exists>e1. cacheSidechains c' k = Some e1 \<and>
               balance (sidechain e1) = balance (sidechain e) \<and>
               mImmatureAmounts (sidechain e1) = mImmatureAmounts (sidechain e)"
      by simp
  qed
  moreover have "\<forall>k. appliedMaturedAmount (undoAt bu' k) = appliedMaturedAmount (undoAt bu k) \<and>
              contentBitMask (undoAt bu k) \<subseteq> contentBitMask (undoAt bu' k)"
    using a b by (metis subset_trans)
  ultimately show ?case
    using a b by simp
qed

text \<open>
  C4: when \<^verbatim>\<open>HandleSidechainEvents\<close> returns for a height \<open>h\<close> that has a (non-erased)
  events entry, then for every sidechain id in the maturing set of that entry: the
  sidechain had an immature amount at \<open>h\<close>; its balance is now the old balance plus that
  amount; its immature amounts are the old ones without the entry at \<open>h\<close>; the undo
  record of the id holds the amount as \<^verbatim>\<open>appliedMaturedAmount\<close> and has the
  \<^verbatim>\<open>MATURED_AMOUNTS\<close> bit; and the events entry at \<open>h\<close> is flagged \<^verbatim>\<open>ERASED\<close>.
\<close>

theorem handle_events_matures_amounts:
  assumes "HandleSidechainEvents h blockUndo pInfo c = Inr (ret, blockUndo', pInfo', c')"
    and "fst (GetSidechainEvents h c) = Some ev"
    and "scId \<in> set (maturingScs ev)"
  shows "\<exists>sc amount e' eh.
           ret \<and>
           fst (GetSidechain scId c) = Some sc \<and> mImmatureAmounts sc h = Some amount \<and>
           cacheSidechains c' scId = Some e' \<and>
           balance (sidechain e') = balance sc + amount \<and>
           mImmatureAmounts (sidechain e') = (mImmatureAmounts sc)(h := None) \<and>
           appliedMaturedAmount (undoAt blockUndo' scId) = amount \<and>
           MATURED_AMOUNTS \<in> contentBitMask (undoAt blockUndo' scId) \<and>
           cacheSidechainEvents c' h = Some eh \<and> evflag eh = ERASED"
proof -
  obtain r0 c0 where f: "FetchSidechainEvents h c = (r0, c0)"
    by (cases "FetchSidechainEvents h c")
  with assms(2) obtain e0 where e0: "r0 = Some e0" "evflag e0 \<noteq> ERASED" "scEvents e0 = ev"
    by (auto simp: GetSidechainEvents_def split: option.splits if_splits)
  note fr = FetchSidechainEvents_frame [OF f]
  from fr e0(1) have slot: "cacheSidechainEvents c0 h = Some e0" by simp
  have hv: "HaveSidechainEvents h c = (True, c0)"
    using f e0 by (simp add: HaveSidechainEvents_def)
  have gt: "GetSidechainEvents h c0 = (Some ev, c0)"
    using slot e0 by (simp add: GetSidechainEvents_def FetchSidechainEvents_def)
  from assms(1) hv gt obtain bu1 c2 where
    m: "foldE (HandleMaturing h) (maturingScs ev) (blockUndo, c0) = Inr (bu1, c2)"
    by (auto simp: HandleSidechainEvents_def Let_def split: sum.splits)
  from assms(1) hv gt m obtain c3 where
    cz: "foldE HandleCeasing (ceasingScs ev) (bu1, pInfo, c2) = Inr (blockUndo', pInfo', c3)"
    and fin: "c' = setEventsEntry h ((fst (ModifySidechainEvents h c3))\<lparr>evflag := ERASED\<rparr>)
                     (snd (ModifySidechainEvents h c3))"
    and ret: "ret"
    by (auto simp: HandleSidechainEvents_def Let_def split: sum.splits prod.splits)
  from maturing_loop_entry [OF m assms(3)] obtain sc a where
    k: "fst (GetSidechain scId c0) = Some sc" "mImmatureAmounts sc h = Some a"
       "cacheSidechains c2 scId = Some \<lparr>sidechain = sc\<lparr>balance := balance sc + a,
               mImmatureAmounts := (mImmatureAmounts sc)(h := None)\<rparr>, flag = DIRTY_ENTRY\<rparr>"
       "undoAt bu1 scId = (undoAt blockUndo scId)\<lparr>appliedMaturedAmount := a,
               contentBitMask := insert MATURED_AMOUNTS (contentBitMask (undoAt blockUndo scId))\<rparr>"
    by blast
  have g0: "fst (GetSidechain scId c) = Some sc"
    using k(1) GetSidechain_cong [of c0 scId c] fr by simp
  note cf = ceasing_loop_frame [OF cz]
  from cf k(3) obtain e3 where e3: "cacheSidechains c3 scId = Some e3"
    "balance (sidechain e3) = balance sc + a"
    "mImmatureAmounts (sidechain e3) = (mImmatureAmounts sc)(h := None)"
    by fastforce
  from cf have cfu: "appliedMaturedAmount (undoAt blockUndo' scId) = appliedMaturedAmount (undoAt bu1 scId)"
    "contentBitMask (undoAt bu1 scId) \<subseteq> contentBitMask (undoAt blockUndo' scId)"
    by blast+
  have "appliedMaturedAmount (undoAt bu1 scId) = a"
    "MATURED_AMOUNTS \<in> contentBitMask (undoAt bu1 scId)"
    by (simp_all add: k(4))
  with cfu have u: "appliedMaturedAmount (undoAt blockUndo' scId) = a"
    "MATURED_AMOUNTS \<in> contentBitMask (undoAt blockUndo' scId)"
    by auto
  have keep: "cacheSidechains c' = cacheSidechains c3"
    unfolding fin
    by (simp add: setEventsEntry_def ModifySidechainEvents_def Let_def split: option.splits)
  have er: "\<exists>eh. cacheSidechainEvents c' h = Some eh \<and> evflag eh = ERASED"
    unfolding fin by (simp add: setEventsEntry_def)
  from ret g0 k(2) e3 u keep er show ?thesis
    by auto
qed


theorem handle_events_matures_amounts_witness:
  "\<exists>bu' c'. HandleSidechainEvents 204 Map.empty None exMaturingCache = Inr (True, bu', None, c') \<and>
      fst (GetSidechain 1 exMaturingCache) = Some exImmatureSidechain \<and>
      balance exImmatureSidechain = 0 \<and>
      map_option (\<lambda>e. balance (sidechain e)) (cacheSidechains c' 1) = Some 100 \<and>
      map_option (\<lambda>e. mImmatureAmounts (sidechain e) 204) (cacheSidechains c' 1) = Some None \<and>
      appliedMaturedAmount (undoAt bu' 1) = 100 \<and>
      MATURED_AMOUNTS \<in> contentBitMask (undoAt bu' 1) \<and>
      map_option evflag (cacheSidechainEvents c' 204) = Some ERASED"
proof -
  have "\<exists>bu' c'. HandleSidechainEvents 204 Map.empty None exMaturingCache = Inr (True, bu', None, c')"
    by (simp add: HandleSidechainEvents_def HaveSidechainEvents_def GetSidechainEvents_def
        FetchSidechainEvents_def exMaturingCache_def CCoinsViewCache_init_def CCoinsView_init_def
        HandleMaturing_def HandleCeasing_def HaveSidechain_def GetSidechain_def
        FetchSidechains_def ModifySidechain_def ModifySidechainEvents_def setSidechainEntry_def
        setEventsEntry_def exImmatureSidechain_def exSidechain_def CSidechain_init_def
        undoAt_def IsNull256_def Let_def)
  then obtain bu' c' where
    run: "HandleSidechainEvents 204 Map.empty None exMaturingCache = Inr (True, bu', None, c')"
    by blast
  have ev: "fst (GetSidechainEvents 204 exMaturingCache) = Some \<lparr>maturingScs = [1], ceasingScs = [1]\<rparr>"
    by (simp add: GetSidechainEvents_def FetchSidechainEvents_def exMaturingCache_def
        CCoinsViewCache_init_def CCoinsView_init_def Let_def)
  have mem: "1 \<in> set (maturingScs \<lparr>maturingScs = [1], ceasingScs = [1 :: uint256]\<rparr>)"
    by simp
  have sc: "fst (GetSidechain 1 exMaturingCache) = Some exImmatureSidechain"
    by (simp add: GetSidechain_def FetchSidechains_def exMaturingCache_def
        CCoinsViewCache_init_def CCoinsView_init_def Let_def)
  have vals: "balance exImmatureSidechain = 0" "mImmatureAmounts exImmatureSidechain 204 = Some 100"
    by (simp_all add: exImmatureSidechain_def)
  from handle_events_matures_amounts [OF run ev mem] sc vals
  have "map_option (\<lambda>e. balance (sidechain e)) (cacheSidechains c' 1) = Some 100 \<and>
      map_option (\<lambda>e. mImmatureAmounts (sidechain e) 204) (cacheSidechains c' 1) = Some None \<and>
      appliedMaturedAmount (undoAt bu' 1) = 100 \<and>
      MATURED_AMOUNTS \<in> contentBitMask (undoAt bu' 1) \<and>
      map_option evflag (cacheSidechainEvents c' 204) = Some ERASED"
    by auto
  with run sc vals(1) show ?thesis by blast
qed

text \<open>
  An example of the ceasing path: handling height 225 ceases sidechain 1, nulls the
  backward transfers of its top certificate, records them in the undo and releases the
  Modifier.
\<close>

lemma HandleSidechainEvents_ceasing_example:
  "(case HandleSidechainEvents 225 Map.empty None exCeasingCache of
      Inl e \<Rightarrow> None
    | Inr (ret, blockUndo, pInfo, c) \<Rightarrow>
        Some (ret,
              map_option (\<lambda>e. currentState (sidechain e)) (cacheSidechains c 1),
              map_option (\<lambda>e. vout (coins e)) (cacheCoins c 193),
              map txout (ceasedBwts (undoAt blockUndo 1)),
              CEASED_CERT_DATA \<in> contentBitMask (undoAt blockUndo 1),
              hasModifier c,
              map_option evflag (cacheSidechainEvents c 225)))
   = Some (True, Some CEASED, Some [\<lparr>nValue = 10, scriptPubKey = [1]\<rparr>],
           [\<lparr>nValue = 20, scriptPubKey = [2]\<rparr>, \<lparr>nValue = 30, scriptPubKey = [3]\<rparr>],
           True, False, Some ERASED)"
  by (simp add: HandleSidechainEvents_def HaveSidechainEvents_def GetSidechainEvents_def
        FetchSidechainEvents_def exCeasingCache_def CCoinsViewCache_init_def CCoinsView_init_def
        HandleCeasing_def GetSidechain_def FetchSidechains_def ModifySidechain_def
        ModifySidechainEvents_def setSidechainEntry_def setEventsEntry_def exSidechain_def
        CSidechain_init_def undoAt_def IsNull256_def Let_def EPOCH_NULL_def
        NullifyBackwardTransfers_def HaveCoins_def FetchCoins_def ModifyCoins_def
        CCoinsModifier_drop_def setCoinsEntry_def exCertCoins_def IsPruned_def IsNull_def
        SetNull_def Spend_def Cleanup_def CTxInUndo_of_def CSidechainUndoData_init_def
        nullify_loop.simps pop_null_back.simps DIRTY_def FRESH_def CCoinsCacheEntry_init_def)

end
